(* ===== verification/Go_Prelude.thy ===== *)
theory Go_Prelude
  imports Main "HOL-Library.Word" "HOL-Library.Signed_Division" "HOL-Library.Sublist"
begin

text \<open>
  The parts of the Go language and standard library that every component of blobcache uses:
  machine integers, byte slices, results with errors and panics (the sentinel errors are those of
  \<^verbatim>\<open>src/pkg/errors.go\<close>), decimal printing and parsing (\<^verbatim>\<open>fmt\<close>, \<^verbatim>\<open>strconv\<close>), string splitting and
  joining (\<^verbatim>\<open>strings\<close>), and the generic list lemmas about chunks of a byte sequence.
\<close>

subsection \<open>Machine integers\<close>

text \<open>
  Go's \<^verbatim>\<open>int64\<close> (and \<^verbatim>\<open>int\<close>, which has 64 bits on the supported platforms) is an \<^typ>\<open>int\<close> whose
  arithmetic results pass through \<open>wrap64\<close>, the two's complement wrap-around. Quotients and
  remainders truncate towards zero: \<open>sdiv\<close> and \<open>smod\<close> of \<open>HOL-Library.Signed_Division\<close>.
\<close>

definition wrap64 :: "int \<Rightarrow> int" where
  "wrap64 x = (x + 2 ^ 63) mod 2 ^ 64 - 2 ^ 63"

text \<open>The conversions \<^verbatim>\<open>int32(x)\<close> and \<^verbatim>\<open>uint32(x)\<close> keep the low 32 bits.\<close>

definition to_int32 :: "int \<Rightarrow> int" where
  "to_int32 x = (x + 2 ^ 31) mod 2 ^ 32 - 2 ^ 31"

definition to_uint32 :: "int \<Rightarrow> int" where
  "to_uint32 x = x mod 2 ^ 32"

definition in64 :: "int \<Rightarrow> bool" where
  "in64 x \<longleftrightarrow> - (2 ^ 63) \<le> x \<and> x < 2 ^ 63"

type_synonym byte = "8 word"
type_synonym bytes = "8 word list"
type_synonym u32 = "32 word"
type_synonym u64 = "64 word"

subsection \<open>Errors and results\<close>

datatype goerr =
    ErrHostNotFound
  | ErrUnableToReachHost
  | ErrInvalidHostVersion
  | ErrContentNotFound
  | ErrClientNotFound
  | ErrCacheLockHeld
  | ErrUnableToPopulateContent
  | ErrBlobFsMountFailure
  | ErrUnableToAcquireLock
  | ErrNodeNotFound string
  | ErrMsg string

text \<open>
  What a Go call can do: return normally, return a non-nil error, or panic (a slice bound, a nil
  pointer, a division by zero, a failed type assertion).
\<close>

datatype 'a res = Ok 'a | Err goerr | Panic

subsection \<open>Strings\<close>

text \<open>\<^verbatim>\<open>fmt.Sprintf("%d", n)\<close> on integers, and \<^verbatim>\<open>strconv.ParseUint(s, 10, bits)\<close>.\<close>

definition digit_char :: "nat \<Rightarrow> char" where
  "digit_char d = char_of (48 + d)"

definition digit_val :: "char \<Rightarrow> nat" where
  "digit_val c = of_char c - 48"

definition is_digit :: "char \<Rightarrow> bool" where
  "is_digit c \<longleftrightarrow> (48::nat) \<le> of_char c \<and> of_char c \<le> (57::nat)"

fun show_nat :: "nat \<Rightarrow> string" where
  "show_nat n = (if n < 10 then [digit_char n] else show_nat (n div 10) @ [digit_char (n mod 10)])"

declare show_nat.simps [simp del]

definition itoa :: "int \<Rightarrow> string" where
  "itoa i = (if i < 0 then CHR ''-'' # show_nat (nat (- i)) else show_nat (nat i))"

definition digits_value :: "string \<Rightarrow> nat" where
  "digits_value s = foldl (\<lambda>a c. a * 10 + digit_val c) 0 s"

definition parse_nat :: "string \<Rightarrow> nat option" where
  "parse_nat s = (if s \<noteq> [] \<and> list_all is_digit s then Some (digits_value s) else None)"

definition ParseUint :: "nat \<Rightarrow> string \<Rightarrow> nat option" where
  "ParseUint bits s =
     (case parse_nat s of None \<Rightarrow> None | Some n \<Rightarrow> if n < 2 ^ bits then Some n else None)"

text \<open>\<^verbatim>\<open>strings.Split\<close>, \<^verbatim>\<open>strings.Join\<close>, \<^verbatim>\<open>strings.ReplaceAll\<close> and \<^verbatim>\<open>strings.Contains\<close> for a separator
  of one character, the only form the source uses.\<close>

fun split_on :: "char \<Rightarrow> string \<Rightarrow> string list" where
  "split_on c [] = [[]]"
| "split_on c (x # xs) =
     (if x = c then [] # split_on c xs
      else (case split_on c xs of [] \<Rightarrow> [[x]] | y # ys \<Rightarrow> (x # y) # ys))"

fun join_with :: "char \<Rightarrow> string list \<Rightarrow> string" where
  "join_with c [] = []"
| "join_with c [x] = x"
| "join_with c (x # y # ys) = x @ c # join_with c (y # ys)"

definition replace_char :: "char \<Rightarrow> char \<Rightarrow> string \<Rightarrow> string" where
  "replace_char a b s = map (\<lambda>c. if c = a then b else c) s"

text \<open>The first field of \<^verbatim>\<open>strings.SplitN(s, sep, 2)\<close>.\<close>

definition before_char :: "char \<Rightarrow> string \<Rightarrow> string" where
  "before_char c s = takeWhile (\<lambda>x. x \<noteq> c) s"

subsection \<open>Automation shared by the components\<close>

named_theorems go_arith \<open>facts about machine integers used to discharge overflow conditions\<close>
named_theorems go_str \<open>facts about printed numbers, split and joined strings\<close>

subsection \<open>Lemmas: machine integers\<close>

lemma wrap64_id [simp]: "in64 x \<Longrightarrow> wrap64 x = x"
  by (simp add: wrap64_def in64_def)

lemma in64_wrap64 [simp]: "in64 (wrap64 x)"
proof -
  have "0 \<le> (x + 2 ^ 63) mod 2 ^ 64" and "(x + 2 ^ 63) mod 2 ^ 64 < (2 ^ 64 :: int)"
    by (rule pos_mod_sign pos_mod_bound; simp)+
  then show ?thesis by (simp add: wrap64_def in64_def)
qed

lemma in64I [go_arith]: "0 \<le> x \<Longrightarrow> x < 2 ^ 63 \<Longrightarrow> in64 x"
  by (simp add: in64_def)

lemma sdiv_nonneg [go_arith]: "0 \<le> a \<Longrightarrow> 0 \<le> b \<Longrightarrow> a sdiv b = a div (b::int)"
  by (cases "a = 0"; cases "b = 0") (auto simp: signed_divide_int_def sgn_if)

lemma smod_nonneg [go_arith]: "0 \<le> a \<Longrightarrow> 0 \<le> b \<Longrightarrow> a smod b = a mod (b::int)"
  by (cases "a = 0") (auto simp: signed_modulo_int_def signed_divide_int_def sgn_if)

subsection \<open>Lemmas: printed numbers\<close>

lemma is_digit_digit_char [go_str]: "d < 10 \<Longrightarrow> is_digit (digit_char d)"
  by (simp add: is_digit_def digit_char_def)

lemma digit_val_digit_char [go_str]: "d < 10 \<Longrightarrow> digit_val (digit_char d) = d"
  by (simp add: digit_val_def digit_char_def)

lemma show_nat_nonempty [simp]: "show_nat n \<noteq> []"
  by (subst show_nat.simps) simp

lemma show_nat_digits [go_str]: "c \<in> set (show_nat n) \<Longrightarrow> is_digit c"
proof (induction n rule: show_nat.induct)
  case (1 n)
  show ?case
  proof (cases "n < 10")
    case True
    with "1.prems" show ?thesis by (simp add: show_nat.simps [of n] is_digit_digit_char)
  next
    case False
    with 1 show ?thesis by (auto simp: show_nat.simps [of n] is_digit_digit_char)
  qed
qed

lemma digits_value_snoc: "digits_value (s @ [c]) = digits_value s * 10 + digit_val c"
  by (simp add: digits_value_def)

lemma digits_value_show_nat [go_str]: "digits_value (show_nat n) = n"
proof (induction n rule: show_nat.induct)
  case (1 n)
  show ?case
  proof (cases "n < 10")
    case True
    then show ?thesis by (simp add: show_nat.simps [of n] digits_value_def digit_val_digit_char)
  next
    case False
    with 1 show ?thesis
      by (simp add: show_nat.simps [of n] digits_value_snoc digit_val_digit_char)
  qed
qed

lemma parse_show_nat [go_str]: "parse_nat (show_nat n) = Some n"
  by (auto simp: parse_nat_def list_all_iff show_nat_digits digits_value_show_nat)

lemma show_nat_inj [go_str]: "show_nat m = show_nat n \<longleftrightarrow> m = n"
  by (metis digits_value_show_nat)

lemma ParseUint_show_nat [go_str]: "n < 2 ^ bits \<Longrightarrow> ParseUint bits (show_nat n) = Some n"
  by (simp add: ParseUint_def parse_show_nat)

lemma not_digit_minus [simp]: "\<not> is_digit CHR ''-''"
  by (simp add: is_digit_def)

lemma show_nat_no_minus [simp]: "CHR ''-'' \<notin> set (show_nat n)"
  using show_nat_digits not_digit_minus by blast

lemma itoa_inj [go_str]: "itoa i = itoa j \<longleftrightarrow> i = j"
proof
  assume eq: "itoa i = itoa j"
  have hd: "hd (show_nat n) \<noteq> CHR ''-''" for n
    by (metis hd_in_set show_nat_no_minus show_nat_nonempty)
  show "i = j"
  proof (cases "i < 0"; cases "j < 0")
    assume "i < 0" "\<not> j < 0"
    then show ?thesis using eq hd [of "nat j"] by (metis itoa_def list.sel(1))
  next
    assume "\<not> i < 0" "j < 0"
    then show ?thesis using eq hd [of "nat i"] by (metis itoa_def list.sel(1))
  qed (use eq in \<open>simp_all add: itoa_def show_nat_inj eq_nat_nat_iff\<close>)
qed simp

lemma itoa_chars [go_str]: "c \<in> set (itoa i) \<Longrightarrow> is_digit c \<or> c = CHR ''-''"
  by (auto simp: itoa_def split: if_splits dest: show_nat_digits)

lemma itoa_nonempty [simp]: "itoa i \<noteq> []"
  by (simp add: itoa_def)

subsection \<open>Lemmas: splitting and joining\<close>

lemma split_on_nonempty [simp]: "split_on c s \<noteq> []"
  by (induction s) (auto split: list.splits)

lemma split_on_free [go_str]: "c \<notin> set s \<Longrightarrow> split_on c s = [s]"
  by (induction s) auto

lemma split_on_append [go_str]:
  "c \<notin> set x \<Longrightarrow> split_on c (x @ c # rest) = x # split_on c rest"
  by (induction x) auto

lemma split_join [go_str]:
  "xs \<noteq> [] \<Longrightarrow> \<forall>x \<in> set xs. c \<notin> set x \<Longrightarrow> split_on c (join_with c xs) = xs"
  by (induction c xs rule: join_with.induct) (auto simp: split_on_free split_on_append)

lemma split_on_parts [go_str]: "x \<in> set (split_on c s) \<Longrightarrow> c \<notin> set x"
proof (induction s arbitrary: x)
  case Nil
  then show ?case by simp
next
  case (Cons a s)
  then show ?case by (cases "split_on c s") (auto split: if_splits)
qed

lemma split_on_slash_append [go_str]:
  "split_on c (s @ c # t) = split_on c s @ split_on c t"
proof (induction s)
  case Nil
  then show ?case by simp
next
  case (Cons a s)
  show ?case
  proof (cases "split_on c s")
    case Nil
    then show ?thesis by simp
  next
    case (Cons y ys)
    with Cons.IH show ?thesis by simp
  qed
qed

lemma before_char_append [go_str]: "c \<notin> set x \<Longrightarrow> before_char c (x @ c # rest) = x"
  by (induction x) (auto simp: before_char_def)

lemma join_with_append [go_str]:
  "xs \<noteq> [] \<Longrightarrow> ys \<noteq> [] \<Longrightarrow> join_with c (xs @ ys) = join_with c xs @ c # join_with c ys"
proof (induction c xs rule: join_with.induct)
  case (2 c x)
  then show ?case by (cases ys) auto
qed auto

lemma join_with_inj [go_str]:
  assumes "join_with c xs = join_with c ys" "xs \<noteq> []" "ys \<noteq> []"
    "\<forall>x \<in> set xs. c \<notin> set x" "\<forall>y \<in> set ys. c \<notin> set y"
  shows "xs = ys"
  using assms split_join by metis

subsection \<open>Lemmas: chunks of a byte sequence\<close>

text \<open>The \<open>i\<close>-th page of a byte sequence, for pages of \<open>p\<close> bytes.\<close>

definition chunk :: "nat \<Rightarrow> nat \<Rightarrow> 'a list \<Rightarrow> 'a list" where
  "chunk p i c = take p (drop (i * p) c)"

lemma length_chunk: "length (chunk p i c) = min p (length c - i * p)"
  by (simp add: chunk_def)

lemma chunk_empty_iff: "0 < p \<Longrightarrow> chunk p i c = [] \<longleftrightarrow> length c \<le> i * p"
  by (auto simp: chunk_def)

text \<open>Reading inside one chunk is reading the sequence itself.\<close>

lemma take_drop_chunk:
  assumes "0 < p" "s + n \<le> length (chunk p i c)"
  shows "take n (drop s (chunk p i c)) = take n (drop (i * p + s) c)"
proof -
  from assms have "s + n \<le> p" by (simp add: length_chunk)
  then show ?thesis
    by (simp add: chunk_def drop_take min_def add.commute)
qed

lemma take_drop_prefix:
  assumes "prefix b b'" "s + n \<le> length b"
  shows "take n (drop s b) = take n (drop s b')"
  using assms by (auto simp: prefix_def)

text \<open>Extending a prefix read by the bytes that follow it.\<close>

lemma take_add_drop: "take m xs @ take n (drop m xs) = take (m + n) xs"
  by (simp add: take_add)

text \<open>\<^verbatim>\<open>copy(dst[i:i+len(src)], src)\<close>: overwrite a run of bytes inside a buffer.\<close>

definition copy_at :: "'a list \<Rightarrow> nat \<Rightarrow> 'a list \<Rightarrow> 'a list" where
  "copy_at dst i src = take i dst @ src @ drop (i + length src) dst"

lemma length_copy_at [simp]: "i + length src \<le> length dst \<Longrightarrow> length (copy_at dst i src) = length dst"
  by (simp add: copy_at_def)

lemma take_copy_at [simp]:
  "i + length src \<le> length dst \<Longrightarrow> take (i + length src) (copy_at dst i src) = take i dst @ src"
  by (simp add: copy_at_def)

lemma drop_copy_at [simp]:
  assumes "i + length src \<le> length dst" "i + length src \<le> j"
  shows "drop j (copy_at dst i src) = drop j dst"
proof -
  obtain k where j: "j = i + length src + k" using assms(2) le_Suc_ex by blast
  have m: "min (length dst) i = i" using assms(1) by simp
  show ?thesis by (simp add: copy_at_def j m) (simp add: ac_simps)
qed

lemma copy_at_Nil [simp]: "copy_at dst i [] = dst"
  by (simp add: copy_at_def)

lemma copy_at_copy_at:
  assumes "i + length a + length b \<le> length dst"
  shows "copy_at (copy_at dst i a) (i + length a) b = copy_at dst i (a @ b)"
proof -
  have "copy_at (copy_at dst i a) (i + length a) b
      = take (i + length a) (copy_at dst i a) @ b @ drop (i + length a + length b) (copy_at dst i a)"
    by (simp only: copy_at_def)
  also have "\<dots> = (take i dst @ a) @ b @ drop (i + length a + length b) dst"
    using assms by (simp del: append_assoc)
  finally show ?thesis by (simp add: copy_at_def add.assoc)
qed

lemma prefix_take_drop: "prefix b ch \<Longrightarrow> prefix (take n (drop k b)) (drop k ch)"
proof -
  assume "prefix b ch"
  then obtain zs where "ch = b @ zs" by (auto simp: prefix_def)
  then have "drop k ch = take n (drop k b) @ drop n (drop k b) @ drop (k - length b) zs"
    by (simp only: drop_append append_assoc [symmetric] append_take_drop_id)
  then show ?thesis unfolding prefix_def by blast
qed

lemma prefix_chunk:
  assumes "prefix b (chunk p (n div p) c)"
  shows "prefix (take k (drop (n mod p) b)) (drop n c)"
proof -
  have "prefix (take k (drop (n mod p) b)) (drop (n mod p) (chunk p (n div p) c))"
    using assms by (rule prefix_take_drop)
  also have "drop (n mod p) (chunk p (n div p) c) = take (p - n mod p) (drop n c)"
    by (simp add: chunk_def drop_take drop_drop add.commute)
  finally show ?thesis using take_is_prefix prefix_order.trans by blast
qed

lemma prefix_drop_append:
  assumes "prefix a (drop n c)" "prefix b (drop (n + length a) c)"
  shows "prefix (a @ b) (drop n c)"
proof -
  obtain zs ys where zs: "drop n c = a @ zs" and ys: "drop (n + length a) c = b @ ys"
    using assms by (auto simp: prefix_def)
  have "drop (length a) (drop n c) = zs" by (simp add: zs)
  then have "zs = b @ ys" using ys by (simp add: add.commute)
  then show ?thesis using zs by simp
qed

lemma prefix_drop_eq: "prefix a (drop n c) \<Longrightarrow> a = take (length a) (drop n c)"
  by (auto simp: prefix_def)

end
