(* ===== verification/Go_Os.thy ===== *)
theory Go_Os
  imports Go_Prelude
begin

text \<open>
  The file-system side of the Go standard library that blobcache calls: lexical path processing
  (\<^verbatim>\<open>path/filepath\<close>: \<^verbatim>\<open>Clean\<close>, \<^verbatim>\<open>Join\<close>; \<^verbatim>\<open>path.Join\<close> is the same function on Unix) and the few \<^verbatim>\<open>os\<close>
  operations of the disk cache (\<^verbatim>\<open>Stat\<close>, \<^verbatim>\<open>MkdirAll\<close>, \<^verbatim>\<open>WriteFile\<close>, \<^verbatim>\<open>ReadFile\<close>) over a file system
  whose operations may fail, a write also half-way.
\<close>

subsection \<open>Lexical paths\<close>

definition rooted :: "string \<Rightarrow> bool" where
  "rooted p \<longleftrightarrow> (case p of [] \<Rightarrow> False | c # _ \<Rightarrow> c = CHR ''/'')"

text \<open>One element of a path against the elements kept so far (the kept elements in reverse order).\<close>

definition clean_step :: "bool \<Rightarrow> string list \<Rightarrow> string \<Rightarrow> string list" where
  "clean_step r st e =
     (if e = [] \<or> e = ''.'' then st
      else if e = ''..'' then
        (case st of [] \<Rightarrow> (if r then [] else [''..''])
         | t # rest \<Rightarrow> if t = ''..'' then ''..'' # st else rest)
      else e # st)"

definition elements :: "string \<Rightarrow> string list" where
  "elements p = rev (foldl (clean_step (rooted p)) [] (split_on CHR ''/'' p))"

definition render :: "bool \<Rightarrow> string list \<Rightarrow> string" where
  "render r es =
     (let body = join_with CHR ''/'' es
      in if r then CHR ''/'' # body else if body = [] then ''.'' else body)"

definition filepath_Clean :: "string \<Rightarrow> string" where
  "filepath_Clean p = render (rooted p) (elements p)"

fun filepath_Join :: "string list \<Rightarrow> string" where
  "filepath_Join [] = []"
| "filepath_Join (e # es) =
     (if e \<noteq> [] then filepath_Clean (join_with CHR ''/'' (e # es)) else filepath_Join es)"

declare filepath_Join.simps [simp del]

text \<open>A path element that stands for itself: one directory or file name.\<close>

definition plain_name :: "string \<Rightarrow> bool" where
  "plain_name e \<longleftrightarrow> e \<noteq> [] \<and> e \<noteq> ''.'' \<and> e \<noteq> ''..'' \<and> CHR ''/'' \<notin> set e"

subsection \<open>A file system that can fail\<close>

datatype fs_node = Dir | File bytes

text \<open>
  A fault at a path: opening or creating it fails, or a write stops after some bytes, leaving the
  file with that prefix (\<^verbatim>\<open>os.WriteFile\<close> documents that a failure mid-operation can leave the file
  partially written).
\<close>

datatype io_fault = OpenFails | WriteStops nat

record fs =
  fs_nodes :: "string \<Rightarrow> fs_node option"
  fs_fault :: "string \<Rightarrow> io_fault option"

definition os_Stat :: "fs \<Rightarrow> string \<Rightarrow> fs_node option" where
  "os_Stat f p = fs_nodes f p"

definition os_ReadFile :: "fs \<Rightarrow> string \<Rightarrow> bytes option" where
  "os_ReadFile f p =
     (case fs_nodes f p of
        Some (File b) \<Rightarrow> (if fs_fault f p = Some OpenFails then None else Some b)
      | _ \<Rightarrow> None)"

text \<open>\<^verbatim>\<open>os.Mkdir\<close> of the successive parents of a path; True is success.\<close>

fun mkdirs :: "fs \<Rightarrow> string list \<Rightarrow> fs \<times> bool" where
  "mkdirs f [] = (f, True)"
| "mkdirs f (p # ps) =
     (case fs_nodes f p of
        Some Dir \<Rightarrow> mkdirs f ps
      | Some (File _) \<Rightarrow> (f, False)
      | None \<Rightarrow> if fs_fault f p \<noteq> None then (f, False)
                else mkdirs (f\<lparr>fs_nodes := (fs_nodes f)(p \<mapsto> Dir)\<rparr>) ps)"

definition parents :: "string \<Rightarrow> string list" where
  "parents p = map (\<lambda>n. render (rooted p) (take (Suc n) (elements p))) [0..<length (elements p)]"

definition os_MkdirAll :: "fs \<Rightarrow> string \<Rightarrow> fs \<times> bool" where
  "os_MkdirAll f p = (if p = [] then (f, False) else mkdirs f (parents p))"

definition parent_dir :: "string \<Rightarrow> string" where
  "parent_dir p = render (rooted p) (butlast (elements p))"

definition os_WriteFile :: "fs \<Rightarrow> string \<Rightarrow> bytes \<Rightarrow> fs \<times> bool" where
  "os_WriteFile f p b =
     (if fs_nodes f (parent_dir p) \<noteq> Some Dir \<or> fs_nodes f p = Some Dir then (f, False)
      else case fs_fault f p of
             None \<Rightarrow> (f\<lparr>fs_nodes := (fs_nodes f)(p \<mapsto> File b)\<rparr>, True)
           | Some OpenFails \<Rightarrow> (f, False)
           | Some (WriteStops n) \<Rightarrow> (f\<lparr>fs_nodes := (fs_nodes f)(p \<mapsto> File (take n b))\<rparr>, False))"

subsection \<open>Lemmas: paths\<close>

lemma foldl_clean_plain:
  "\<forall>e \<in> set es. plain_name e \<Longrightarrow> foldl (clean_step r) st es = rev es @ st"
  by (induction es arbitrary: st) (auto simp: clean_step_def plain_name_def)

lemma rooted_append [simp]: "d \<noteq> [] \<Longrightarrow> rooted (d @ s) = rooted d"
  by (cases d) (auto simp: rooted_def)

lemma elements_append:
  assumes "d \<noteq> []" "es \<noteq> []" "\<forall>e \<in> set es. plain_name e"
  shows "elements (d @ CHR ''/'' # join_with CHR ''/'' es) = elements d @ es"
proof -
  have "split_on CHR ''/'' (join_with CHR ''/'' es) = es"
    using assms(2,3) by (intro split_join) (auto simp: plain_name_def)
  moreover have "rooted (d @ CHR ''/'' # join_with CHR ''/'' es) = rooted d"
    using assms(1) by simp
  ultimately show ?thesis
    using assms by (simp add: elements_def split_on_slash_append foldl_clean_plain)
qed

lemma join_with_Cons: "es \<noteq> [] \<Longrightarrow> join_with c (e # es) = e @ c # join_with c es"
  by (cases es) auto

text \<open>Joining plain names to a base appends them to its elements.\<close>

lemma Join_plain:
  assumes "d \<noteq> []" "es \<noteq> []" "\<forall>e \<in> set es. plain_name e"
  shows "filepath_Join (d # es) = render (rooted d) (elements d @ es)"
proof -
  have "filepath_Join (d # es) = filepath_Clean (d @ CHR ''/'' # join_with CHR ''/'' es)"
    using assms(1,2) by (simp add: filepath_Join.simps join_with_Cons)
  then show ?thesis
    using elements_append [OF assms] assms(1) by (simp add: filepath_Clean_def)
qed

text \<open>
  The elements \<^verbatim>\<open>Clean\<close> keeps: plain names after leading dot-dots, which a rooted path does not have.
\<close>

definition normal :: "bool \<Rightarrow> string list \<Rightarrow> bool" where
  "normal r es \<longleftrightarrow> (\<exists>n ps. es = replicate n ''..'' @ ps \<and> (\<forall>p \<in> set ps. plain_name p) \<and> (r \<longrightarrow> n = 0))"

lemma normal_Nil [simp]: "normal r []"
  by (auto simp: normal_def)

lemma normal_snoc: "normal r es \<Longrightarrow> plain_name e \<Longrightarrow> normal r (es @ [e])"
  unfolding normal_def by (metis append.assoc rotate1.simps(2) set_ConsD set_rotate1)

lemma normal_dotdot:
  assumes "normal r (rev st)"
  shows "normal r (rev (clean_step r st ''..''))"
proof -
  from assms obtain n ps where st: "rev st = replicate n ''..'' @ ps"
    and ps: "\<forall>p \<in> set ps. plain_name p" and r: "r \<longrightarrow> n = 0" by (auto simp: normal_def)
  have st': "st = rev ps @ replicate n ''..''"
    using arg_cong [OF st, of rev] by simp
  show ?thesis
  proof (cases "rev ps")
    case (Cons q qs)
    with ps have "q \<noteq> ''..''" and "\<forall>p \<in> set qs. plain_name p"
      by (metis list.set_intros(1) plain_name_def set_rev, metis list.set_intros(2) set_rev)
    then show ?thesis
      using st' Cons r by (auto simp: clean_step_def normal_def intro!: exI [of _ n] exI [of _ "rev qs"])
  next
    case Nil
    show ?thesis
    proof (cases n)
      case 0
      then show ?thesis using st' Nil by (auto simp: clean_step_def normal_def intro: exI [of _ 1])
    next
      case (Suc m)
      then have "clean_step r st ''..'' = replicate (Suc n) ''..''"
        using st' Nil by (simp add: clean_step_def)
      then have "rev (clean_step r st ''..'') = replicate (Suc n) ''..'' @ []"
        by (simp only: rev_replicate append_Nil2)
      moreover have "\<not> r" using Suc r by simp
      ultimately show ?thesis
        unfolding normal_def by (intro exI [of _ "Suc n"] exI [of _ "[]"]) (simp del: replicate_Suc)
    qed
  qed
qed

lemma normal_clean_step:
  assumes "normal r (rev st)" "CHR ''/'' \<notin> set e"
  shows "normal r (rev (clean_step r st e))"
proof -
  consider "e = [] \<or> e = ''.''" | "e = ''..''" | "plain_name e"
    using assms(2) by (auto simp: plain_name_def)
  then show ?thesis
  proof cases
    case 2
    then show ?thesis using normal_dotdot [OF assms(1)] by simp
  next
    case 3
    then have "clean_step r st e = e # st" by (simp add: clean_step_def plain_name_def)
    then show ?thesis using normal_snoc [OF assms(1) 3] by simp
  qed (use assms(1) in \<open>auto simp: clean_step_def\<close>)
qed

lemma normal_foldl:
  "normal r (rev st) \<Longrightarrow> \<forall>e \<in> set es. CHR ''/'' \<notin> set e
    \<Longrightarrow> normal r (rev (foldl (clean_step r) st es))"
  by (induction es arbitrary: st) (auto intro: normal_clean_step)

lemma normal_elements [simp]: "normal (rooted p) (elements p)"
  unfolding elements_def by (rule normal_foldl) (auto dest: split_on_parts)

lemma foldl_dotdots: "foldl (clean_step False) (replicate m ''..'') (replicate n ''..'') = replicate (m + n) ''..''"
proof (induction n arbitrary: m)
  case 0
  then show ?case by simp
next
  case (Suc n)
  have step: "clean_step False (replicate m ''..'') ''..'' = replicate (Suc m) ''..''"
    by (cases m) (auto simp: clean_step_def)
  have "foldl (clean_step False) (replicate m ''..'') (replicate (Suc n) ''..'')
      = foldl (clean_step False) (replicate (Suc m) ''..'') (replicate n ''..'')"
    by (simp only: replicate.simps(2) [of n] foldl.simps(2) step)
  then show ?case by (simp only: Suc.IH add_Suc_right add_Suc)
qed

lemma foldl_clean_normal: "normal r es \<Longrightarrow> foldl (clean_step r) [] es = rev es"
proof -
  assume "normal r es"
  then obtain n ps where es: "es = replicate n ''..'' @ ps"
    and ps: "\<forall>p \<in> set ps. plain_name p" and r: "r \<longrightarrow> n = 0" by (auto simp: normal_def)
  have "foldl (clean_step r) [] (replicate n ''..'') = replicate n ''..''"
  proof (cases r)
    case True
    with r show ?thesis by simp
  next
    case False
    then show ?thesis using foldl_dotdots [of 0 n] by (simp only: replicate_0 add_0)
  qed
  then show ?thesis using es ps by (simp add: foldl_clean_plain)
qed

lemma normal_slash_free:
  assumes "normal r es" "e \<in> set es"
  shows "CHR ''/'' \<notin> set e \<and> e \<noteq> []"
proof -
  from assms(1) obtain n ps where "es = replicate n ''..'' @ ps"
    and ps: "\<forall>p \<in> set ps. plain_name p" unfolding normal_def by blast
  with assms(2) have "e \<in> set (replicate n ''..'') \<or> e \<in> set ps" by (simp only: set_append Un_iff)
  then consider "e = ''..''" | "plain_name e" using ps by (metis in_set_replicate)
  then show ?thesis by cases (simp_all add: plain_name_def)
qed

lemma join_with_nonempty: "es \<noteq> [] \<Longrightarrow> \<forall>e \<in> set es. e \<noteq> [] \<Longrightarrow> join_with c es \<noteq> []"
  by (induction c es rule: join_with.induct) auto

lemma hd_join_with: "es \<noteq> [] \<Longrightarrow> hd es \<noteq> [] \<Longrightarrow> hd (join_with c es) = hd (hd es)"
  by (induction c es rule: join_with.induct) auto

text \<open>Rendering and reading back a normal element list.\<close>

lemma join_normal:
  assumes "normal r es" "es \<noteq> []"
  shows "join_with CHR ''/'' es \<noteq> []" "hd (join_with CHR ''/'' es) \<noteq> CHR ''/''"
proof -
  have ne: "\<forall>e \<in> set es. e \<noteq> [] \<and> CHR ''/'' \<notin> set e"
    using normal_slash_free [OF assms(1)] by blast
  then show "join_with CHR ''/'' es \<noteq> []" using assms(2) by (intro join_with_nonempty) auto
  from ne assms(2) have "hd es \<noteq> []" "CHR ''/'' \<notin> set (hd es)" by auto
  then show "hd (join_with CHR ''/'' es) \<noteq> CHR ''/''"
    using assms(2) by (metis hd_in_set hd_join_with)
qed

lemma rooted_render: "normal r es \<Longrightarrow> es \<noteq> [] \<Longrightarrow> rooted (render r es) = r"
  using join_normal [of r es] by (auto simp: render_def rooted_def Let_def split: list.splits)

lemma render_nonempty [simp]: "render r es \<noteq> []"
  by (simp add: render_def Let_def)

lemma elements_render:
  assumes "normal r es" "es \<noteq> []"
  shows "elements (render r es) = es"
proof -
  have sp: "split_on CHR ''/'' (join_with CHR ''/'' es) = es"
    using normal_slash_free [OF assms(1)] assms(2) by (intro split_join) blast+
  have "rev (foldl (clean_step r) [] (split_on CHR ''/'' (render r es))) = es"
    using join_normal [OF assms] foldl_clean_normal [OF assms(1)]
    by (auto simp: render_def Let_def sp clean_step_def)
  then show ?thesis by (simp add: elements_def rooted_render [OF assms])
qed

lemma render_inj:
  assumes "render r es = render r es'" "normal r es" "es \<noteq> []" "normal r es'" "es' \<noteq> []"
  shows "es = es'"
  using arg_cong [OF assms(1), of elements] elements_render [OF assms(2,3)] elements_render [OF assms(4,5)]
  by simp

lemma normal_append:
  assumes "normal r es" "\<forall>p \<in> set ps. plain_name p"
  shows "normal r (es @ ps)"
proof -
  from assms(1) obtain n qs where "es = replicate n ''..'' @ qs"
    and "\<forall>p \<in> set qs. plain_name p" "r \<longrightarrow> n = 0" unfolding normal_def by blast
  then show ?thesis
    unfolding normal_def using assms(2) by (intro exI [of _ n] exI [of _ "qs @ ps"]) auto
qed

subsection \<open>Lemmas: the file system\<close>

lemma mkdirs_preserves_files:
  "mkdirs f ps = (f', ok) \<Longrightarrow> fs_nodes f p = Some n \<Longrightarrow> fs_nodes f' p = Some n"
proof (induction f ps rule: mkdirs.induct)
  case (2 f q ps)
  show ?case
  proof (cases "fs_nodes f q")
    case None
    with 2 show ?thesis by (cases "p = q") (auto split: if_splits)
  next
    case (Some m)
    with 2 show ?thesis by (cases m) auto
  qed
qed simp

lemma mkdirs_files:
  "mkdirs f ps = (f', ok) \<Longrightarrow> fs_nodes f' p = Some (File b) \<longleftrightarrow> fs_nodes f p = Some (File b)"
proof (induction f ps rule: mkdirs.induct)
  case (2 f q ps)
  show ?case
  proof (cases "fs_nodes f q")
    case None
    with 2 show ?thesis by (cases "p = q") (auto split: if_splits)
  next
    case (Some m)
    with 2 show ?thesis by (cases m) auto
  qed
qed simp

lemma mkdirs_fault: "mkdirs f ps = (f', ok) \<Longrightarrow> fs_fault f' = fs_fault f"
  by (induction f ps rule: mkdirs.induct) (auto split: option.splits fs_node.splits if_splits)

lemma mkdirs_dirs: "mkdirs f ps = (f', True) \<Longrightarrow> p \<in> set ps \<Longrightarrow> fs_nodes f' p = Some Dir"
proof (induction f ps rule: mkdirs.induct)
  case (2 f q ps)
  then show ?case
    by (auto split: option.splits fs_node.splits if_splits intro: mkdirs_preserves_files)
qed simp

lemma WriteFile_nodes:
  assumes "os_WriteFile f p b = (f', ok)" "fs_nodes f' q = Some n" "q \<noteq> p"
  shows "fs_nodes f q = Some n"
  using assms by (auto simp: os_WriteFile_def split: if_splits option.splits io_fault.splits)

lemma WriteFile_keeps:
  assumes "os_WriteFile f p b = (f', ok)" "q \<noteq> p"
  shows "fs_nodes f' q = fs_nodes f q"
  using assms by (auto simp: os_WriteFile_def split: if_splits option.splits io_fault.splits)

lemma WriteFile_target:
  assumes "os_WriteFile f p b = (f', ok)" "fs_nodes f' p = Some (File b')"
  shows "fs_nodes f p = Some (File b') \<or> prefix b' b"
  using assms by (auto simp: os_WriteFile_def take_is_prefix split: if_splits option.splits io_fault.splits)

lemma WriteFile_ok: "os_WriteFile f p b = (f', True) \<Longrightarrow> fs_nodes f' p = Some (File b)"
  by (auto simp: os_WriteFile_def split: if_splits option.splits io_fault.splits)

lemma WriteFile_fault: "os_WriteFile f p b = (f', ok) \<Longrightarrow> fs_fault f' = fs_fault f"
  by (auto simp: os_WriteFile_def split: if_splits option.splits io_fault.splits)

end
