(* ===== verification/Blob_Types.thy ===== *)
theory Blob_Types
  imports Go_Prelude Complex_Main
begin

text \<open>
  The data of \<^verbatim>\<open>src/pkg/types.go\<close> (configuration, cache hosts, file-system metadata, client requests) and
  the protobuf messages of \<^verbatim>\<open>src/proto/blobcache.pb.go\<close> they are converted to and from. A struct is a
  record; a message pointer that may be nil is an option; the recursive server configuration is a
  datatype with the struct's fields as selectors. Go's \<^verbatim>\<open>float64\<close> percentages are rationals, and the
  narrowing to \<^verbatim>\<open>float32\<close> is the argument \<open>f32\<close> of the conversions that use it.
\<close>

subsection \<open>Constants\<close>

definition BlobCacheHostPrefix :: string where "BlobCacheHostPrefix = ''blobcache-host''"
definition BlobCacheVersion :: string where "BlobCacheVersion = ''dev''"
definition defaultHostKeepAliveIntervalS :: int where "defaultHostKeepAliveIntervalS = 10"
definition defaultHostKeepAliveTimeoutS :: int where "defaultHostKeepAliveTimeoutS = 60"
definition BlobCacheServerModeCoordinator :: string where
  "BlobCacheServerModeCoordinator = ''coordinator''"
definition BlobCacheServerModeSlave :: string where "BlobCacheServerModeSlave = ''slave''"
definition SourceModeJuiceFS :: string where "SourceModeJuiceFS = ''juicefs''"
definition SourceModeMountPoint :: string where "SourceModeMountPoint = ''mountpoint''"
definition RedisModeSingle :: string where "RedisModeSingle = ''single''"
definition RedisModeCluster :: string where "RedisModeCluster = ''cluster''"
definition RedisModeSentinel :: string where "RedisModeSentinel = ''sentinel''"

lemmas blob_constants = BlobCacheHostPrefix_def BlobCacheVersion_def BlobCacheServerModeCoordinator_def
  BlobCacheServerModeSlave_def SourceModeJuiceFS_def SourceModeMountPoint_def RedisModeSingle_def
  RedisModeCluster_def RedisModeSentinel_def

subsection \<open>Configuration\<close>

record BlobCacheMetricsConfig =
  mc_PushIntervalS :: int
  mc_URL :: string
  mc_Username :: string
  mc_Password :: string

record BlobCacheGlobalConfig =
  gc_DefaultLocality :: string
  gc_CoordinatorHost :: string
  gc_ServerPort :: nat
  gc_DiscoveryIntervalS :: int
  gc_RoundTripThresholdMilliseconds :: nat
  gc_HostStorageCapacityThresholdPct :: rat
  gc_GRPCDialTimeoutS :: int
  gc_GRPCMessageSizeBytes :: int
  gc_GRPCInitialWindowSize :: int
  gc_GRPCInitialConnWindowSize :: int
  gc_GRPCWriteBufferSize :: int
  gc_GRPCReadBufferSize :: int
  gc_GRPCMaxConcurrentStreams :: int
  gc_GRPCNumStreamWorkers :: int
  gc_DebugMode :: bool
  gc_PrettyLogs :: bool

text \<open>\<^verbatim>\<open>GetLocality\<close>: the environment variable, when set, wins over the configuration.\<close>

definition GetLocality :: "(string \<Rightarrow> string) \<Rightarrow> BlobCacheGlobalConfig \<Rightarrow> string" where
  "GetLocality getenv c =
     (let locality = getenv ''BLOBCACHE_LOCALITY''
      in if locality \<noteq> '''' then locality else gc_DefaultLocality c)"

record JuiceFSConfig =
  jf_RedisURI :: string
  jf_Bucket :: string
  jf_AccessKey :: string
  jf_SecretKey :: string
  jf_CacheSize :: int
  jf_BlockSize :: int
  jf_Prefetch :: int
  jf_BufferSize :: int

record MountPointConfig =
  mp_BucketName :: string
  mp_AccessKey :: string
  mp_SecretKey :: string
  mp_Region :: string
  mp_EndpointURL :: string
  mp_ForcePathStyle :: bool

record SourceConfig =
  so_Mode :: string
  so_FilesystemName :: string
  so_FilesystemPath :: string
  so_JuiceFS :: JuiceFSConfig
  so_MountPoint :: MountPointConfig

record ValkeyExistingPrimary =
  vp_Host :: string
  vp_Port :: int

record ValkeyConfig =
  vk_PrimaryName :: string
  vk_Password :: string
  vk_TLS :: bool
  vk_Host :: string
  vk_Port :: int
  vk_ExistingPrimary :: ValkeyExistingPrimary

record MetadataConfig =
  me_Mode :: string
  me_ValkeyConfig :: ValkeyConfig
  me_RedisAddr :: string
  me_RedisPasswd :: string
  me_RedisTLSEnabled :: bool
  me_RedisMode :: string
  me_RedisMasterName :: string

datatype BlobCacheServerConfig =
  ServerConfig
    (sc_Mode: string)
    (sc_DiskCacheDir: string)
    (sc_DiskCacheMaxUsagePct: rat)
    (sc_EnableMemoryCache: bool)
    (sc_Token: string)
    (sc_PrettyLogs: bool)
    (sc_ObjectTtlS: int)
    (sc_MaxCachePct: int)
    (sc_PageSizeBytes: int)
    (sc_Metadata: MetadataConfig)
    (sc_Sources: "SourceConfig list")
    (sc_S3DownloadConcurrency: int)
    (sc_S3DownloadChunkSize: int)
    (sc_Regions: "(string \<times> RegionConfig) list")
and RegionConfig = RegionConfig (rc_ServerConfig: BlobCacheServerConfig)

record BlobFsConfig =
  bf_Enabled :: bool
  bf_MountPoint :: string
  bf_MaxBackgroundTasks :: int
  bf_MaxWriteKB :: int
  bf_MaxReadAheadKB :: int
  bf_DirectMount :: bool
  bf_DirectIO :: bool
  bf_Options :: "string list"

record BlobCacheClientConfig =
  cc_Token :: string
  cc_MinRetryLengthBytes :: int
  cc_MaxGetContentAttempts :: int
  cc_NTopHosts :: int
  cc_BlobFs :: BlobFsConfig

record BlobCacheConfig =
  cfg_Server :: BlobCacheServerConfig
  cfg_Client :: BlobCacheClientConfig
  cfg_Global :: BlobCacheGlobalConfig
  cfg_Metrics :: BlobCacheMetricsConfig

text \<open>The zero values Go gives to fields a struct literal leaves out.\<close>

definition zero_MetadataConfig :: MetadataConfig where
  "zero_MetadataConfig =
     \<lparr>me_Mode = '''',
      me_ValkeyConfig = \<lparr>vk_PrimaryName = '''', vk_Password = '''', vk_TLS = False, vk_Host = '''',
        vk_Port = 0, vk_ExistingPrimary = \<lparr>vp_Host = '''', vp_Port = 0\<rparr>\<rparr>,
      me_RedisAddr = '''', me_RedisPasswd = '''', me_RedisTLSEnabled = False, me_RedisMode = '''',
      me_RedisMasterName = ''''\<rparr>"

definition zero_JuiceFS :: JuiceFSConfig where
  "zero_JuiceFS = \<lparr>jf_RedisURI = '''', jf_Bucket = '''', jf_AccessKey = '''', jf_SecretKey = '''',
     jf_CacheSize = 0, jf_BlockSize = 0, jf_Prefetch = 0, jf_BufferSize = 0\<rparr>"

definition zero_MountPoint :: MountPointConfig where
  "zero_MountPoint = \<lparr>mp_BucketName = '''', mp_AccessKey = '''', mp_SecretKey = '''', mp_Region = '''',
     mp_EndpointURL = '''', mp_ForcePathStyle = False\<rparr>"

subsection \<open>Configuration messages\<close>

record pb_JuiceFSConfig =
  pj_RedisUri :: string
  pj_Bucket :: string
  pj_AccessKey :: string
  pj_SecretKey :: string

record pb_MountPointConfig =
  pm_BucketName :: string
  pm_AccessKey :: string
  pm_SecretKey :: string
  pm_Region :: string
  pm_EndpointUrl :: string
  pm_ForcePathStyle :: bool

record pb_SourceConfig =
  ps_Mode :: string
  ps_FilesystemName :: string
  ps_FilesystemPath :: string
  ps_Juicefs :: "pb_JuiceFSConfig option"
  ps_Mountpoint :: "pb_MountPointConfig option"

record pb_BlobCacheServerConfig =
  pc_Mode :: string
  pc_DiskCacheDir :: string
  pc_DiskCacheMaxUsagePct :: rat
  pc_MaxCachePct :: int
  pc_PageSizeBytes :: int
  pc_ObjectTtlS :: int
  pc_PrettyLogs :: bool
  pc_Token :: string
  pc_S3DownloadConcurrency :: int
  pc_S3DownloadChunkSize :: int
  pc_Sources :: "pb_SourceConfig list"

definition source_ToProto :: "SourceConfig \<Rightarrow> pb_SourceConfig" where
  "source_ToProto s =
     (let base = \<lparr>ps_Mode = so_Mode s, ps_FilesystemName = so_FilesystemName s,
                  ps_FilesystemPath = so_FilesystemPath s, ps_Juicefs = None, ps_Mountpoint = None\<rparr>
      in if so_Mode s = SourceModeMountPoint then
           base\<lparr>ps_Mountpoint := Some
             \<lparr>pm_BucketName = mp_BucketName (so_MountPoint s), pm_AccessKey = mp_AccessKey (so_MountPoint s),
              pm_SecretKey = mp_SecretKey (so_MountPoint s), pm_Region = mp_Region (so_MountPoint s),
              pm_EndpointUrl = mp_EndpointURL (so_MountPoint s),
              pm_ForcePathStyle = mp_ForcePathStyle (so_MountPoint s)\<rparr>\<rparr>
         else if so_Mode s = SourceModeJuiceFS then
           base\<lparr>ps_Juicefs := Some
             \<lparr>pj_RedisUri = jf_RedisURI (so_JuiceFS s), pj_Bucket = jf_Bucket (so_JuiceFS s),
              pj_AccessKey = jf_AccessKey (so_JuiceFS s), pj_SecretKey = jf_SecretKey (so_JuiceFS s)\<rparr>\<rparr>
         else base)"

definition ServerConfig_ToProto :: "(rat \<Rightarrow> rat) \<Rightarrow> BlobCacheServerConfig \<Rightarrow> pb_BlobCacheServerConfig" where
  "ServerConfig_ToProto f32 c =
     \<lparr>pc_Mode = sc_Mode c, pc_DiskCacheDir = sc_DiskCacheDir c,
      pc_DiskCacheMaxUsagePct = f32 (sc_DiskCacheMaxUsagePct c), pc_MaxCachePct = sc_MaxCachePct c,
      pc_PageSizeBytes = sc_PageSizeBytes c, pc_ObjectTtlS = sc_ObjectTtlS c,
      pc_PrettyLogs = sc_PrettyLogs c, pc_Token = sc_Token c,
      pc_S3DownloadConcurrency = sc_S3DownloadConcurrency c,
      pc_S3DownloadChunkSize = sc_S3DownloadChunkSize c,
      pc_Sources = map source_ToProto (sc_Sources c)\<rparr>"

text \<open>
  The reverse conversion dereferences the sub-message of the source's mode: a nil pointer there is a
  panic.
\<close>

definition source_FromProto :: "pb_SourceConfig \<Rightarrow> SourceConfig res" where
  "source_FromProto p =
     (let base = \<lparr>so_Mode = ps_Mode p, so_FilesystemName = ps_FilesystemName p,
                  so_FilesystemPath = ps_FilesystemPath p, so_JuiceFS = zero_JuiceFS,
                  so_MountPoint = zero_MountPoint\<rparr>
      in if ps_Mode p = SourceModeMountPoint then
           (case ps_Mountpoint p of None \<Rightarrow> Panic
            | Some m \<Rightarrow> Ok (base\<lparr>so_MountPoint :=
                \<lparr>mp_BucketName = pm_BucketName m, mp_AccessKey = pm_AccessKey m,
                 mp_SecretKey = pm_SecretKey m, mp_Region = pm_Region m,
                 mp_EndpointURL = pm_EndpointUrl m, mp_ForcePathStyle = pm_ForcePathStyle m\<rparr>\<rparr>))
         else if ps_Mode p = SourceModeJuiceFS then
           (case ps_Juicefs p of None \<Rightarrow> Panic
            | Some j \<Rightarrow> Ok (base\<lparr>so_JuiceFS :=
                zero_JuiceFS\<lparr>jf_RedisURI := pj_RedisUri j, jf_Bucket := pj_Bucket j,
                  jf_AccessKey := pj_AccessKey j, jf_SecretKey := pj_SecretKey j\<rparr>\<rparr>))
         else Ok base)"

fun sources_FromProto :: "pb_SourceConfig list \<Rightarrow> SourceConfig list res" where
  "sources_FromProto [] = Ok []"
| "sources_FromProto (p # ps) =
     (case source_FromProto p of
        Ok s \<Rightarrow> (case sources_FromProto ps of Ok ss \<Rightarrow> Ok (s # ss) | Err e \<Rightarrow> Err e | Panic \<Rightarrow> Panic)
      | Err e \<Rightarrow> Err e
      | Panic \<Rightarrow> Panic)"

definition BlobCacheServerConfigFromProto :: "pb_BlobCacheServerConfig \<Rightarrow> BlobCacheServerConfig res" where
  "BlobCacheServerConfigFromProto p =
     (case sources_FromProto (pc_Sources p) of
        Ok ss \<Rightarrow> Ok (ServerConfig (pc_Mode p) (pc_DiskCacheDir p) (pc_DiskCacheMaxUsagePct p) False
                    (pc_Token p) (pc_PrettyLogs p) (pc_ObjectTtlS p) (pc_MaxCachePct p)
                    (pc_PageSizeBytes p) zero_MetadataConfig ss (pc_S3DownloadConcurrency p)
                    (pc_S3DownloadChunkSize p) [])
      | Err e \<Rightarrow> Err e
      | Panic \<Rightarrow> Panic)"

subsection \<open>File-system metadata\<close>

record BlobFsMetadata =
  md_PID :: string
  md_ID :: string
  md_Name :: string
  md_Path :: string
  md_Hash :: string
  md_Ino :: u64
  md_Size :: u64
  md_Blocks :: u64
  md_Atime :: u64
  md_Mtime :: u64
  md_Ctime :: u64
  md_Atimensec :: u32
  md_Mtimensec :: u32
  md_Ctimensec :: u32
  md_Mode :: u32
  md_Nlink :: u32
  md_Rdev :: u32
  md_Blksize :: u32
  md_Padding :: u32
  md_Uid :: u32
  md_Gid :: u32
  md_Gen :: u64

definition zero_BlobFsMetadata :: BlobFsMetadata where
  "zero_BlobFsMetadata =
     \<lparr>md_PID = '''', md_ID = '''', md_Name = '''', md_Path = '''', md_Hash = '''', md_Ino = 0, md_Size = 0,
      md_Blocks = 0, md_Atime = 0, md_Mtime = 0, md_Ctime = 0, md_Atimensec = 0, md_Mtimensec = 0,
      md_Ctimensec = 0, md_Mode = 0, md_Nlink = 0, md_Rdev = 0, md_Blksize = 0, md_Padding = 0,
      md_Uid = 0, md_Gid = 0, md_Gen = 0\<rparr>"

record pb_BlobFsMetadata =
  pf_Pid :: string
  pf_Id :: string
  pf_Name :: string
  pf_Path :: string
  pf_Hash :: string
  pf_Ino :: u64
  pf_Size :: u64
  pf_Blocks :: u64
  pf_Atime :: u64
  pf_Mtime :: u64
  pf_Ctime :: u64
  pf_Atimensec :: u32
  pf_Mtimensec :: u32
  pf_Ctimensec :: u32
  pf_Mode :: u32
  pf_Nlink :: u32
  pf_Rdev :: u32
  pf_Blksize :: u32
  pf_Padding :: u32
  pf_Uid :: u32
  pf_Gid :: u32
  pf_Gen :: u64

text \<open>\<^verbatim>\<open>ToProto\<close>: the literal does not set \<^verbatim>\<open>Ino\<close>, so the message carries its zero value.\<close>

definition meta_ToProto :: "BlobFsMetadata \<Rightarrow> pb_BlobFsMetadata" where
  "meta_ToProto m =
     \<lparr>pf_Pid = md_PID m, pf_Id = md_ID m, pf_Name = md_Name m, pf_Path = md_Path m, pf_Hash = md_Hash m,
      pf_Ino = 0, pf_Size = md_Size m, pf_Blocks = md_Blocks m, pf_Atime = md_Atime m,
      pf_Mtime = md_Mtime m, pf_Ctime = md_Ctime m, pf_Atimensec = md_Atimensec m,
      pf_Mtimensec = md_Mtimensec m, pf_Ctimensec = md_Ctimensec m, pf_Mode = md_Mode m,
      pf_Nlink = md_Nlink m, pf_Rdev = md_Rdev m, pf_Blksize = md_Blksize m, pf_Padding = md_Padding m,
      pf_Uid = md_Uid m, pf_Gid = md_Gid m, pf_Gen = md_Gen m\<rparr>"

subsection \<open>Hosts and client requests\<close>

record BlobCacheHost =
  RTT :: int
  HostId :: string
  Addr :: string
  PrivateAddr :: string
  CapacityUsagePct :: rat

record pb_BlobCacheHost =
  ph_HostId :: string
  ph_Addr :: string
  ph_PrivateIpAddr :: string
  ph_CapacityUsagePct :: rat

definition host_Bytes :: "BlobCacheHost \<Rightarrow> string" where
  "host_Bytes h = HostId h"

definition host_ToProto :: "(rat \<Rightarrow> rat) \<Rightarrow> BlobCacheHost \<Rightarrow> pb_BlobCacheHost" where
  "host_ToProto f32 h =
     \<lparr>ph_HostId = HostId h, ph_Addr = Addr h, ph_PrivateIpAddr = PrivateAddr h,
      ph_CapacityUsagePct = f32 (CapacityUsagePct h)\<rparr>"

datatype ClientRequestType = ClientRequestTypeStorage | ClientRequestTypeRetrieval

record ClientRequest =
  rt :: ClientRequestType
  cr_hash :: string
  cr_key :: string
  hostIndex :: int

subsection \<open>Lemmas: configuration round trip\<close>

text \<open>
  What a slave server can learn from its coordinator: the fields of the message. The rest of the
  configuration (the metadata store, the memory-cache switch, the JuiceFS tuning, nested regions, the
  sub-configuration of a mode that is not the source's) comes back as zero values.
\<close>

definition source_wire :: "SourceConfig \<Rightarrow> SourceConfig" where
  "source_wire s =
     s\<lparr>so_JuiceFS := (if so_Mode s = SourceModeJuiceFS then
          zero_JuiceFS\<lparr>jf_RedisURI := jf_RedisURI (so_JuiceFS s), jf_Bucket := jf_Bucket (so_JuiceFS s),
            jf_AccessKey := jf_AccessKey (so_JuiceFS s), jf_SecretKey := jf_SecretKey (so_JuiceFS s)\<rparr>
        else zero_JuiceFS),
       so_MountPoint := (if so_Mode s = SourceModeMountPoint then so_MountPoint s else zero_MountPoint)\<rparr>"

lemma source_roundtrip: "source_FromProto (source_ToProto s) = Ok (source_wire s)"
  by (cases s) (simp add: source_FromProto_def source_ToProto_def source_wire_def Let_def
      SourceModeMountPoint_def SourceModeJuiceFS_def)

lemma sources_roundtrip: "sources_FromProto (map source_ToProto ss) = Ok (map source_wire ss)"
  by (induction ss) (simp_all add: source_roundtrip)

text \<open>
  A server configuration sent to a slave as a protobuf message and converted back never panics,
  and agrees with the original on every field the message carries (the usage limit rounded to
  \<^verbatim>\<open>float32\<close>, each source reduced to the sub-configuration of its own mode); every other field is the
  zero value.
\<close>

lemma ServerConfig_roundtrip:
  "BlobCacheServerConfigFromProto (ServerConfig_ToProto f32 c) =
     Ok (ServerConfig (sc_Mode c) (sc_DiskCacheDir c) (f32 (sc_DiskCacheMaxUsagePct c)) False (sc_Token c)
           (sc_PrettyLogs c) (sc_ObjectTtlS c) (sc_MaxCachePct c) (sc_PageSizeBytes c) zero_MetadataConfig
           (map source_wire (sc_Sources c)) (sc_S3DownloadConcurrency c) (sc_S3DownloadChunkSize c) [])"
  by (simp add: BlobCacheServerConfigFromProto_def ServerConfig_ToProto_def sources_roundtrip)

end
