(* ===== verification/Buffer_Pool.thy ===== *)
theory Buffer_Pool
  imports Go_Prelude
begin

text \<open>
  \<^verbatim>\<open>src/pkg/buffer_pool.go\<close>: pools of reusable byte slices in three size classes. A slice is its
  backing array (from the slice's first byte to its capacity) and its length. \<^verbatim>\<open>sync.Pool.Get\<close> selects
  an arbitrary pooled item or allocates a new one; the argument \<open>pick\<close> is that choice.
\<close>

record gslice =
  sl_arr :: bytes
  sl_len :: nat

definition sl_cap :: "gslice \<Rightarrow> nat" where
  "sl_cap s = length (sl_arr s)"

text \<open>\<^verbatim>\<open>make([]byte, n)\<close> and the re-slice \<^verbatim>\<open>s[:n]\<close>, which panics unless \<open>0 \<le> n \<le> cap(s)\<close>.\<close>

definition make_slice :: "int \<Rightarrow> gslice res" where
  "make_slice n = (if n < 0 then Panic else Ok \<lparr>sl_arr = replicate (nat n) 0, sl_len = nat n\<rparr>)"

definition reslice :: "gslice \<Rightarrow> int \<Rightarrow> gslice res" where
  "reslice s n = (if 0 \<le> n \<and> n \<le> int (sl_cap s) then Ok (s\<lparr>sl_len := nat n\<rparr>) else Panic)"

record BufferPool =
  pools :: "int \<Rightarrow> gslice list option"

definition BufferSize1MB :: int where "BufferSize1MB = 1 * 1024 * 1024"
definition BufferSize4MB :: int where "BufferSize4MB = 4 * 1024 * 1024"
definition BufferSize16MB :: int where "BufferSize16MB = 16 * 1024 * 1024"

lemmas buffer_sizes = BufferSize1MB_def BufferSize4MB_def BufferSize16MB_def

definition NewBufferPool :: BufferPool where
  "NewBufferPool =
     \<lparr>pools = foldl (\<lambda>m sz. m(sz \<mapsto> [])) Map.empty [BufferSize1MB, BufferSize4MB, BufferSize16MB]\<rparr>"

definition selectPoolSize :: "int \<Rightarrow> int" where
  "selectPoolSize sz =
     (if sz \<le> BufferSize1MB then BufferSize1MB
      else if sz \<le> BufferSize4MB then BufferSize4MB
      else BufferSize16MB)"

definition pool_take :: "(gslice list \<Rightarrow> nat option) \<Rightarrow> int \<Rightarrow> gslice list \<Rightarrow> gslice list \<times> gslice" where
  "pool_take pick sz p =
     (case pick p of
        Some i \<Rightarrow> if i < length p then (take i p @ drop (Suc i) p, p ! i)
                  else (p, \<lparr>sl_arr = replicate (nat sz) 0, sl_len = nat sz\<rparr>)
      | None \<Rightarrow> (p, \<lparr>sl_arr = replicate (nat sz) 0, sl_len = nat sz\<rparr>))"

definition bp_Get :: "(gslice list \<Rightarrow> nat option) \<Rightarrow> BufferPool \<Rightarrow> int \<Rightarrow> BufferPool \<times> gslice res" where
  "bp_Get pick bp sz =
     (let poolSize = selectPoolSize sz
      in case pools bp poolSize of
           Some p \<Rightarrow>
             (let (p', buf) = pool_take pick poolSize p
              in (bp\<lparr>pools := (pools bp)(poolSize \<mapsto> p')\<rparr>, reslice buf sz))
         | None \<Rightarrow> (bp, make_slice sz))"

definition bp_Put :: "BufferPool \<Rightarrow> gslice option \<Rightarrow> BufferPool" where
  "bp_Put bp buf =
     (case buf of
        None \<Rightarrow> bp
      | Some b \<Rightarrow>
          (let capacity = int (sl_cap b)
           in case pools bp capacity of
                Some p \<Rightarrow> bp\<lparr>pools := (pools bp)(capacity \<mapsto> b\<lparr>sl_len := sl_cap b\<rparr> # p)\<rparr>
              | None \<Rightarrow> bp))"

subsection \<open>The invariant: a pool holds only full buffers of its own size\<close>

definition full_buf :: "int \<Rightarrow> gslice \<Rightarrow> bool" where
  "full_buf sz b \<longleftrightarrow> int (sl_cap b) = sz \<and> sl_len b = sl_cap b"

definition pool_wf :: "BufferPool \<Rightarrow> bool" where
  "pool_wf bp \<longleftrightarrow>
     dom (pools bp) = {BufferSize1MB, BufferSize4MB, BufferSize16MB} \<and>
     (\<forall>sz p. pools bp sz = Some p \<longrightarrow> list_all (full_buf sz) p)"

lemma pool_wf_new: "pool_wf NewBufferPool"
  unfolding pool_wf_def NewBufferPool_def by (simp add: insert_commute)

lemma pool_take_spec:
  assumes "pool_take pick sz p = (p', b)" "list_all (full_buf sz) p" "0 \<le> sz"
  shows "full_buf sz b" and "list_all (full_buf sz) p'"
proof -
  have new: "full_buf sz \<lparr>sl_arr = replicate (nat sz) 0, sl_len = nat sz\<rparr>"
    using assms(3) by (simp add: full_buf_def sl_cap_def)
  have "list_all (full_buf sz) (take i p @ drop (Suc i) p)" for i
    using assms(2) by (auto simp: list_all_iff dest: in_set_takeD in_set_dropD)
  moreover have "i < length p \<Longrightarrow> full_buf sz (p ! i)" for i
    using assms(2) by (simp add: list_all_length)
  ultimately show "full_buf sz b" and "list_all (full_buf sz) p'"
    using assms(1,2) new by (auto simp: pool_take_def split: option.splits if_splits)
qed

lemma selectPoolSize_dom: "pool_wf bp \<Longrightarrow> \<exists>p. pools bp (selectPoolSize sz) = Some p"
proof -
  assume "pool_wf bp"
  then have "selectPoolSize sz \<in> dom (pools bp)" by (simp add: pool_wf_def selectPoolSize_def)
  then show ?thesis by blast
qed

lemma selectPoolSize_pos: "0 \<le> selectPoolSize sz"
  by (simp add: selectPoolSize_def buffer_sizes)

lemma pool_wf_upd:
  assumes "pool_wf bp" "sz \<in> dom (pools bp)" "list_all (full_buf sz) p"
  shows "pool_wf (bp\<lparr>pools := (pools bp)(sz \<mapsto> p)\<rparr>)"
  using assms by (auto simp: pool_wf_def insert_absorb)

lemma bp_Get_unfold:
  assumes "pool_wf bp" "bp_Get pick bp sz = (bp', r)"
  obtains buf where "pool_wf bp'" "int (sl_cap buf) = selectPoolSize sz" "r = reslice buf sz"
proof -
  obtain p where p: "pools bp (selectPoolSize sz) = Some p"
    using selectPoolSize_dom [OF assms(1)] by blast
  obtain p' buf where t: "pool_take pick (selectPoolSize sz) p = (p', buf)"
    by (rule prod.exhaust)
  have all: "list_all (full_buf (selectPoolSize sz)) p"
    using assms(1) p by (simp add: pool_wf_def)
  note s = pool_take_spec [OF t all selectPoolSize_pos]
  have bp': "bp' = bp\<lparr>pools := (pools bp)(selectPoolSize sz \<mapsto> p')\<rparr>" and r: "r = reslice buf sz"
    using assms(2) by (simp_all add: bp_Get_def p t Let_def)
  have "pool_wf bp'" unfolding bp' using assms(1) s(2) p by (intro pool_wf_upd) auto
  then show ?thesis using that [of buf] s(1) r by (simp add: full_buf_def)
qed

lemma bp_Put_wf:
  assumes "pool_wf bp"
  shows "pool_wf (bp_Put bp buf)"
proof (cases buf)
  case None
  with assms show ?thesis by (simp add: bp_Put_def)
next
  case (Some b)
  show ?thesis
  proof (cases "pools bp (int (sl_cap b))")
    case None
    with Some assms show ?thesis by (simp add: bp_Put_def)
  next
    case p: (Some p)
    have "list_all (full_buf (int (sl_cap b))) (b\<lparr>sl_len := sl_cap b\<rparr> # p)"
      using assms p by (simp add: pool_wf_def full_buf_def sl_cap_def)
    then have "pool_wf (bp\<lparr>pools := (pools bp)(int (sl_cap b) \<mapsto> b\<lparr>sl_len := sl_cap b\<rparr> # p)\<rparr>)"
      using assms p by (intro pool_wf_upd) auto
    with Some p show ?thesis by (simp add: bp_Put_def Let_def)
  qed
qed

text \<open>
  C25: From a well-formed pool, \<^verbatim>\<open>Get\<close> keeps the pool well formed and returns a buffer of exactly the
  requested length for every size from 0 to 16 MB; every other size panics. The pool for sizes above
  16 MB is the 16 MB pool, so the direct allocation \<^verbatim>\<open>Get\<close> announces as its fallback is never reached.
\<close>

theorem bp_Get_spec:
  assumes "pool_wf bp" and "bp_Get pick bp sz = (bp', r)"
  shows "pool_wf bp' \<and>
    (if 0 \<le> sz \<and> sz \<le> BufferSize16MB then \<exists>b. r = Ok b \<and> int (sl_len b) = sz \<and> sz \<le> int (sl_cap b)
     else r = Panic)"
proof -
  obtain buf where wf: "pool_wf bp'" and cap: "int (sl_cap buf) = selectPoolSize sz"
    and r: "r = reslice buf sz" using bp_Get_unfold [OF assms] .
  have "sz \<le> selectPoolSize sz \<longleftrightarrow> sz \<le> BufferSize16MB"
    by (auto simp: selectPoolSize_def buffer_sizes)
  with wf cap r show ?thesis by (auto simp: reslice_def sl_cap_def)
qed

theorem bp_Get_spec_witness:
  "pool_wf NewBufferPool \<and>
   (\<exists>bp' r. bp_Get (\<lambda>_. None) NewBufferPool 33554432 = (bp', r) \<and> pool_wf bp' \<and> r = Panic)"
proof -
  obtain bp' r where g: "bp_Get (\<lambda>_. None) NewBufferPool 33554432 = (bp', r)"
    by (rule prod.exhaust)
  have "\<not> (33554432::int) \<le> BufferSize16MB" by (simp add: buffer_sizes)
  then have "pool_wf bp' \<and> r = Panic" using bp_Get_spec [OF pool_wf_new g] by simp
  with g pool_wf_new show ?thesis by blast
qed

end
