(* ===== verification/Prefetch.thy ===== *)
theory Prefetch
  imports Go_Prelude
begin

text \<open>
  \<^verbatim>\<open>src/pkg/prefetcher.go\<close>: detection of sequential reads and the queue of read-ahead tasks. The state
  holds the per-hash read patterns, the bounded work queue and the goroutines that \<^verbatim>\<open>startPrefetch\<close> has
  launched and that have not finished (hash, start offset, tasks sent so far). Times are nanoseconds.
  Every operation that runs under the mutex is one function; the interleaving of client reads,
  goroutine sends, workers and the cleanup timer is the step function \<open>pf_step\<close>.
\<close>

subsection \<open>State\<close>

definition prefetchAheadChunks :: int where "prefetchAheadChunks = 16"
definition prefetchThresholdBytes :: int where "prefetchThresholdBytes = 2 * 1024 * 1024"
definition prefetchCacheTime :: int where "prefetchCacheTime = 30 * 1000000000"
definition prefetchChunkSize :: int where "prefetchChunkSize = 4 * 1024 * 1024"
definition workQueueCap :: nat where "workQueueCap = 100"

lemmas prefetch_constants = prefetchAheadChunks_def prefetchThresholdBytes_def prefetchCacheTime_def
  prefetchChunkSize_def workQueueCap_def

record PrefetchState =
  lastOffset :: int
  lastAccessTime :: int
  sequential :: bool
  prefetching :: bool

record prefetchTask =
  pt_hash :: string
  pt_offset :: int
  pt_length :: int

record prefetch_run =
  pr_hash :: string
  pr_start :: int
  pr_i :: int

record Prefetcher =
  states :: "string \<Rightarrow> PrefetchState option"
  workQueue :: "prefetchTask list"
  pf_runs :: "prefetch_run list"

definition NewPrefetcher :: Prefetcher where
  "NewPrefetcher = \<lparr>states = Map.empty, workQueue = [], pf_runs = []\<rparr>"

subsection \<open>Operations\<close>

text \<open>\<^verbatim>\<open>startPrefetch\<close> is only called for a hash that has a state entry.\<close>

definition startPrefetch :: "Prefetcher \<Rightarrow> string \<Rightarrow> int \<Rightarrow> Prefetcher" where
  "startPrefetch pf hash startOffset =
     (case states pf hash of
        None \<Rightarrow> pf
      | Some st \<Rightarrow>
          if prefetching st then pf
          else pf\<lparr>states := (states pf)(hash \<mapsto> st\<lparr>prefetching := True\<rparr>),
                  pf_runs := pf_runs pf @ [\<lparr>pr_hash = hash, pr_start = startOffset, pr_i = 0\<rparr>]\<rparr>)"

definition set_state :: "Prefetcher \<Rightarrow> string \<Rightarrow> (PrefetchState \<Rightarrow> PrefetchState) \<Rightarrow> Prefetcher" where
  "set_state pf hash f =
     (case states pf hash of None \<Rightarrow> pf | Some st \<Rightarrow> pf\<lparr>states := (states pf)(hash \<mapsto> f st)\<rparr>)"

definition OnRead :: "int \<Rightarrow> Prefetcher \<Rightarrow> string \<Rightarrow> int \<Rightarrow> int \<Rightarrow> Prefetcher" where
  "OnRead now pf hash offset len =
     (case states pf hash of
        None \<Rightarrow>
          pf\<lparr>states := (states pf)(hash \<mapsto>
             \<lparr>lastOffset = offset, lastAccessTime = now, sequential = False, prefetching = False\<rparr>)\<rparr>
      | Some st \<Rightarrow>
          (let isSequential = offset \<ge> lastOffset st \<and> wrap64 (offset - lastOffset st) \<le> prefetchThresholdBytes;
               pf1 = (if isSequential \<and> \<not> sequential st then
                        startPrefetch (set_state pf hash (\<lambda>s. s\<lparr>sequential := True\<rparr>)) hash (wrap64 (offset + len))
                      else if isSequential \<and> sequential st \<and> \<not> prefetching st then
                        startPrefetch pf hash (wrap64 (offset + len))
                      else if \<not> isSequential then set_state pf hash (\<lambda>s. s\<lparr>sequential := False\<rparr>)
                      else pf)
           in set_state pf1 hash (\<lambda>s. s\<lparr>lastOffset := wrap64 (offset + len), lastAccessTime := now\<rparr>)))"

text \<open>One turn of the goroutine's loop that finds room in the queue: it sends the next task.\<close>

definition run_send :: "Prefetcher \<Rightarrow> nat \<Rightarrow> Prefetcher option" where
  "run_send pf k =
     (if k < length (pf_runs pf) \<and> pr_i (pf_runs pf ! k) < prefetchAheadChunks
         \<and> length (workQueue pf) < workQueueCap then
        (let r = pf_runs pf ! k;
             task = \<lparr>pt_hash = pr_hash r,
                     pt_offset = wrap64 (pr_start r + wrap64 (pr_i r * prefetchChunkSize)),
                     pt_length = prefetchChunkSize\<rparr>
         in Some (pf\<lparr>workQueue := workQueue pf @ [task],
                     pf_runs := (pf_runs pf)[k := r\<lparr>pr_i := pr_i r + 1\<rparr>]\<rparr>))
      else None)"

text \<open>The goroutine returns when it has sent all its tasks or finds the queue full; its deferred
  function clears the flag of the hash, if the hash still has an entry.\<close>

definition run_finish :: "Prefetcher \<Rightarrow> nat \<Rightarrow> Prefetcher option" where
  "run_finish pf k =
     (if k < length (pf_runs pf) \<and>
         (\<not> pr_i (pf_runs pf ! k) < prefetchAheadChunks \<or> \<not> length (workQueue pf) < workQueueCap) then
        (let r = pf_runs pf ! k;
             pf1 = pf\<lparr>pf_runs := take k (pf_runs pf) @ drop (Suc k) (pf_runs pf)\<rparr>
         in Some (set_state pf1 (pr_hash r) (\<lambda>s. s\<lparr>prefetching := False\<rparr>)))
      else None)"

text \<open>
  A worker takes the first task. If the hash exists in the storage it reads the task's range through
  \<^verbatim>\<open>cas.Get\<close>, whose first effect on the prefetcher is \<^verbatim>\<open>OnRead\<close> of that range.
\<close>

definition worker :: "(string \<Rightarrow> bool) \<Rightarrow> int \<Rightarrow> Prefetcher \<Rightarrow> Prefetcher option" where
  "worker exists now pf =
     (case workQueue pf of
        [] \<Rightarrow> None
      | t # q \<Rightarrow>
          (let pf1 = pf\<lparr>workQueue := q\<rparr>
           in Some (if exists (pt_hash t) then OnRead now pf1 (pt_hash t) (pt_offset t) (pt_length t) else pf1)))"

definition cleanup :: "int \<Rightarrow> Prefetcher \<Rightarrow> Prefetcher" where
  "cleanup now pf =
     pf\<lparr>states := (\<lambda>hash. case states pf hash of
          None \<Rightarrow> None
        | Some st \<Rightarrow> if wrap64 (now - lastAccessTime st) > prefetchCacheTime then None else Some st)\<rparr>"

datatype pf_event =
    EvRead string int int
  | EvSend nat
  | EvFinish nat
  | EvWorker
  | EvCleanup

fun pf_step :: "(string \<Rightarrow> bool) \<Rightarrow> int \<Rightarrow> pf_event \<Rightarrow> Prefetcher \<Rightarrow> Prefetcher option" where
  "pf_step ex now (EvRead h off len) pf = Some (OnRead now pf h off len)"
| "pf_step ex now (EvSend k) pf = run_send pf k"
| "pf_step ex now (EvFinish k) pf = run_finish pf k"
| "pf_step ex now EvWorker pf = worker ex now pf"
| "pf_step ex now EvCleanup pf = Some (cleanup now pf)"

inductive pf_reach :: "(string \<Rightarrow> bool) \<Rightarrow> Prefetcher \<Rightarrow> bool" for ex where
  pf_init: "pf_reach ex NewPrefetcher"
| pf_next: "pf_reach ex pf \<Longrightarrow> pf_step ex now ev pf = Some pf' \<Longrightarrow> pf_reach ex pf'"

text \<open>A run of timed events.\<close>

fun pf_exec :: "(string \<Rightarrow> bool) \<Rightarrow> Prefetcher \<Rightarrow> (int \<times> pf_event) list \<Rightarrow> Prefetcher option" where
  "pf_exec ex pf [] = Some pf"
| "pf_exec ex pf ((now, ev) # es) =
     (case pf_step ex now ev pf of None \<Rightarrow> None | Some pf' \<Rightarrow> pf_exec ex pf' es)"

subsection \<open>Invariants\<close>

definition runs_for :: "Prefetcher \<Rightarrow> string \<Rightarrow> bool" where
  "runs_for pf h \<longleftrightarrow> (\<exists>r \<in> set (pf_runs pf). pr_hash r = h)"

text \<open>The queue respects its bound, every task asks for one 4 MB chunk, and a hash is marked as
  prefetching only while a goroutine for it is still running.\<close>

definition pf_inv :: "Prefetcher \<Rightarrow> bool" where
  "pf_inv pf \<longleftrightarrow>
     length (workQueue pf) \<le> workQueueCap \<and>
     (\<forall>t \<in> set (workQueue pf). pt_length t = prefetchChunkSize) \<and>
     (\<forall>h st. states pf h = Some st \<and> prefetching st \<longrightarrow> runs_for pf h)"

lemma set_state_simps [simp]:
  "workQueue (set_state pf h f) = workQueue pf" "pf_runs (set_state pf h f) = pf_runs pf"
  "states (set_state pf h f) g = (if g = h then map_option f (states pf h) else states pf g)"
  by (auto simp: set_state_def split: option.splits)

lemma startPrefetch_queue [simp]: "workQueue (startPrefetch pf h off) = workQueue pf"
  by (simp add: startPrefetch_def split: option.splits)

lemma set_state_inv:
  assumes "pf_inv pf" "\<And>s. prefetching (f s) \<Longrightarrow> prefetching s"
  shows "pf_inv (set_state pf h f)"
  using assms unfolding pf_inv_def runs_for_def by (fastforce split: if_splits)

lemma startPrefetch_inv: "pf_inv pf \<Longrightarrow> pf_inv (startPrefetch pf h off)"
  unfolding pf_inv_def runs_for_def by (fastforce simp: startPrefetch_def split: option.splits if_splits)

lemma OnRead_inv: "pf_inv pf \<Longrightarrow> pf_inv (OnRead now pf h off len)"
proof (cases "states pf h")
  case None
  assume "pf_inv pf"
  with None show ?thesis unfolding pf_inv_def runs_for_def OnRead_def by (auto split: if_splits)
next
  case (Some st)
  assume "pf_inv pf"
  then show ?thesis
    unfolding OnRead_def Some Let_def option.case by (auto intro!: set_state_inv startPrefetch_inv)
qed

lemma run_send_inv: "pf_inv pf \<Longrightarrow> run_send pf k = Some pf' \<Longrightarrow> pf_inv pf'"
proof -
  assume inv: "pf_inv pf" and s: "run_send pf k = Some pf'"
  have "runs_for pf' h" if r: "runs_for pf h" for h
  proof -
    from r obtain j where "j < length (pf_runs pf)" "pr_hash (pf_runs pf ! j) = h"
      unfolding runs_for_def by (auto simp: in_set_conv_nth)
    moreover have "length (pf_runs pf') = length (pf_runs pf)"
      and "pr_hash (pf_runs pf' ! j) = pr_hash (pf_runs pf ! j)" if "j < length (pf_runs pf)" for j
      using s that by (auto simp: run_send_def Let_def nth_list_update split: if_splits)
    ultimately show ?thesis unfolding runs_for_def by (auto simp: set_conv_nth)
  qed
  with inv s show ?thesis by (auto simp: pf_inv_def run_send_def Let_def split: if_splits)
qed

lemma run_finish_inv: "pf_inv pf \<Longrightarrow> run_finish pf k = Some pf' \<Longrightarrow> pf_inv pf'"
proof -
  assume inv: "pf_inv pf" and s: "run_finish pf k = Some pf'"
  then have k: "k < length (pf_runs pf)" by (simp add: run_finish_def split: if_splits)
  define h0 where "h0 = pr_hash (pf_runs pf ! k)"
  have pf': "workQueue pf' = workQueue pf" "pf_runs pf' = take k (pf_runs pf) @ drop (Suc k) (pf_runs pf)"
    "states pf' g = (if g = h0 then map_option (\<lambda>s. s\<lparr>prefetching := False\<rparr>) (states pf h0) else states pf g)"
    for g using s by (auto simp: run_finish_def Let_def h0_def split: if_splits)
  have "pf_runs pf = take k (pf_runs pf) @ pf_runs pf ! k # drop (Suc k) (pf_runs pf)"
    using k by (rule id_take_nth_drop)
  then have "set (pf_runs pf) \<subseteq> set (pf_runs pf') \<union> {pf_runs pf ! k}"
    unfolding pf'(2) by (metis Un_insert_right set_append list.set(2) sup_bot.right_neutral subset_refl)
  then have "runs_for pf' g" if "runs_for pf g" "g \<noteq> h0" for g
    using that unfolding runs_for_def h0_def by auto
  with inv show ?thesis unfolding pf_inv_def pf' by (auto split: if_splits)
qed

lemma worker_inv: "pf_inv pf \<Longrightarrow> worker ex now pf = Some pf' \<Longrightarrow> pf_inv pf'"
proof -
  assume inv: "pf_inv pf" and s: "worker ex now pf = Some pf'"
  then obtain t q where q: "workQueue pf = t # q" by (auto simp: worker_def split: list.splits)
  have "pf_inv (pf\<lparr>workQueue := q\<rparr>)" using inv q by (auto simp: pf_inv_def runs_for_def)
  with s q show ?thesis by (auto simp: worker_def Let_def intro: OnRead_inv)
qed

lemma cleanup_inv: "pf_inv pf \<Longrightarrow> pf_inv (cleanup now pf)"
  unfolding pf_inv_def runs_for_def cleanup_def by (auto split: option.splits if_splits)

lemma pf_step_inv: "pf_inv pf \<Longrightarrow> pf_step ex now ev pf = Some pf' \<Longrightarrow> pf_inv pf'"
  by (cases ev) (auto intro: OnRead_inv run_send_inv run_finish_inv worker_inv cleanup_inv)

text \<open>
  C21: In every reachable state of the prefetcher, whatever the interleaving of reads, goroutines,
  workers and cleanups, the work queue holds at most 100 tasks, every task is for one 4 MB chunk, and
  a hash is marked as prefetching only while a goroutine for it is running, so the mark never sticks.
\<close>

theorem prefetcher_invariant:
  assumes "pf_reach ex pf"
  shows "length (workQueue pf) \<le> 100 \<and>
    (\<forall>t \<in> set (workQueue pf). pt_length t = 4194304) \<and>
    (\<forall>h st. states pf h = Some st \<and> prefetching st \<longrightarrow> (\<exists>r \<in> set (pf_runs pf). pr_hash r = h))"
proof -
  from assms have "pf_inv pf"
  proof (induction rule: pf_reach.induct)
    case pf_init
    show ?case by (simp add: pf_inv_def NewPrefetcher_def)
  next
    case (pf_next pf now ev pf')
    then show ?case by (blast intro: pf_step_inv)
  qed
  then show ?thesis by (simp add: pf_inv_def runs_for_def prefetch_constants)
qed

lemma pf_exec_append:
  "pf_exec ex pf (es @ fs) = (case pf_exec ex pf es of None \<Rightarrow> None | Some pf' \<Rightarrow> pf_exec ex pf' fs)"
  by (induction es arbitrary: pf) (auto split: option.splits)

lemma pf_exec_reach: "pf_reach ex pf \<Longrightarrow> pf_exec ex pf es = Some pf' \<Longrightarrow> pf_reach ex pf'"
proof (induction es arbitrary: pf)
  case (Cons e es)
  obtain now ev where e: "e = (now, ev)" by (rule prod.exhaust)
  with Cons.prems obtain pf1 where "pf_step ex now ev pf = Some pf1" "pf_exec ex pf1 es = Some pf'"
    by (auto split: option.splits)
  with Cons show ?case by (blast intro: pf_next)
qed simp

theorem prefetcher_invariant_witness:
  "\<exists>pf. pf_exec (\<lambda>_. True) NewPrefetcher [(0, EvRead ''h'' 0 4096), (1, EvRead ''h'' 4096 4096), (2, EvSend 0)] = Some pf
     \<and> length (workQueue pf) = 1 \<and> length (workQueue pf) \<le> 100
     \<and> (\<forall>t \<in> set (workQueue pf). pt_length t = 4194304)
     \<and> (\<forall>h st. states pf h = Some st \<and> prefetching st \<longrightarrow> (\<exists>r \<in> set (pf_runs pf). pr_hash r = h))"
proof -
  let ?es = "[(0, EvRead ''h'' 0 4096), (1, EvRead ''h'' 4096 4096), (2, EvSend 0)]"
  obtain pf where pf: "pf_exec (\<lambda>_. True) NewPrefetcher ?es = Some pf" and q: "length (workQueue pf) = 1"
    by (simp add: NewPrefetcher_def OnRead_def startPrefetch_def set_state_def run_send_def Let_def
        prefetch_constants wrap64_def)
  then show ?thesis using prefetcher_invariant [OF pf_exec_reach [OF pf_init pf]] by blast
qed

subsection \<open>The read-ahead feeds itself\<close>

text \<open>A hash that is being read ahead: the goroutine has sent \<open>i\<close> of its tasks and the workers have
  read all of them.\<close>

definition ahead :: "string \<Rightarrow> int \<Rightarrow> int \<Rightarrow> Prefetcher \<Rightarrow> bool" where
  "ahead h start i pf \<longleftrightarrow>
     workQueue pf = [] \<and> pf_runs pf = [\<lparr>pr_hash = h, pr_start = start, pr_i = i\<rparr>] \<and>
     (\<exists>st. states pf h = Some st \<and> lastOffset st = start + i * prefetchChunkSize \<and> sequential st \<and> prefetching st)"

lemma ahead_step:
  assumes "ahead h start i pf" "ex h" "0 \<le> start" "0 \<le> i" "i < 15"
    "start + 16 * prefetchChunkSize < 2 ^ 63"
  shows "\<exists>pf'. pf_exec ex pf [(now, EvSend 0), (now, EvWorker)] = Some pf' \<and> ahead h start (i + 1) pf'"
proof -
  from assms(1) obtain st where st: "states pf h = Some st" "lastOffset st = start + i * prefetchChunkSize"
    "sequential st" "prefetching st" and q: "workQueue pf = []"
    and r: "pf_runs pf = [\<lparr>pr_hash = h, pr_start = start, pr_i = i\<rparr>]" by (auto simp: ahead_def)
  have w: "wrap64 (i * prefetchChunkSize) = i * prefetchChunkSize"
    "wrap64 (start + i * prefetchChunkSize) = start + i * prefetchChunkSize"
    "wrap64 (start + i * prefetchChunkSize + prefetchChunkSize) = start + (i + 1) * prefetchChunkSize"
    using assms(3-6) by (auto simp: prefetch_constants algebra_simps intro!: wrap64_id in64I)
  show ?thesis
    using st q r w assms(2,5)
    by (auto simp: run_send_def worker_def OnRead_def ahead_def Let_def workQueueCap_def
        prefetchAheadChunks_def prefetchThresholdBytes_def wrap64_def)
qed

lemma ahead_restart:
  assumes "ahead h start 15 pf" "ex h" "0 \<le> start" "start + 16 * prefetchChunkSize < 2 ^ 63"
  shows "\<exists>pf'. pf_exec ex pf [(now, EvSend 0), (now, EvFinish 0), (now, EvWorker)] = Some pf' \<and>
    ahead h (start + 16 * prefetchChunkSize) 0 pf'"
proof -
  from assms(1) obtain st where st: "states pf h = Some st" "lastOffset st = start + 15 * prefetchChunkSize"
    "sequential st" "prefetching st" and q: "workQueue pf = []"
    and r: "pf_runs pf = [\<lparr>pr_hash = h, pr_start = start, pr_i = 15\<rparr>]" by (auto simp: ahead_def)
  have w: "wrap64 (15 * prefetchChunkSize) = 15 * prefetchChunkSize"
    "wrap64 (start + 15 * prefetchChunkSize) = start + 15 * prefetchChunkSize"
    "wrap64 (start + 15 * prefetchChunkSize + prefetchChunkSize) = start + 16 * prefetchChunkSize"
    using assms(3,4) by (subst wrap64_id; simp add: prefetch_constants in64_def)+
  have z: "wrap64 0 = 0" by (simp add: wrap64_def)
  show ?thesis
    using st q r w z assms(2)
    by (auto simp: run_send_def run_finish_def worker_def OnRead_def startPrefetch_def ahead_def Let_def
        workQueueCap_def prefetchAheadChunks_def prefetchThresholdBytes_def)
qed

fun is_read :: "pf_event \<Rightarrow> bool" where
  "is_read (EvRead _ _ _) = True"
| "is_read _ = False"

definition worker_reads :: "(int \<times> pf_event) list \<Rightarrow> nat" where
  "worker_reads es = length (filter (\<lambda>(_, e). e = EvWorker) es)"

lemma worker_reads_append [simp]: "worker_reads (es @ fs) = worker_reads es + worker_reads fs"
  by (simp add: worker_reads_def)

lemma ahead_many:
  assumes "ahead h start 0 pf" "ex h" "0 \<le> start" "start + 16 * prefetchChunkSize < 2 ^ 63" "n \<le> 15"
  shows "\<exists>es pf'. pf_exec ex pf es = Some pf' \<and> ahead h start (int n) pf' \<and> worker_reads es = n \<and>
    (\<forall>(t, e) \<in> set es. \<not> is_read e)"
  using assms(5)
proof (induction n)
  case 0
  then show ?case using assms(1) by (intro exI [of _ "[]"]) (auto simp: worker_reads_def)
next
  case (Suc n)
  then obtain es pf' where es: "pf_exec ex pf es = Some pf'" "ahead h start (int n) pf'"
    "worker_reads es = n" "\<forall>(t, e) \<in> set es. \<not> is_read e" by auto
  obtain pf'' where "pf_exec ex pf' [(0, EvSend 0), (0, EvWorker)] = Some pf''"
    "ahead h start (int n + 1) pf''"
    using ahead_step [where h = h and start = start and i = "int n" and ex = ex and now = 0, OF es(2)] assms Suc.prems by auto
  with es show ?case
    by (intro exI [of _ "es @ [(0, EvSend 0), (0, EvWorker)]"] exI [of _ pf''])
      (auto simp: pf_exec_append worker_reads_def add.commute)
qed

lemma ahead_cycle:
  assumes "ahead h start 0 pf" "ex h" "0 \<le> start" "start + 16 * prefetchChunkSize < 2 ^ 63"
  shows "\<exists>es pf'. pf_exec ex pf es = Some pf' \<and> ahead h (start + 16 * prefetchChunkSize) 0 pf' \<and>
    worker_reads es = 16 \<and> (\<forall>(t, e) \<in> set es. \<not> is_read e)"
proof -
  from ahead_many [of h start pf ex 15] assms
  obtain es pf' where es: "pf_exec ex pf es = Some pf'" "ahead h start 15 pf'"
    "worker_reads es = 15" "\<forall>(t, e) \<in> set es. \<not> is_read e" by auto
  obtain pf'' where "pf_exec ex pf' [(0, EvSend 0), (0, EvFinish 0), (0, EvWorker)] = Some pf''"
    "ahead h (start + 16 * prefetchChunkSize) 0 pf''"
    using ahead_restart [where h = h and start = start and ex = ex and now = 0, OF es(2)] assms by auto
  with es show ?thesis
    by (intro exI [of _ "es @ [(0, EvSend 0), (0, EvFinish 0), (0, EvWorker)]"] exI [of _ pf''])
      (auto simp: pf_exec_append worker_reads_def)
qed

lemma ahead_forever:
  assumes "ahead h start 0 pf" "ex h" "0 \<le> start" "start + 16 * int n * prefetchChunkSize < 2 ^ 63"
  shows "\<exists>es pf'. pf_exec ex pf es = Some pf' \<and> ahead h (start + 16 * int n * prefetchChunkSize) 0 pf' \<and>
    worker_reads es = 16 * n \<and> (\<forall>(t, e) \<in> set es. \<not> is_read e)"
  using assms(4)
proof (induction n)
  case 0
  then show ?case using assms(1) by (intro exI [of _ "[]"]) (auto simp: worker_reads_def)
next
  case (Suc n)
  have pos: "0 < prefetchChunkSize" by (simp add: prefetch_constants)
  with Suc obtain es pf' where es: "pf_exec ex pf es = Some pf'"
    "ahead h (start + 16 * int n * prefetchChunkSize) 0 pf'" "worker_reads es = 16 * n"
    "\<forall>(t, e) \<in> set es. \<not> is_read e" by (auto simp: algebra_simps)
  have b: "start + 16 * int n * prefetchChunkSize + 16 * prefetchChunkSize < 2 ^ 63"
    using Suc.prems by (simp add: algebra_simps)
  have b0: "0 \<le> start + 16 * int n * prefetchChunkSize" using assms(3) pos by simp
  from ahead_cycle [where start = "start + 16 * int n * prefetchChunkSize" and ex = ex, OF es(2) assms(2) b0 b]
  obtain fs pf'' where
    "pf_exec ex pf' fs = Some pf''" "worker_reads fs = 16" "\<forall>(t, e) \<in> set fs. \<not> is_read e"
    "ahead h (start + 16 * int n * prefetchChunkSize + 16 * prefetchChunkSize) 0 pf''" by auto
  with es show ?case
    by (intro exI [of _ "es @ fs"] exI [of _ pf'']) (auto simp: pf_exec_append algebra_simps)
qed

text \<open>
  C22: The prefetcher feeds itself. After two adjacent client reads of an object that exists, there
  is for every \<open>n\<close> an execution with no further client read in which the workers make \<open>16 n\<close> more
  reads of the object, at ever larger offsets (up to the range of \<^verbatim>\<open>int64\<close>): the workers read through
  \<^verbatim>\<open>Get\<close>, which reports each read to \<^verbatim>\<open>OnRead\<close> as if a client had made it, and the size of the object
  is never consulted.
\<close>

theorem prefetch_self_feeding:
  assumes "ex h" "0 \<le> off" "0 \<le> len" "len \<le> prefetchThresholdBytes"
    and "off + 2 * len + 16 * int n * prefetchChunkSize < 2 ^ 63"
  shows "\<exists>pf es pf'.
    pf_exec ex NewPrefetcher [(0, EvRead h off len), (0, EvRead h (off + len) len)] = Some pf \<and>
    pf_exec ex pf es = Some pf' \<and> (\<forall>(t, e) \<in> set es. \<not> is_read e) \<and> worker_reads es = 16 * n \<and>
    (\<exists>st. states pf' h = Some st \<and> lastOffset st = off + 2 * len + 16 * int n * prefetchChunkSize)"
proof -
  have "0 \<le> 16 * int n * prefetchChunkSize" by (simp add: prefetch_constants)
  then have w: "wrap64 (off + len + len) = off + 2 * len" "wrap64 len = len"
    using assms by (subst wrap64_id; simp add: prefetch_constants in64_def)+
  obtain pf where pf: "pf_exec ex NewPrefetcher [(0, EvRead h off len), (0, EvRead h (off + len) len)] = Some pf"
    and a: "ahead h (off + 2 * len) 0 pf"
    using w assms(3,4) by (auto simp: NewPrefetcher_def OnRead_def startPrefetch_def set_state_def Let_def ahead_def)
  from ahead_forever [where n = n and ex = ex, OF a assms(1)] assms obtain es pf' where
    "pf_exec ex pf es = Some pf'" "ahead h (off + 2 * len + 16 * int n * prefetchChunkSize) 0 pf'"
    "worker_reads es = 16 * n" "\<forall>(t, e) \<in> set es. \<not> is_read e" by auto
  with pf show ?thesis by (auto simp: ahead_def)
qed

theorem prefetch_self_feeding_witness:
  "\<exists>pf es pf'.
    pf_exec (\<lambda>_. True) NewPrefetcher [(0, EvRead ''h'' 0 4096), (0, EvRead ''h'' 4096 4096)] = Some pf \<and>
    pf_exec (\<lambda>_. True) pf es = Some pf' \<and> (\<forall>(t, e) \<in> set es. \<not> is_read e) \<and> worker_reads es = 1600 \<and>
    (\<exists>st. states pf' ''h'' = Some st \<and> lastOffset st = 6710894592)"
  using prefetch_self_feeding [of "\<lambda>_. True" "''h''" 0 4096 100] by (simp add: prefetch_constants)

end
