(* ===== verification/Cas_Storage.thy ===== *)
theory Cas_Storage
  imports Go_Os Blob_Types Buffer_Pool Prefetch
begin

text \<open>
  \<^verbatim>\<open>src/pkg/storage.go\<close>: the content-addressable storage, a memory cache of chunks in front of a
  directory of chunk files. The memory cache is the third-party package ristretto, a parameter of the
  model: the record of its operations over an abstract cache state. Every operation may also change
  the cache state on its own (evictions, expiry and the eviction callback run inside the package), so
  each returns a new state. Metrics are the counters and histograms (the list of observed values) that
  \<^verbatim>\<open>Get\<close> and the disk monitor update; log lines and the throughput and latency histograms are left out.
\<close>

subsection \<open>The memory cache\<close>

text \<open>The two dynamic types stored in the cache: \<^verbatim>\<open>cacheValue\<close> and the comma-separated chunk keys.\<close>

datatype cache_item = CacheValue (cv_Hash: string) (cv_Content: bytes) | ChunkKeys string

record 'c ristretto =
  rc_Get :: "'c \<Rightarrow> string \<Rightarrow> 'c \<times> cache_item option"
  rc_GetTTL :: "'c \<Rightarrow> string \<Rightarrow> 'c \<times> bool"
  rc_Set :: "'c \<Rightarrow> string \<Rightarrow> cache_item \<Rightarrow> int \<Rightarrow> 'c \<times> bool"
  rc_SetWithTTL :: "'c \<Rightarrow> string \<Rightarrow> cache_item \<Rightarrow> int \<Rightarrow> int \<Rightarrow> 'c \<times> bool"
  rc_ResetTTL :: "'c \<Rightarrow> string \<Rightarrow> int \<Rightarrow> 'c"
  rc_Del :: "'c \<Rightarrow> string \<Rightarrow> 'c"

subsection \<open>State\<close>

record BlobcacheMetrics =
  TotalReads :: nat
  L0Hits :: nat
  L1Hits :: nat
  L2Misses :: nat
  L0BytesServed :: nat
  L1BytesServed :: nat
  L0HitRatio :: "rat list"
  L1HitRatio :: "rat list"
  L2MissRatio :: "rat list"
  DiskCacheUsageMB :: "rat list"
  DiskCacheUsagePct :: "rat list"
  MemCacheUsageMB :: "rat list"
  MemCacheUsagePct :: "rat list"

definition createMetrics :: BlobcacheMetrics where
  "createMetrics =
     \<lparr>TotalReads = 0, L0Hits = 0, L1Hits = 0, L2Misses = 0, L0BytesServed = 0, L1BytesServed = 0,
      L0HitRatio = [], L1HitRatio = [], L2MissRatio = [],
      DiskCacheUsageMB = [], DiskCacheUsagePct = [], MemCacheUsageMB = [], MemCacheUsagePct = []\<rparr>"

record 'c cas =
  cas_cache :: 'c
  cas_fs :: fs
  cas_serverConfig :: BlobCacheServerConfig
  cas_maxCacheSizeMb :: int
  cas_diskCacheDir :: string
  cas_diskCachedUsageExceeded :: bool
  cas_metrics :: BlobcacheMetrics
  cas_bufferPool :: BufferPool
  cas_prefetcher :: Prefetcher

text \<open>
  \<^verbatim>\<open>NewContentAddressableStorage\<close>. \<open>newCache\<close> is \<^verbatim>\<open>ristretto.NewCache\<close> (number of counters and maximal
  cost); in disk-only mode its error is discarded and a nil cache would panic at its first use.
\<close>

definition NewContentAddressableStorage ::
    "(int \<Rightarrow> int \<Rightarrow> 'c res) \<Rightarrow> int \<Rightarrow> fs \<Rightarrow> BlobCacheConfig \<Rightarrow> 'c cas res" where
  "NewContentAddressableStorage newCache totalMemoryMb f config =
     (let sc = cfg_Server config;
          mk = (\<lambda>cache maxMb.
             \<lparr>cas_cache = cache, cas_fs = f, cas_serverConfig = sc, cas_maxCacheSizeMb = maxMb,
              cas_diskCacheDir = sc_DiskCacheDir sc, cas_diskCachedUsageExceeded = False,
              cas_metrics = createMetrics, cas_bufferPool = NewBufferPool, cas_prefetcher = NewPrefetcher\<rparr>)
      in if sc_PageSizeBytes sc \<le> 0 then Err (ErrMsg ''invalid cache configuration'')
         else if sc_MaxCachePct sc > 0 then
           (let maxCacheSizeMb = wrap64 (totalMemoryMb * sc_MaxCachePct sc) sdiv 100;
                maxCost = wrap64 (maxCacheSizeMb * 1000000)
            in if maxCacheSizeMb \<le> 0 then Err (ErrMsg ''invalid memory limit'')
               else case newCache 10000000 maxCost of
                      Ok cache \<Rightarrow> Ok (mk cache maxCacheSizeMb)
                    | Err e \<Rightarrow> Err e
                    | Panic \<Rightarrow> Panic)
         else (case newCache 100000 (1024 * 1024) of
                 Ok cache \<Rightarrow> Ok (mk cache 0)
               | Err e \<Rightarrow> Panic
               | Panic \<Rightarrow> Panic))"

definition chunk_key :: "string \<Rightarrow> int \<Rightarrow> string" where
  "chunk_key hash chunkIdx = hash @ CHR ''-'' # itoa chunkIdx"

abbreviation page :: "'c cas \<Rightarrow> int" where
  "page s \<equiv> sc_PageSizeBytes (cas_serverConfig s)"

abbreviation objectTtl :: "'c cas \<Rightarrow> int" where
  "objectTtl s \<equiv> wrap64 (sc_ObjectTtlS (cas_serverConfig s) * 1000000000)"

subsection \<open>Add\<close>

text \<open>The chunk loop of \<^verbatim>\<open>Add\<close> from \<open>offset\<close> on, with the chunk keys appended so far. A slice bound out
  of range (only possible when \<open>offset + page\<close> overflows) and a non-positive page size panic.\<close>

function add_chunks :: "'c ristretto \<Rightarrow> string \<Rightarrow> bytes \<Rightarrow> string \<Rightarrow> 'c cas \<Rightarrow> int \<Rightarrow> string list
    \<Rightarrow> 'c cas \<times> string list res" where
  "add_chunks R hash content dirPath s offset chunkKeys =
     (let sz = int (length content) in
      if \<not> offset < sz then (s, Ok chunkKeys)
      else if page s \<le> 0 then (s, Panic)
      else
        (let chunkIdx = offset sdiv page s;
             next = wrap64 (offset + page s);
             end = (if next > sz then sz else next)
         in if \<not> (0 \<le> offset \<and> offset < end) then (s, Panic)
            else
              (let chunk = take (nat (end - offset)) (drop (nat offset) content);
                   chunkKey = chunk_key hash chunkIdx;
                   (f1, written) =
                     (if cas_diskCachedUsageExceeded s then (cas_fs s, True)
                      else os_WriteFile (cas_fs s) (filepath_Join [dirPath, chunkKey]) chunk);
                   s1 = s\<lparr>cas_fs := f1\<rparr>
               in if \<not> written then (s1, Err (ErrMsg ''failed to write to disk cache''))
                  else
                    (let (c2, ex) = rc_GetTTL R (cas_cache s1) chunkKey;
                         s2 = s1\<lparr>cas_cache := c2\<rparr>
                     in if ex then add_chunks R hash content dirPath s2 next (chunkKeys @ [chunkKey])
                        else
                          (let (c3, added) = rc_Set R c2 chunkKey (CacheValue hash chunk) (int (length chunk));
                               s3 = s2\<lparr>cas_cache := c3\<rparr>
                           in if \<not> added then (s3, Err (ErrMsg ''unable to cache: set dropped''))
                              else add_chunks R hash content dirPath s3 next (chunkKeys @ [chunkKey]))))))"
  by pat_completeness auto
termination
  by (relation "measure (\<lambda>(R, hash, content, dirPath, s, offset, ks). nat (int (length content) - offset))")
    (auto split: if_splits)

declare add_chunks.simps [simp del]

definition cas_Add :: "'c ristretto \<Rightarrow> 'c cas \<Rightarrow> string \<Rightarrow> bytes \<Rightarrow> 'c cas \<times> unit res" where
  "cas_Add R s hash content =
     (let dirPath = filepath_Join [cas_diskCacheDir s, hash];
          (f1, made) =
            (if cas_diskCachedUsageExceeded s then (cas_fs s, True) else os_MkdirAll (cas_fs s) dirPath);
          s1 = s\<lparr>cas_fs := f1\<rparr>
      in if \<not> made then (s1, Err (ErrMsg ''failed to create cache directory''))
         else
           (case add_chunks R hash content dirPath s1 0 [] of
              (s2, Err e) \<Rightarrow> (s2, Err e)
            | (s2, Panic) \<Rightarrow> (s2, Panic)
            | (s2, Ok chunkKeys) \<Rightarrow>
                (let chunks = join_with CHR '','' chunkKeys;
                     (c3, added) = rc_SetWithTTL R (cas_cache s2) hash (ChunkKeys chunks)
                                     (int (length chunks)) (objectTtl s2);
                     s3 = s2\<lparr>cas_cache := c3\<rparr>
                 in if \<not> added then (s3, Err (ErrMsg ''unable to cache: set dropped'')) else (s3, Ok ()))))"

subsection \<open>Exists and Get\<close>

definition cas_Exists :: "'c ristretto \<Rightarrow> 'c cas \<Rightarrow> string \<Rightarrow> 'c cas \<times> bool" where
  "cas_Exists R s hash =
     (let (c1, ex) = rc_GetTTL R (cas_cache s) hash;
          s1 = s\<lparr>cas_cache := c1\<rparr>
      in if \<not> ex then (s1, os_Stat (cas_fs s1) (filepath_Join [cas_diskCacheDir s1, hash]) = Some Dir)
         else (s1, ex))"

text \<open>\<^verbatim>\<open>getFromDiskCache\<close>: a second look at the memory cache under the mutex (its type assertion panics
  on a chunk-key string), then the chunk file, which is put back into the memory cache.\<close>

definition getFromDiskCache ::
    "'c ristretto \<Rightarrow> 'c cas \<Rightarrow> string \<Rightarrow> string \<Rightarrow> 'c cas \<times> cache_item res" where
  "getFromDiskCache R s hash chunkKey =
     (case rc_Get R (cas_cache s) chunkKey of
        (c1, Some (CacheValue h b)) \<Rightarrow> (s\<lparr>cas_cache := c1\<rparr>, Ok (CacheValue h b))
      | (c1, Some (ChunkKeys _)) \<Rightarrow> (s\<lparr>cas_cache := c1\<rparr>, Panic)
      | (c1, None) \<Rightarrow>
          (case os_ReadFile (cas_fs s) (filepath_Join [cas_diskCacheDir s, hash, chunkKey]) of
             None \<Rightarrow> (s\<lparr>cas_cache := c1\<rparr>, Err ErrContentNotFound)
           | Some chunkBytes \<Rightarrow>
               (let v = CacheValue hash chunkBytes;
                    (c2, _) = rc_Set R c1 chunkKey v (int (length chunkBytes))
                in (s\<lparr>cas_cache := c2\<rparr>, Ok v))))"

definition count_read :: "bool \<Rightarrow> int \<Rightarrow> BlobcacheMetrics \<Rightarrow> BlobcacheMetrics" where
  "count_read fromMemory n m =
     (if fromMemory then m\<lparr>L0BytesServed := L0BytesServed m + nat n\<rparr>
      else m\<lparr>L1BytesServed := L1BytesServed m + nat n\<rparr>)"

text \<open>The lookup of one chunk in \<^verbatim>\<open>Get\<close>: memory (L0), then disk (L1), with the hit counters. The flag
  tells whether the first look into memory found it.\<close>

definition get_chunk :: "'c ristretto \<Rightarrow> 'c cas \<Rightarrow> string \<Rightarrow> string \<Rightarrow> 'c cas \<times> bool \<times> cache_item res" where
  "get_chunk R s hash chunkKey =
     (case rc_Get R (cas_cache s) chunkKey of
        (c1, Some v) \<Rightarrow>
          (s\<lparr>cas_cache := c1, cas_metrics := (cas_metrics s)\<lparr>L0Hits := L0Hits (cas_metrics s) + 1\<rparr>\<rparr>, True, Ok v)
      | (c1, None) \<Rightarrow>
          (case getFromDiskCache R (s\<lparr>cas_cache := c1\<rparr>) hash chunkKey of
             (s2, Ok v) \<Rightarrow>
               (s2\<lparr>cas_metrics := (cas_metrics s2)\<lparr>L1Hits := L1Hits (cas_metrics s2) + 1\<rparr>\<rparr>, False, Ok v)
           | (s2, Err e) \<Rightarrow>
               (s2\<lparr>cas_metrics := (cas_metrics s2)\<lparr>L2Misses := L2Misses (cas_metrics s2) + 1\<rparr>\<rparr>, False,
                Err ErrContentNotFound)
           | (s2, Panic) \<Rightarrow> (s2, False, Panic)))"

text \<open>The loop of \<^verbatim>\<open>Get\<close>: \<open>o1\<close> is the running offset, \<open>remaining\<close> the bytes still wanted, \<open>dst\<close> the
  destination buffer and \<open>dstOffset\<close> the bytes written so far.\<close>

function get_loop :: "'c ristretto \<Rightarrow> string \<Rightarrow> 'c cas \<Rightarrow> int \<Rightarrow> int \<Rightarrow> bytes \<Rightarrow> int
    \<Rightarrow> 'c cas \<times> bytes \<times> int res" where
  "get_loop R hash s o1 remaining dst dstOffset =
     (if \<not> remaining > 0 then (s, dst, Ok dstOffset)
      else if page s = 0 then (s, dst, Panic)
      else
        (case get_chunk R s hash (chunk_key hash (o1 sdiv page s)) of
           (s1, _, Err e) \<Rightarrow> (s1, dst, Err ErrContentNotFound)
         | (s1, _, Panic) \<Rightarrow> (s1, dst, Panic)
         | (s1, _, Ok (ChunkKeys _)) \<Rightarrow> (s1, dst, Err (ErrMsg ''unexpected cache value type''))
         | (s1, fromMemory, Ok (CacheValue _ chunkBytes)) \<Rightarrow>
             (let start = o1 smod page s;
                  chunkRemaining = wrap64 (int (length chunkBytes) - start)
              in if chunkRemaining \<le> 0 then (s1, dst, Ok dstOffset)
                 else
                   (let readLength = min remaining chunkRemaining;
                        end = wrap64 (start + readLength)
                    in if start < 0 \<or> end \<le> start \<or> end > int (length chunkBytes) then
                         (s1, dst, Err (ErrMsg ''invalid chunk boundaries''))
                       else if \<not> (0 \<le> dstOffset \<and> dstOffset + readLength \<le> int (length dst)) then
                         (s1, dst, Panic)
                       else
                         (let dst1 = copy_at dst (nat dstOffset)
                                       (take (nat readLength) (drop (nat start) chunkBytes));
                              s2 = s1\<lparr>cas_metrics := count_read fromMemory readLength (cas_metrics s1)\<rparr>
                          in get_loop R hash s2 (wrap64 (o1 + readLength)) (remaining - readLength) dst1
                               (dstOffset + readLength))))))"
  by pat_completeness auto
termination
  by (relation "measure (\<lambda>(R, hash, s, o1, remaining, dst, dstOffset). nat remaining)") auto

declare get_loop.simps [simp del]

text \<open>The hit ratios, in percent, observed after every read.\<close>

definition updateHitRatios :: "BlobcacheMetrics \<Rightarrow> BlobcacheMetrics" where
  "updateHitRatios m =
     (let l0 = L0Hits m; l1 = L1Hits m; l2 = L2Misses m; total = l0 + l1 + l2
      in if total > 0 then
           m\<lparr>L0HitRatio := L0HitRatio m @ [of_nat l0 / of_nat total * 100],
             L1HitRatio := L1HitRatio m @ [of_nat l1 / of_nat total * 100],
             L2MissRatio := L2MissRatio m @ [of_nat l2 / of_nat total * 100]\<rparr>
         else m)"

text \<open>\<^verbatim>\<open>Get\<close>: the destination buffer is returned updated. On an error the byte count is discarded (the
  code returns 0), but bytes already copied stay in the buffer.\<close>

definition cas_Get :: "'c ristretto \<Rightarrow> int \<Rightarrow> 'c cas \<Rightarrow> string \<Rightarrow> int \<Rightarrow> int \<Rightarrow> bytes
    \<Rightarrow> 'c cas \<times> bytes \<times> int res" where
  "cas_Get R now s hash offset len dst =
     (let m = cas_metrics s;
          s1 = s\<lparr>cas_metrics := m\<lparr>TotalReads := TotalReads m + 1\<rparr>,
                 cas_prefetcher := OnRead now (cas_prefetcher s) hash offset len\<rparr>;
          s2 = s1\<lparr>cas_cache := rc_ResetTTL R (cas_cache s1) hash (objectTtl s1)\<rparr>;
          (s3, dst', r) = get_loop R hash s2 offset len dst 0
      in (s3\<lparr>cas_metrics := updateHitRatios (cas_metrics s3)\<rparr>, dst', r))"

subsection \<open>Eviction, disk usage, prefetch workers\<close>

fun del_all :: "'c ristretto \<Rightarrow> 'c \<Rightarrow> string list \<Rightarrow> 'c" where
  "del_all R c [] = c"
| "del_all R c (k # ks) = del_all R (rc_Del R c k) ks"

text \<open>The hash and the chunk keys \<^verbatim>\<open>onEvict\<close> extracts from the evicted item; the type assertion on the
  object entry panics when it is not a string.\<close>

definition evicted_keys :: "'c ristretto \<Rightarrow> 'c \<Rightarrow> cache_item \<Rightarrow> 'c \<times> (string \<times> string list) res" where
  "evicted_keys R c item =
     (case item of
        CacheValue h _ \<Rightarrow>
          (case rc_Get R c h of
             (c1, None) \<Rightarrow> (c1, Ok (h, []))
           | (c1, Some (ChunkKeys v)) \<Rightarrow> (c1, Ok (h, split_on CHR '','' v))
           | (c1, Some (CacheValue _ _)) \<Rightarrow> (c1, Panic))
      | ChunkKeys v \<Rightarrow> (c, Ok (before_char CHR ''-'' v, split_on CHR '','' v)))"

definition onEvict :: "'c ristretto \<Rightarrow> 'c \<Rightarrow> cache_item \<Rightarrow> 'c \<times> unit res" where
  "onEvict R c item =
     (case evicted_keys R c item of
        (c1, Ok (hash, chunkKeys)) \<Rightarrow> (del_all R c1 chunkKeys, Ok ())
      | (c1, Err e) \<Rightarrow> (c1, Err e)
      | (c1, Panic) \<Rightarrow> (c1, Panic))"

text \<open>The entries \<^verbatim>\<open>filepath.Walk\<close> visits: an error, or whether the entry is a directory and its size.\<close>

fun walk_usage :: "int \<Rightarrow> (bool \<times> int) res list \<Rightarrow> int res" where
  "walk_usage totalUsage [] = Ok totalUsage"
| "walk_usage totalUsage (Ok (isDir, sz) # es) = walk_usage (if isDir then totalUsage else wrap64 (totalUsage + sz)) es"
| "walk_usage totalUsage (Err e # es) = Err e"
| "walk_usage totalUsage (Panic # es) = Panic"

definition getDiskUsageMb :: "(bool \<times> int) res list \<Rightarrow> int res" where
  "getDiskUsageMb walk =
     (case walk_usage 0 walk of Ok totalUsage \<Rightarrow> Ok (totalUsage sdiv (1024 * 1024)) | Err e \<Rightarrow> Err e | Panic \<Rightarrow> Panic)"

text \<open>\<open>statfs\<close> is the number of blocks and the block size the system call reports.\<close>

definition getTotalDiskSpaceMb :: "(int \<times> int) res \<Rightarrow> int res" where
  "getTotalDiskSpaceMb statfs =
     (case statfs of
        Ok (blocks, bsize) \<Rightarrow> Ok (wrap64 (wrap64 blocks * bsize) sdiv (1024 * 1024))
      | Err e \<Rightarrow> Err e
      | Panic \<Rightarrow> Panic)"

definition GetDiskCacheMetrics :: "(bool \<times> int) res list \<Rightarrow> (int \<times> int) res \<Rightarrow> (int \<times> int \<times> rat) res" where
  "GetDiskCacheMetrics walk statfs =
     (case getDiskUsageMb walk of
        Err e \<Rightarrow> Err e
      | Panic \<Rightarrow> Panic
      | Ok diskUsageMb \<Rightarrow>
          (case getTotalDiskSpaceMb statfs of
             Err e \<Rightarrow> Err e
           | Panic \<Rightarrow> Panic
           | Ok totalDiskSpaceMb \<Rightarrow>
               Ok (diskUsageMb, totalDiskSpaceMb,
                   if totalDiskSpaceMb > 0 then of_int diskUsageMb / of_int totalDiskSpaceMb * 100 else 0)))"

text \<open>One tick of \<^verbatim>\<open>monitorDiskCacheUsage\<close>; \<open>availMb\<close> and \<open>memMb\<close> are the host's available and total memory.\<close>

definition monitorDiskCacheUsage ::
    "(bool \<times> int) res list \<Rightarrow> (int \<times> int) res \<Rightarrow> int \<Rightarrow> int \<Rightarrow> 'c cas \<Rightarrow> 'c cas" where
  "monitorDiskCacheUsage walk statfs availMb memMb s =
     (case GetDiskCacheMetrics walk statfs of
        Ok (currentUsage, _, usagePercentage) \<Rightarrow>
          (let m = cas_metrics s;
               usedMemoryMb = wrap64 (memMb - availMb)
           in s\<lparr>cas_metrics := m\<lparr>
                  MemCacheUsageMB := MemCacheUsageMB m @ [of_int usedMemoryMb],
                  MemCacheUsagePct := MemCacheUsagePct m @ [of_int usedMemoryMb / of_int memMb * 100],
                  DiskCacheUsageMB := DiskCacheUsageMB m @ [of_int currentUsage],
                  DiskCacheUsagePct := DiskCacheUsagePct m @ [usagePercentage]\<rparr>,
                cas_diskCachedUsageExceeded :=
                  (usagePercentage > sc_DiskCacheMaxUsagePct (cas_serverConfig s))\<rparr>)
      | _ \<Rightarrow> s)"

text \<open>One task of a prefetch \<^verbatim>\<open>worker\<close>, with a buffer from the pool.\<close>

definition cas_worker :: "'c ristretto \<Rightarrow> (gslice list \<Rightarrow> nat option) \<Rightarrow> int \<Rightarrow> 'c cas \<Rightarrow> ('c cas \<times> unit res) option" where
  "cas_worker R pick now s =
     (case workQueue (cas_prefetcher s) of
        [] \<Rightarrow> None
      | t # q \<Rightarrow>
          (let s0 = s\<lparr>cas_prefetcher := (cas_prefetcher s)\<lparr>workQueue := q\<rparr>\<rparr>;
               (s1, ex) = cas_Exists R s0 (pt_hash t)
           in if \<not> ex then Some (s1, Ok ())
              else
                (case bp_Get pick (cas_bufferPool s1) (pt_length t) of
                   (bp, Ok dst) \<Rightarrow>
                     (let (s2, arr, r) = cas_Get R now (s1\<lparr>cas_bufferPool := bp\<rparr>) (pt_hash t) (pt_offset t)
                                           (pt_length t) (sl_arr dst)
                      in Some (s2\<lparr>cas_bufferPool := bp_Put (cas_bufferPool s2) (Some (dst\<lparr>sl_arr := arr\<rparr>))\<rparr>,
                               if r = Panic then Panic else Ok ()))
                 | (bp, _) \<Rightarrow> Some (s1\<lparr>cas_bufferPool := bp\<rparr>, Panic))))"

end
