(* ===== verification/Cas_Correct.thy ===== *)
theory Cas_Correct
  imports Cas_Storage
begin

text \<open>
  Correctness of the content-addressable storage. The specification is a map from hashes to contents:
  everything in the memory cache and in the cache directory is a chunk of the content of its hash, or
  (after a write that stopped half-way) a prefix of one. Under this invariant \<^verbatim>\<open>Get\<close> never returns a
  wrong byte, whatever the cache evicts; with the chunk files in place it returns exactly the requested
  range.
\<close>

subsection \<open>What is relied on from the memory cache\<close>

text \<open>
  The documented behaviour of ristretto: a cache may drop any entry at any time and may ignore a
  \<^verbatim>\<open>Set\<close>, but it never invents an entry or a value. \<open>view\<close> is the set of entries a lookup can find.
\<close>

definition ristretto_contract :: "'c ristretto \<Rightarrow> ('c \<Rightarrow> string \<Rightarrow> cache_item option) \<Rightarrow> bool" where
  "ristretto_contract R view \<longleftrightarrow>
     (\<forall>c k c' r. rc_Get R c k = (c', r) \<longrightarrow> view c' \<subseteq>\<^sub>m view c \<and> (\<forall>v. r = Some v \<longrightarrow> view c k = Some v)) \<and>
     (\<forall>c k c' b. rc_GetTTL R c k = (c', b) \<longrightarrow> view c' \<subseteq>\<^sub>m view c) \<and>
     (\<forall>c k v n c' b k' w. rc_Set R c k v n = (c', b) \<longrightarrow> view c' k' = Some w \<longrightarrow>
        (k' = k \<and> w = v) \<or> view c k' = Some w) \<and>
     (\<forall>c k v n t c' b k' w. rc_SetWithTTL R c k v n t = (c', b) \<longrightarrow> view c' k' = Some w \<longrightarrow>
        (k' = k \<and> w = v) \<or> view c k' = Some w) \<and>
     (\<forall>c k t. view (rc_ResetTTL R c k t) \<subseteq>\<^sub>m view c) \<and>
     (\<forall>c k. view (rc_Del R c k) \<subseteq>\<^sub>m (view c)(k := None))"

lemmas contract_dest = ristretto_contract_def [THEN iffD1]

lemma contract_Get:
  assumes "ristretto_contract R view" "rc_Get R c k = (c', r)"
  shows "view c' \<subseteq>\<^sub>m view c" and "r = Some v \<Longrightarrow> view c k = Some v"
  using contract_dest [OF assms(1), THEN conjunct1, rule_format, OF assms(2)] by simp_all

lemma contract_GetTTL:
  assumes "ristretto_contract R view" "rc_GetTTL R c k = (c', b)"
  shows "view c' \<subseteq>\<^sub>m view c"
  using contract_dest [OF assms(1), THEN conjunct2, THEN conjunct1, rule_format, OF assms(2)] .

lemma contract_Set:
  assumes "ristretto_contract R view" "rc_Set R c k v n = (c', b)" "view c' k' = Some w"
  shows "(k' = k \<and> w = v) \<or> view c k' = Some w"
  using contract_dest [OF assms(1), THEN conjunct2, THEN conjunct2, THEN conjunct1, rule_format,
      OF assms(2,3)] .

lemma contract_SetWithTTL:
  assumes "ristretto_contract R view" "rc_SetWithTTL R c k v n t = (c', b)" "view c' k' = Some w"
  shows "(k' = k \<and> w = v) \<or> view c k' = Some w"
  using contract_dest [OF assms(1), THEN conjunct2, THEN conjunct2, THEN conjunct2, THEN conjunct1,
      rule_format, OF assms(2,3)] .

lemma contract_ResetTTL: "ristretto_contract R view \<Longrightarrow> view (rc_ResetTTL R c k t) \<subseteq>\<^sub>m view c"
  by (simp add: ristretto_contract_def)

lemma contract_Del: "ristretto_contract R view \<Longrightarrow> view (rc_Del R c k) \<subseteq>\<^sub>m (view c)(k := None)"
  by (simp add: ristretto_contract_def)

lemma map_leD: "m \<subseteq>\<^sub>m m' \<Longrightarrow> m k = Some v \<Longrightarrow> m' k = Some v"
  unfolding map_le_def by (metis domI)

subsection \<open>Hashes and chunk names\<close>

definition is_hex :: "char \<Rightarrow> bool" where
  "is_hex c \<longleftrightarrow> c \<in> set ''0123456789abcdef''"

text \<open>A content hash: a non-empty string of hexadecimal digits, as \<^verbatim>\<open>hex.EncodeToString\<close> prints it.\<close>

definition hex_name :: "string \<Rightarrow> bool" where
  "hex_name h \<longleftrightarrow> h \<noteq> [] \<and> list_all is_hex h"

lemma hex_nameD: "hex_name h \<Longrightarrow> \<not> is_hex c \<Longrightarrow> c \<notin> set h"
  unfolding hex_name_def list_all_iff by blast

lemma hex_name_free [simp]:
  "hex_name h \<Longrightarrow> CHR ''-'' \<notin> set h" "hex_name h \<Longrightarrow> CHR ''/'' \<notin> set h"
  "hex_name h \<Longrightarrow> CHR ''.'' \<notin> set h" "hex_name h \<Longrightarrow> CHR '','' \<notin> set h"
  by (erule hex_nameD, simp add: is_hex_def)+

lemma hex_plain [simp]: "hex_name h \<Longrightarrow> plain_name h"
proof -
  assume h: "hex_name h"
  have "h \<noteq> ''.''" and "h \<noteq> ''..''" using hex_name_free(3) [OF h] by auto
  with h show ?thesis by (simp add: plain_name_def hex_name_def)
qed

lemma chunk_key_chars: "c \<in> set (chunk_key h i) \<Longrightarrow> c \<in> set h \<or> c = CHR ''-'' \<or> is_digit c"
  unfolding chunk_key_def by (auto dest: itoa_chars)

lemma chunk_key_plain [simp]:
  assumes "hex_name h"
  shows "plain_name (chunk_key h i)"
proof -
  have "CHR ''-'' \<in> set (chunk_key h i)" by (simp add: chunk_key_def)
  then have "chunk_key h i \<noteq> ''.''" "chunk_key h i \<noteq> ''..''" "chunk_key h i \<noteq> []" by auto
  moreover have "CHR ''/'' \<notin> set (chunk_key h i)"
    using chunk_key_chars [of "CHR ''/''" h i] assms by (auto simp: is_digit_def)
  ultimately show ?thesis by (simp add: plain_name_def)
qed

lemma chunk_key_inj:
  assumes "hex_name h" "hex_name h'"
  shows "chunk_key h i = chunk_key h' j \<longleftrightarrow> h = h' \<and> i = j"
proof
  assume eq: "chunk_key h i = chunk_key h' j"
  have "h = h'"
    using arg_cong [OF eq, of "before_char CHR ''-''"] assms by (simp add: chunk_key_def before_char_append)
  with eq show "h = h' \<and> i = j" by (simp add: chunk_key_def itoa_inj)
qed simp

lemma chunk_key_not_hex: "\<not> hex_name (chunk_key h i)"
proof
  assume "hex_name (chunk_key h i)"
  then have "CHR ''-'' \<notin> set (chunk_key h i)" by simp
  then show False by (simp add: chunk_key_def)
qed

definition chunk_path :: "string \<Rightarrow> string \<Rightarrow> int \<Rightarrow> string" where
  "chunk_path d h i = filepath_Join [d, h, chunk_key h i]"

lemma chunk_path_render:
  "d \<noteq> [] \<Longrightarrow> hex_name h \<Longrightarrow> chunk_path d h i = render (rooted d) (elements d @ [h, chunk_key h i])"
  unfolding chunk_path_def by (rule Join_plain) auto

lemma chunk_path_inj:
  assumes "d \<noteq> []" "hex_name h" "hex_name h'"
  shows "chunk_path d h i = chunk_path d h' j \<longleftrightarrow> h = h' \<and> i = j"
proof
  assume "chunk_path d h i = chunk_path d h' j"
  then have "elements d @ [h, chunk_key h i] = elements d @ [h', chunk_key h' j]"
    using assms by (intro render_inj [where r = "rooted d"])
      (auto simp: chunk_path_render intro!: normal_append)
  then show "h = h' \<and> i = j" using assms by (auto simp: chunk_key_inj)
qed simp

text \<open>\<^verbatim>\<open>Add\<close> joins the chunk key to the joined directory path; \<^verbatim>\<open>Get\<close> joins all three at once.\<close>

lemma Join_dir_chunk:
  assumes "d \<noteq> []" "hex_name h"
  shows "filepath_Join [filepath_Join [d, h], chunk_key h i] = chunk_path d h i"
proof -
  have dir: "filepath_Join [d, h] = render (rooted d) (elements d @ [h])"
    using assms by (intro Join_plain) auto
  have n: "normal (rooted d) (elements d @ [h])" using assms by (auto intro!: normal_append)
  have "filepath_Join [filepath_Join [d, h], chunk_key h i]
      = render (rooted d) ((elements d @ [h]) @ [chunk_key h i])"
    using Join_plain [of "filepath_Join [d, h]" "[chunk_key h i]"] assms
      rooted_render [OF n] elements_render [OF n] by (simp add: dir)
  then show ?thesis using assms by (simp add: chunk_path_render)
qed

subsection \<open>The invariant\<close>

text \<open>
  \<open>C\<close> maps each hash that has been added to its content. \<open>P\<close> relates what is stored to the chunk it
  stands for (a chunk inside the content): equality, or \<open>prefix\<close> when writes may have stopped half-way.
\<close>

definition stored :: "(bytes \<Rightarrow> bytes \<Rightarrow> bool) \<Rightarrow> nat \<Rightarrow> bytes \<Rightarrow> nat \<Rightarrow> bytes \<Rightarrow> bool" where
  "stored P p c i b \<longleftrightarrow> i * p < length c \<and> P b (chunk p i c)"

definition nchunks :: "nat \<Rightarrow> nat \<Rightarrow> nat" where
  "nchunks p L = (L + p - 1) div p"

lemma less_nchunks: "0 < p \<Longrightarrow> i < nchunks p L \<longleftrightarrow> i * p < L"
  unfolding nchunks_def by (simp add: less_eq_div_iff_mult_less_eq flip: Suc_le_eq) linarith

text \<open>The entry of an object: its chunk keys in order.\<close>

definition object_keys :: "nat \<Rightarrow> string \<Rightarrow> bytes \<Rightarrow> string list" where
  "object_keys p h c = map (\<lambda>j. chunk_key h (int j)) [0..<nchunks p (length c)]"

definition item_ok :: "(bytes \<Rightarrow> bytes \<Rightarrow> bool) \<Rightarrow> nat \<Rightarrow> (string \<Rightarrow> bytes option) \<Rightarrow> string \<Rightarrow> cache_item \<Rightarrow> bool" where
  "item_ok P p C k v \<longleftrightarrow>
     (case v of
        CacheValue h b \<Rightarrow> (\<exists>c i. C h = Some c \<and> k = chunk_key h (int i) \<and> stored P p c i b)
      | ChunkKeys ks \<Rightarrow> (\<exists>c. C k = Some c \<and> ks = join_with CHR '','' (object_keys p k c)))"

lemma item_ok_mono:
  assumes "item_ok P p C k v" "\<And>x y. C x = Some y \<Longrightarrow> C' x = Some y"
  shows "item_ok P p C' k v"
proof (cases v)
  case (CacheValue h b)
  with assms(1) show ?thesis by (auto simp: item_ok_def dest: assms(2))
next
  case (ChunkKeys ks)
  with assms(1) show ?thesis by (auto simp: item_ok_def dest: assms(2))
qed

definition cas_inv :: "(bytes \<Rightarrow> bytes \<Rightarrow> bool) \<Rightarrow> 'c ristretto \<Rightarrow> ('c \<Rightarrow> string \<Rightarrow> cache_item option)
    \<Rightarrow> (string \<Rightarrow> bytes option) \<Rightarrow> 'c cas \<Rightarrow> bool" where
  "cas_inv P R view C s \<longleftrightarrow>
     ristretto_contract R view \<and> 0 < page s \<and> page s < 2 ^ 62 \<and> cas_diskCacheDir s \<noteq> [] \<and>
     (\<forall>h c. C h = Some c \<longrightarrow> hex_name h \<and> int (length c) < 2 ^ 62) \<and>
     (\<forall>k v. view (cas_cache s) k = Some v \<longrightarrow> item_ok P (nat (page s)) C k v) \<and>
     (\<forall>h i b. hex_name h \<longrightarrow> fs_nodes (cas_fs s) (chunk_path (cas_diskCacheDir s) h i) = Some (File b) \<longrightarrow>
        0 \<le> i \<and> (\<exists>c. C h = Some c \<and> stored P (nat (page s)) c (nat i) b))"

lemma cas_invD:
  assumes "cas_inv P R view C s"
  shows "ristretto_contract R view" "0 < page s" "page s < 2 ^ 62" "cas_diskCacheDir s \<noteq> []"
    and "C h = Some c \<Longrightarrow> hex_name h" and "C h = Some c \<Longrightarrow> int (length c) < 2 ^ 62"
    and "view (cas_cache s) k = Some v \<Longrightarrow> item_ok P (nat (page s)) C k v"
    and "hex_name h \<Longrightarrow> fs_nodes (cas_fs s) (chunk_path (cas_diskCacheDir s) h i) = Some (File b) \<Longrightarrow>
       0 \<le> i \<and> (\<exists>c. C h = Some c \<and> stored P (nat (page s)) c (nat i) b)"
  using assms by (simp_all add: cas_inv_def)

lemma cas_inv_frame [simp]:
  "cas_inv P R view C (s\<lparr>cas_metrics := m\<rparr>) = cas_inv P R view C s"
  "cas_inv P R view C (s\<lparr>cas_prefetcher := pf\<rparr>) = cas_inv P R view C s"
  "cas_inv P R view C (s\<lparr>cas_bufferPool := bp\<rparr>) = cas_inv P R view C s"
  "cas_inv P R view C (s\<lparr>cas_diskCachedUsageExceeded := x\<rparr>) = cas_inv P R view C s"
  by (simp_all add: cas_inv_def)

lemma cas_inv_cache:
  assumes "cas_inv P R view C s" "view c' \<subseteq>\<^sub>m view (cas_cache s)"
  shows "cas_inv P R view C (s\<lparr>cas_cache := c'\<rparr>)"
proof -
  have "item_ok P (nat (page s)) C k v" if "view c' k = Some v" for k v
    using cas_invD(7) [OF assms(1) map_leD [OF assms(2) that]] .
  with assms(1) show ?thesis by (simp add: cas_inv_def)
qed

lemma cas_inv_put:
  assumes "cas_inv P R view C s" "item_ok P (nat (page s)) C k0 v0"
    and "\<And>k w. view c' k = Some w \<Longrightarrow> (k = k0 \<and> w = v0) \<or> view (cas_cache s) k = Some w"
  shows "cas_inv P R view C (s\<lparr>cas_cache := c'\<rparr>)"
proof -
  have "item_ok P (nat (page s)) C k v" if "view c' k = Some v" for k v
    using assms(3) [OF that] assms(2) cas_invD(7) [OF assms(1)] by blast
  with assms(1) show ?thesis by (simp add: cas_inv_def)
qed

text \<open>What the reading operations leave alone.\<close>

definition same_disk :: "'c cas \<Rightarrow> 'c cas \<Rightarrow> bool" where
  "same_disk s s' \<longleftrightarrow> cas_fs s' = cas_fs s \<and> cas_serverConfig s' = cas_serverConfig s \<and>
     cas_diskCacheDir s' = cas_diskCacheDir s \<and> cas_diskCachedUsageExceeded s' = cas_diskCachedUsageExceeded s"

lemma same_disk_simps [simp]:
  "same_disk s s"
  "same_disk s (s'\<lparr>cas_cache := c\<rparr>) = same_disk s s'"
  "same_disk s (s'\<lparr>cas_metrics := m\<rparr>) = same_disk s s'"
  "same_disk s (s'\<lparr>cas_prefetcher := pf\<rparr>) = same_disk s s'"
  "same_disk s (s'\<lparr>cas_bufferPool := bp\<rparr>) = same_disk s s'"
  "same_disk (s\<lparr>cas_cache := c\<rparr>) s' = same_disk s s'"
  "same_disk (s\<lparr>cas_metrics := m\<rparr>) s' = same_disk s s'"
  "same_disk (s\<lparr>cas_prefetcher := pf\<rparr>) s' = same_disk s s'"
  "same_disk (s\<lparr>cas_bufferPool := bp\<rparr>) s' = same_disk s s'"
  by (simp_all add: same_disk_def)

lemma same_disk_trans: "same_disk s s1 \<Longrightarrow> same_disk s1 s2 \<Longrightarrow> same_disk s s2"
  by (simp add: same_disk_def)

lemma ReadFile_nodes: "os_ReadFile f p = Some b \<Longrightarrow> fs_nodes f p = Some (File b)"
  by (auto simp: os_ReadFile_def split: option.splits fs_node.splits if_splits)

subsection \<open>Reading one chunk\<close>

text \<open>A chunk found for a hash is (related by \<open>P\<close> to) that chunk of the content of the hash.\<close>

definition chunk_value :: "(bytes \<Rightarrow> bytes \<Rightarrow> bool) \<Rightarrow> nat \<Rightarrow> (string \<Rightarrow> bytes option) \<Rightarrow> string \<Rightarrow> int \<Rightarrow> cache_item \<Rightarrow> bool" where
  "chunk_value P p C h i v \<longleftrightarrow>
     (\<exists>b c. v = CacheValue h b \<and> C h = Some c \<and> 0 \<le> i \<and> stored P p c (nat i) b)"

lemma item_ok_chunk_value:
  assumes "item_ok P p C (chunk_key h i) v" "hex_name h" "\<And>k c. C k = Some c \<Longrightarrow> hex_name k"
  shows "chunk_value P p C h i v"
proof (cases v)
  case (CacheValue h' b)
  then obtain c j where c: "C h' = Some c" "chunk_key h i = chunk_key h' (int j)" "stored P p c j b"
    using assms(1) by (auto simp: item_ok_def)
  then have "h' = h" "i = int j" using chunk_key_inj assms(2,3) by blast+
  with c CacheValue show ?thesis by (auto simp: chunk_value_def)
next
  case (ChunkKeys ks)
  then obtain c where "C (chunk_key h i) = Some c" using assms(1) by (auto simp: item_ok_def)
  then show ?thesis using assms(3) chunk_key_not_hex by blast
qed

lemma chunk_value_item_ok: "chunk_value P p C h i v \<Longrightarrow> item_ok P p C (chunk_key h i) v"
  by (auto simp: chunk_value_def item_ok_def intro!: exI [of _ "nat i"])

lemma cache_lookup:
  assumes "cas_inv P R view C s" "hex_name h" "rc_Get R (cas_cache s) (chunk_key h i) = (c1, r)"
  shows "cas_inv P R view C (s\<lparr>cas_cache := c1\<rparr>)"
    and "r = Some v \<Longrightarrow> chunk_value P (nat (page s)) C h i v"
proof -
  note g = contract_Get [OF cas_invD(1) [OF assms(1)] assms(3)]
  show "cas_inv P R view C (s\<lparr>cas_cache := c1\<rparr>)" using assms(1) g(1) by (rule cas_inv_cache)
  assume "r = Some v"
  then have "item_ok P (nat (page s)) C (chunk_key h i) v" using g(2) cas_invD(7) [OF assms(1)] by blast
  then show "chunk_value P (nat (page s)) C h i v"
    using item_ok_chunk_value assms(2) cas_invD(5) [OF assms(1)] by blast
qed

lemma getFromDiskCache_spec:
  assumes "cas_inv P R view C s" "hex_name h" "getFromDiskCache R s h (chunk_key h i) = (s', r)"
  shows "cas_inv P R view C s' \<and> same_disk s s' \<and> r \<noteq> Panic \<and>
    (\<forall>v. r = Ok v \<longrightarrow> chunk_value P (nat (page s)) C h i v)"
proof -
  obtain c1 l where g: "rc_Get R (cas_cache s) (chunk_key h i) = (c1, l)" by (rule prod.exhaust)
  note look = cache_lookup [OF assms(1,2) g]
  show ?thesis
  proof (cases l)
    case (Some v)
    then obtain b where v: "v = CacheValue h b" using look(2) by (auto simp: chunk_value_def)
    with Some g assms(3) look show ?thesis by (auto simp: getFromDiskCache_def)
  next
    case None
    show ?thesis
    proof (cases "os_ReadFile (cas_fs s) (chunk_path (cas_diskCacheDir s) h i)")
      case None
      with \<open>l = None\<close> g assms(3) look show ?thesis by (auto simp: getFromDiskCache_def chunk_path_def)
    next
      case (Some b)
      obtain c2 ok where set: "rc_Set R c1 (chunk_key h i) (CacheValue h b) (int (length b)) = (c2, ok)"
        by (rule prod.exhaust)
      have s': "s' = s\<lparr>cas_cache := c2\<rparr>" "r = Ok (CacheValue h b)"
        using Some \<open>l = None\<close> g assms(3) set by (auto simp: getFromDiskCache_def chunk_path_def Let_def)
      have cv: "chunk_value P (nat (page s)) C h i (CacheValue h b)"
        using cas_invD(8) [OF assms(1,2) ReadFile_nodes [OF Some]] by (auto simp: chunk_value_def)
      have "cas_inv P R view C (s\<lparr>cas_cache := c1, cas_cache := c2\<rparr>)"
        by (rule cas_inv_put [OF look(1)])
          (use chunk_value_item_ok [OF cv] contract_Set [OF cas_invD(1) [OF assms(1)] set] in auto)
      with s' cv show ?thesis by simp
    qed
  qed
qed

lemma get_chunk_spec:
  assumes "cas_inv P R view C s" "hex_name h" "get_chunk R s h (chunk_key h i) = (s', fm, r)"
  shows "cas_inv P R view C s' \<and> same_disk s s' \<and> r \<noteq> Panic \<and>
    (\<forall>v. r = Ok v \<longrightarrow> chunk_value P (nat (page s)) C h i v)"
proof -
  obtain c1 l where g: "rc_Get R (cas_cache s) (chunk_key h i) = (c1, l)" by (rule prod.exhaust)
  note look = cache_lookup [OF assms(1,2) g]
  show ?thesis
  proof (cases l)
    case (Some v)
    with g assms(3) look show ?thesis by (auto simp: get_chunk_def)
  next
    case None
    obtain s2 r2 where d: "getFromDiskCache R (s\<lparr>cas_cache := c1\<rparr>) h (chunk_key h i) = (s2, r2)"
      by (rule prod.exhaust)
    note disk = getFromDiskCache_spec [OF look(1) assms(2) d]
    show ?thesis using assms(3) g None d disk by (cases r2) (auto simp: get_chunk_def)
  qed
qed

subsection \<open>The read loop\<close>

lemma page_same: "same_disk s s' \<Longrightarrow> page s' = page s"
  by (simp add: same_disk_def)

lemma inv_page_nat:
  assumes "cas_inv P R view C s"
  shows "page s = int (nat (page s))" "0 < nat (page s)"
  using cas_invD(2) [OF assms] by simp_all

lemma stored_length:
  assumes "stored P p c i b" "\<And>x y. P x y \<Longrightarrow> prefix x y"
  shows "length b \<le> p" "i * p + length b \<le> length c"
proof -
  have "length b \<le> length (chunk p i c)" "i * p < length c"
    using assms prefix_length_le by (auto simp: stored_def)
  then show "length b \<le> p" "i * p + length b \<le> length c" by (auto simp: length_chunk)
qed

text \<open>One iteration of the loop, for a nonnegative offset: a miss, a chunk that ends before the offset,
  or a copy of \<open>n > 0\<close> bytes.\<close>

lemma get_loop_cases:
  assumes inv: "cas_inv P R view C s" and hex: "hex_name h" and P: "\<And>x y. P x y \<Longrightarrow> prefix x y"
    and r: "0 < r" and room: "d + r \<le> length dst" and p: "p = nat (page s)"
  obtains
    (miss) s1 fm e where "get_chunk R s h (chunk_key h (int (o1 div p))) = (s1, fm, Err e)"
      "get_loop R h s (int o1) (int r) dst (int d) = (s1, dst, Err ErrContentNotFound)"
  | (stop) s1 fm b c where "get_chunk R s h (chunk_key h (int (o1 div p))) = (s1, fm, Ok (CacheValue h b))"
      "C h = Some c" "stored P p c (o1 div p) b" "length b \<le> o1 mod p"
      "get_loop R h s (int o1) (int r) dst (int d) = (s1, dst, Ok (int d))"
  | (step) s1 fm b c n m where "get_chunk R s h (chunk_key h (int (o1 div p))) = (s1, fm, Ok (CacheValue h b))"
      "C h = Some c" "stored P p c (o1 div p) b" "n = min r (length b - o1 mod p)" "0 < n"
      "get_loop R h s (int o1) (int r) dst (int d) =
         get_loop R h (s1\<lparr>cas_metrics := m\<rparr>) (int (o1 + n)) (int (r - n))
           (copy_at dst d (take n (drop (o1 mod p) b))) (int (d + n))"
proof -
  note pg = inv_page_nat [OF inv, folded p]
  obtain s1 fm v where g: "get_chunk R s h (chunk_key h (int (o1 div p))) = (s1, fm, v)"
    by (rule prod_cases3)
  note spec = get_chunk_spec [OF inv hex g, folded p]
  have sd: "int o1 sdiv page s = int (o1 div p)" "int o1 smod page s = int (o1 mod p)"
    using pg by (simp_all add: sdiv_nonneg smod_nonneg zdiv_int zmod_int del: of_nat_nat int_nat_eq)
  note unf = get_loop.simps [of R h s "int o1" "int r" dst "int d", unfolded sd]
  have pz: "page s \<noteq> 0" using cas_invD(2) [OF inv] by simp
  show thesis
  proof (cases v)
    case Panic
    then show ?thesis using spec by simp
  next
    case (Err e)
    then show ?thesis using miss g r pz by (simp add: unf)
  next
    case (Ok w)
    then obtain b c where w: "w = CacheValue h b" and c: "C h = Some c" and st: "stored P p c (o1 div p) b"
      using spec by (auto simp: chunk_value_def)
    note lens = stored_length [OF st P]
    have "int (length c) < 2 ^ 62" using cas_invD(6) [OF inv c] .
    moreover have "o1 mod p < p" using pg by simp
    moreover have "int p < 2 ^ 62" using cas_invD(3) [OF inv] pg by simp
    ultimately have in1: "wrap64 (int (length b) - int (o1 mod p)) = int (length b) - int (o1 mod p)"
      using lens(1) by (intro wrap64_id) (simp add: in64_def)
    show ?thesis
    proof (cases "length b \<le> o1 mod p")
      case True
      then show ?thesis using stop [OF _ c st] g Ok w r pz by (simp add: unf in1)
    next
      case False
      define n where "n = min r (length b - o1 mod p)"
      have n: "0 < n" "n \<le> r" "o1 mod p + n \<le> length b" using False r by (auto simp: n_def)
      have mn: "min (int r) (int (length b) - int (o1 mod p)) = int n" using False by (auto simp: n_def)
      have "o1 + n \<le> length c"
        using n(3) lens(2) div_mult_mod_eq [of o1 p] by linarith
      then have in2: "wrap64 (int (o1 mod p) + int n) = int (o1 mod p) + int n"
        "wrap64 (int o1 + int n) = int o1 + int n"
        using \<open>int (length c) < 2 ^ 62\<close> n lens by (auto intro!: wrap64_id in64I)
      have "get_loop R h s (int o1) (int r) dst (int d) =
         get_loop R h (s1\<lparr>cas_metrics := count_read fm (int n) (cas_metrics s1)\<rparr>) (int (o1 + n)) (int (r - n))
           (copy_at dst d (take n (drop (o1 mod p) b))) (int (d + n))"
        using False g Ok w r pz n room by (simp add: unf in1 in2 mn of_nat_diff Let_def)
      then show ?thesis using step [OF _ c st n_def n(1)] g Ok w by blast
    qed
  qed
qed

text \<open>What the loop returns, whatever the cache drops meanwhile: never a panic, and on success a run of
  bytes of the content starting at the offset.\<close>

definition read_ok :: "(string \<Rightarrow> bytes option) \<Rightarrow> string \<Rightarrow> nat \<Rightarrow> nat \<Rightarrow> bytes \<Rightarrow> nat \<Rightarrow> bytes \<Rightarrow> int \<Rightarrow> bool" where
  "read_ok C h o1 r dst d dst' n \<longleftrightarrow>
     (\<exists>bs. n = int (d + length bs) \<and> length bs \<le> r \<and> dst' = copy_at dst d bs \<and>
        (bs \<noteq> [] \<longrightarrow> (\<exists>c. C h = Some c \<and> prefix bs (drop o1 c))))"

lemma read_okI:
  "length bs \<le> r \<Longrightarrow> (bs \<noteq> [] \<Longrightarrow> C h = Some c \<and> prefix bs (drop o1 c)) \<Longrightarrow>
   read_ok C h o1 r dst d (copy_at dst d bs) (int (d + length bs))"
  unfolding read_ok_def by blast

lemma read_ok_Nil: "read_ok C h o1 r dst d dst (int d)"
  using read_okI [of "[]" r C h undefined o1 dst d] by simp

lemma read_ok_step:
  assumes c: "C h = Some c" and a: "prefix a (drop o1 c)" "length a = n" "n \<le> r" and room: "d + r \<le> length dst"
    and rest: "read_ok C h (o1 + n) (r - n) (copy_at dst d a) (d + n) dst' k"
  shows "read_ok C h o1 r dst d dst' k"
proof -
  obtain bs where bs: "k = int (d + n + length bs)" "length bs \<le> r - n"
    "dst' = copy_at (copy_at dst d a) (d + n) bs"
    "bs \<noteq> [] \<Longrightarrow> prefix bs (drop (o1 + n) c)"
    using rest c unfolding read_ok_def by auto
  have "prefix (a @ bs) (drop o1 c)"
  proof (cases "bs = []")
    case True
    with a show ?thesis by simp
  next
    case False
    with a bs(4) show ?thesis using prefix_drop_append [of a o1 c bs] by simp
  qed
  moreover have "dst' = copy_at dst d (a @ bs)"
    using copy_at_copy_at [of d a bs dst] a bs room by simp
  ultimately have "read_ok C h o1 r dst d dst' (int (d + length (a @ bs)))"
    using read_okI [of "a @ bs" r C h c o1 dst d] c a bs by simp
  then show ?thesis using bs(1) a(2) by (simp add: ac_simps)
qed

lemma get_loop_spec:
  assumes P: "\<And>x y. P x y \<Longrightarrow> prefix x y" and hex: "hex_name h"
  shows "cas_inv P R view C s \<Longrightarrow> d + r \<le> length dst \<Longrightarrow>
    get_loop R h s (int o1) (int r) dst (int d) = (s', dst', res) \<Longrightarrow>
    cas_inv P R view C s' \<and> same_disk s s' \<and> res \<noteq> Panic \<and> length dst' = length dst \<and>
    (\<forall>n. res = Ok n \<longrightarrow> read_ok C h o1 r dst d dst' n)"
proof (induction r arbitrary: s o1 dst d rule: less_induct)
  case (less r)
  show ?case
  proof (cases "r = 0")
    case True
    then have "s' = s \<and> dst' = dst \<and> res = Ok (int d)" using less.prems(3) by (simp add: get_loop.simps)
    with less.prems(1) show ?thesis by (simp add: read_ok_Nil)
  next
    case False
    define p where "p = nat (page s)"
    have "0 < r" using False by simp
    show ?thesis
    proof (rule get_loop_cases [OF less.prems(1) hex P \<open>0 < r\<close> less.prems(2) p_def, of o1], assumption, goal_cases)
      case miss: (1 s1 fm e)
      then show ?thesis using less.prems get_chunk_spec [OF less.prems(1) hex miss(1)] by simp
    next
      case stop: (2 s1 fm b c)
      then show ?thesis using less.prems get_chunk_spec [OF less.prems(1) hex stop(1)] by (auto simp: read_ok_Nil)
    next
      case step: (3 s1 fm b c n m)
      define a where "a = take n (drop (o1 mod p) b)"
      have n: "n \<le> r" "length a = n" using step(4) by (auto simp: a_def)
      have pre: "prefix a (drop o1 c)"
        unfolding a_def by (rule prefix_chunk) (use step(3) P in \<open>simp add: stored_def\<close>)
      note g = get_chunk_spec [OF less.prems(1) hex step(1)]
      have len: "length (copy_at dst d a) = length dst" using n less.prems(2) by simp
      have "cas_inv P R view C s' \<and> same_disk (s1\<lparr>cas_metrics := m\<rparr>) s' \<and> res \<noteq> Panic \<and>
          length dst' = length (copy_at dst d a) \<and>
          (\<forall>k. res = Ok k \<longrightarrow> read_ok C h (o1 + n) (r - n) (copy_at dst d a) (d + n) dst' k)"
        by (rule less.IH) (use g n len step(5,6) less.prems in \<open>auto simp: a_def\<close>)
      with g len show ?thesis
        using read_ok_step [where C = C and h = h, OF step(2) pre n(2,1) less.prems(2)] same_disk_trans [of s s1 s'] by auto
    qed
  qed
qed

subsection \<open>Get\<close>

lemma cas_Get_loop:
  assumes "cas_inv P R view C s"
  obtains s2 where "cas_inv P R view C s2" "same_disk s s2"
    "cas_Get R now s h off len dst =
       (case get_loop R h s2 off len dst 0 of
          (s3, dst', r) \<Rightarrow> (s3\<lparr>cas_metrics := updateHitRatios (cas_metrics s3)\<rparr>, dst', r))"
proof -
  define s2 where "s2 = s\<lparr>cas_metrics := (cas_metrics s)\<lparr>TotalReads := TotalReads (cas_metrics s) + 1\<rparr>,
      cas_prefetcher := OnRead now (cas_prefetcher s) h off len,
      cas_cache := rc_ResetTTL R (cas_cache s) h (objectTtl s)\<rparr>"
  have "view (rc_ResetTTL R (cas_cache s) h (objectTtl s)) \<subseteq>\<^sub>m view (cas_cache s)"
    using contract_ResetTTL [OF cas_invD(1) [OF assms]] .
  then have "cas_inv P R view C s2"
    unfolding s2_def using assms by (intro cas_inv_cache) simp_all
  moreover have "same_disk s s2" by (simp add: s2_def)
  ultimately show thesis by (rule that) (simp add: cas_Get_def s2_def Let_def)
qed

lemma cas_Get_spec:
  assumes P: "\<And>x y. P x y \<Longrightarrow> prefix x y" and hex: "hex_name h" and inv: "cas_inv P R view C s"
    and len: "len \<le> length dst" and g: "cas_Get R now s h (int off) (int len) dst = (s', dst', res)"
  shows "cas_inv P R view C s' \<and> same_disk s s' \<and> res \<noteq> Panic \<and> length dst' = length dst \<and>
    (\<forall>n. res = Ok n \<longrightarrow> read_ok C h off len dst 0 dst' n)"
proof -
  obtain s2 where s2: "cas_inv P R view C s2" "same_disk s s2"
    "cas_Get R now s h (int off) (int len) dst =
       (case get_loop R h s2 (int off) (int len) dst 0 of
          (s3, dst', r) \<Rightarrow> (s3\<lparr>cas_metrics := updateHitRatios (cas_metrics s3)\<rparr>, dst', r))"
    using cas_Get_loop [OF inv] by blast
  obtain s3 dst3 r where l: "get_loop R h s2 (int off) (int len) dst 0 = (s3, dst3, r)" by (rule prod_cases3)
  have "cas_inv P R view C s3 \<and> same_disk s2 s3 \<and> r \<noteq> Panic \<and> length dst3 = length dst \<and>
    (\<forall>n. r = Ok n \<longrightarrow> read_ok C h off len dst 0 dst3 n)"
    using get_loop_spec [OF P hex s2(1), where d = 0 and r = len] len l by simp
  with s2 l g same_disk_trans [of s s2 s3] show ?thesis by auto
qed

text \<open>Outside the nonnegative offsets: a read at a negative offset is an error.\<close>

lemma get_loop_negative:
  assumes inv: "cas_inv P R view C s" and hex: "hex_name h" and neg: "off < 0" and len: "0 < len"
    and P: "\<And>x y. P x y \<Longrightarrow> prefix x y"
    and l: "get_loop R h s off len dst 0 = (s', dst', res)"
  shows "\<exists>e. res = Err e" and "dst' = dst" and "cas_inv P R view C s'" and "same_disk s s'"
proof -
  have pz: "0 < page s" "page s < 2 ^ 62" "page s \<noteq> 0" using cas_invD(2,3) [OF inv] by simp_all
  obtain s1 fm v where g: "get_chunk R s h (chunk_key h (off sdiv page s)) = (s1, fm, v)"
    by (rule prod_cases3)
  note spec = get_chunk_spec [OF inv hex g]
  have "(\<exists>e. res = Err e) \<and> dst' = dst \<and> s' = s1"
  proof (cases v)
    case Panic
    then show ?thesis using spec by simp
  next
    case (Err e)
    then show ?thesis using l len pz g by (auto simp: get_loop.simps [of R h s off len])
  next
    case (Ok w)
    then obtain b c where w: "w = CacheValue h b" "C h = Some c" "0 \<le> off sdiv page s"
      "stored P (nat (page s)) c (nat (off sdiv page s)) b"
      using spec by (auto simp: chunk_value_def)
    have sd: "off sdiv page s = - ((- off) div page s)" "off smod page s = - ((- off) mod page s)"
      using neg pz by (simp_all add: signed_divide_int_def signed_modulo_int_def sgn_if)
    have "(- off) div page s = 0"
      using w(3) neg pz pos_imp_zdiv_nonneg_iff [of "page s" "- off"] unfolding sd by linarith
    then have m: "off smod page s = off" "- off < page s"
      using sd(2) div_mult_mod_eq [of "- off" "page s"] pos_mod_bound [OF pz(1), of "- off"] by simp_all
    have "wrap64 (int (length b) - off) = int (length b) - off"
      using stored_length(1) [OF w(4) P] m pz neg by (intro wrap64_id) (simp add: in64_def)
    then show ?thesis using l len pz g Ok w(1) neg by (auto simp: get_loop.simps [of R h s off len] m Let_def)
  qed
  with spec show "\<exists>e. res = Err e" "dst' = dst" "cas_inv P R view C s'" "same_disk s s'" by auto
qed

subsection \<open>Reading content that is completely on disk\<close>

definition disk_has :: "'c cas \<Rightarrow> string \<Rightarrow> bytes \<Rightarrow> bool" where
  "disk_has s h c \<longleftrightarrow> (\<forall>i. i * nat (page s) < length c \<longrightarrow>
     os_ReadFile (cas_fs s) (chunk_path (cas_diskCacheDir s) h (int i)) = Some (chunk (nat (page s)) i c))"

lemma disk_has_same: "same_disk s s' \<Longrightarrow> disk_has s' h c = disk_has s h c"
  by (simp add: disk_has_def same_disk_def)

lemma get_chunk_full:
  assumes inv: "cas_inv (=) R view C s" and hex: "hex_name h" and c: "C h = Some c" and disk: "disk_has s h c"
    and i: "i * nat (page s) < length c" and g: "get_chunk R s h (chunk_key h (int i)) = (s1, fm, r)"
  shows "r = Ok (CacheValue h (chunk (nat (page s)) i c))"
proof -
  have "\<exists>v. r = Ok v"
  proof -
    obtain c1 l where l: "rc_Get R (cas_cache s) (chunk_key h (int i)) = (c1, l)" by (rule prod.exhaust)
    have rd: "os_ReadFile (cas_fs s) (filepath_Join [cas_diskCacheDir s, h, chunk_key h (int i)])
        = Some (chunk (nat (page s)) i c)"
      using disk i by (simp add: disk_has_def chunk_path_def)
    obtain c2 l2 where l2: "rc_Get R c1 (chunk_key h (int i)) = (c2, l2)" by (rule prod.exhaust)
    have "getFromDiskCache R (s\<lparr>cas_cache := c1\<rparr>) h (chunk_key h (int i)) = (s2, r2) \<Longrightarrow> r2 \<noteq> Panic \<Longrightarrow> \<exists>v. r2 = Ok v" for s2 r2
      using rd l2 by (auto simp: getFromDiskCache_def Let_def split: option.splits cache_item.splits prod.splits)
    moreover obtain s2 r2 where "getFromDiskCache R (s\<lparr>cas_cache := c1\<rparr>) h (chunk_key h (int i)) = (s2, r2)"
      by (rule prod.exhaust)
    moreover have "r \<noteq> Panic" using get_chunk_spec [OF inv hex g] by simp
    ultimately show ?thesis using g l by (cases l; cases r2) (auto simp: get_chunk_def)
  qed
  then show ?thesis using get_chunk_spec [OF inv hex g] c by (auto simp: chunk_value_def stored_def)
qed

lemma get_chunk_past:
  assumes inv: "cas_inv P R view C s" and hex: "hex_name h" and c: "C h = Some c"
    and i: "\<not> i * nat (page s) < length c" and g: "get_chunk R s h (chunk_key h (int i)) = (s1, fm, r)"
  shows "\<exists>e. r = Err e"
  using get_chunk_spec [OF inv hex g] c i by (cases r) (auto simp: chunk_value_def stored_def)

text \<open>The exact outcome of a read of \<open>r\<close> bytes at \<open>o1\<close> of a content that is completely stored. A range that
  ends inside the content is read in full; one that runs past the end is cut short, unless the end falls on
  a chunk boundary (or the offset lies in a chunk past the last one): then the loop looks for a chunk that does
  not exist and the whole read fails.\<close>

definition full_result :: "nat \<Rightarrow> nat \<Rightarrow> nat \<Rightarrow> nat \<Rightarrow> nat \<Rightarrow> int res" where
  "full_result p L o1 r d =
     (if r = 0 \<or> o1 + r \<le> L then Ok (int (d + r))
      else if max o1 L div p * p < L then Ok (int (d + (max o1 L - o1)))
      else Err ErrContentNotFound)"

lemma full_result_step:
  assumes "0 < n" "n \<le> r" "o1 + n \<le> L"
  shows "full_result p L (o1 + n) (r - n) (d + n) = full_result p L o1 r d"
proof -
  have "max (o1 + n) L = L" "max o1 L = L" using assms by auto
  then show ?thesis using assms by (auto simp: full_result_def)
qed

lemma full_result_stop:
  assumes "0 < r" "o1 div p * p < L" "L \<le> o1"
  shows "full_result p L o1 r d = Ok (int d)"
proof -
  have "max o1 L = o1" using assms by simp
  then show ?thesis using assms by (simp add: full_result_def)
qed

lemma full_result_miss:
  assumes "0 < r" "\<not> o1 div p * p < L"
  shows "full_result p L o1 r d = Err ErrContentNotFound"
proof -
  have "L \<le> o1" using assms(2) div_mult_mod_eq [of o1 p] by linarith
  then have "max o1 L = o1" by simp
  then show ?thesis using assms \<open>L \<le> o1\<close> by (simp add: full_result_def)
qed

lemma get_loop_full:
  assumes hex: "hex_name h" and c: "C h = Some c"
  shows "cas_inv (=) R view C s \<Longrightarrow> disk_has s h c \<Longrightarrow> d + r \<le> length dst \<Longrightarrow>
    get_loop R h s (int o1) (int r) dst (int d) = (s', dst', res) \<Longrightarrow>
    res = full_result (nat (page s)) (length c) o1 r d"
proof (induction r arbitrary: s o1 dst d rule: less_induct)
  case (less r)
  define p where "p = nat (page s)"
  have pos: "0 < p" using inv_page_nat [OF less.prems(1)] by (simp add: p_def)
  have P: "x = y \<Longrightarrow> prefix x y" for x y :: bytes by simp
  show ?case
  proof (cases "r = 0")
    case True
    then show ?thesis using less.prems(4) by (simp add: get_loop.simps full_result_def)
  next
    case False
    then have r: "0 < r" by simp
    show ?thesis
    proof (rule get_loop_cases [OF less.prems(1) hex P r less.prems(3) p_def, of o1], assumption, goal_cases)
      case miss: (1 s1 fm e)
      have "\<not> o1 div p * p < length c"
        using get_chunk_full [OF less.prems(1) hex c less.prems(2) _ miss(1)] by (auto simp: p_def)
      then show ?thesis using miss(2) less.prems(4) full_result_miss [OF r] by (simp add: p_def)
    next
      case stop: (2 s1 fm b c')
      have b: "o1 div p * p < length c" "b = chunk p (o1 div p) c"
        using stop(2,3) c by (simp_all add: stored_def)
      have "length c \<le> o1"
        using stop(4) b(1) pos mod_less_divisor [of p o1] div_mult_mod_eq [of o1 p]
        unfolding b(2) length_chunk by linarith
      then show ?thesis using stop(5) less.prems(4) full_result_stop [OF r b(1)] by (simp add: p_def)
    next
      case step: (3 s1 fm b c' n m)
      have b: "o1 div p * p < length c" "b = chunk p (o1 div p) c"
        using step(2,3) c by (simp_all add: stored_def)
      have n: "n \<le> r" "o1 + n \<le> length c"
        using step(4,5) b(1) div_mult_mod_eq [of o1 p] unfolding b(2) length_chunk by linarith+
      note g = get_chunk_spec [OF less.prems(1) hex step(1)]
      have pg: "page s1 = page s" using g page_same by blast
      have "res = full_result (nat (page (s1\<lparr>cas_metrics := m\<rparr>))) (length c) (o1 + n) (r - n) (d + n)"
      proof (rule less.IH)
        show "disk_has (s1\<lparr>cas_metrics := m\<rparr>) h c"
          using g less.prems(2) disk_has_same [of s "s1\<lparr>cas_metrics := m\<rparr>" h c] by simp
        show "get_loop R h (s1\<lparr>cas_metrics := m\<rparr>) (int (o1 + n)) (int (r - n))
            (copy_at dst d (take n (drop (o1 mod p) b))) (int (d + n)) = (s', dst', res)"
          using step(6) less.prems(4) by simp
      qed (use g n step(4,5) less.prems(3) in auto)
      then show ?thesis using full_result_step [OF step(5) n] by (simp add: pg p_def)
    qed
  qed
qed

subsection \<open>Add\<close>

text \<open>\<open>P\<close> covers every outcome of a write: equality is enough when no write stops half-way.\<close>

definition covers_writes :: "(bytes \<Rightarrow> bytes \<Rightarrow> bool) \<Rightarrow> fs \<Rightarrow> bool" where
  "covers_writes P f \<longleftrightarrow> (\<forall>b. P b b) \<and>
     ((\<forall>x y. prefix x y \<longrightarrow> P x y) \<or> (\<forall>p n. fs_fault f p \<noteq> Some (WriteStops n)))"

lemma covers_writes_prefix: "covers_writes prefix f"
  by (simp add: covers_writes_def)

lemma covers_writes_target:
  assumes "covers_writes P f" "os_WriteFile f q b = (f', ok)" "fs_nodes f' q = Some (File b')"
  shows "fs_nodes f q = Some (File b') \<or> P b' b"
  using assms by (auto simp: covers_writes_def os_WriteFile_def take_is_prefix
      split: if_splits option.splits io_fault.splits)

lemma cas_inv_extend:
  assumes inv: "cas_inv P R view C s" and h: "hex_name h" "int (length c) < 2 ^ 62" "C h = None \<or> C h = Some c"
  shows "cas_inv P R view (C(h \<mapsto> c)) s"
proof -
  have ext: "(C(h \<mapsto> c)) x = Some y" if "C x = Some y" for x y using that h(3) by auto
  have cache: "item_ok P (nat (page s)) (C(h \<mapsto> c)) k v" if "view (cas_cache s) k = Some v" for k v
    using item_ok_mono [OF cas_invD(7) [OF inv that] ext] .
  have disk: "0 \<le> i \<and> (\<exists>y. (C(h \<mapsto> c)) x = Some y \<and> stored P (nat (page s)) y (nat i) b)"
    if "hex_name x" "fs_nodes (cas_fs s) (chunk_path (cas_diskCacheDir s) x i) = Some (File b)" for x i b
    using cas_invD(8) [OF inv that] ext by blast
  have dom: "hex_name x \<and> int (length y) < 2 ^ 62" if "(C(h \<mapsto> c)) x = Some y" for x y
    using that h cas_invD(5,6) [OF inv, of x y] by (auto split: if_splits)
  show ?thesis unfolding cas_inv_def using cas_invD(1-4) [OF inv] cache disk dom by blast
qed

lemma cas_inv_write:
  assumes inv: "cas_inv P R view C s" and c: "C h = Some c" and i: "i * nat (page s) < length c"
    and P: "covers_writes P (cas_fs s)"
    and w: "os_WriteFile (cas_fs s) (chunk_path (cas_diskCacheDir s) h (int i)) (chunk (nat (page s)) i c) = (f', ok)"
  shows "cas_inv P R view C (s\<lparr>cas_fs := f'\<rparr>)"
proof -
  have "0 \<le> j \<and> (\<exists>y. C x = Some y \<and> stored P (nat (page s)) y (nat j) b)"
    if x: "hex_name x" and n: "fs_nodes f' (chunk_path (cas_diskCacheDir s) x j) = Some (File b)" for x j b
  proof (cases "fs_nodes (cas_fs s) (chunk_path (cas_diskCacheDir s) x j) = Some (File b)")
    case True
    then show ?thesis using cas_invD(8) [OF inv x] by blast
  next
    case False
    then have eq: "chunk_path (cas_diskCacheDir s) x j = chunk_path (cas_diskCacheDir s) h (int i)"
      using WriteFile_keeps [OF w] n by fastforce
    then have "x = h" "j = int i"
      using chunk_path_inj [OF cas_invD(4) [OF inv] x cas_invD(5) [OF inv c]] by blast+
    moreover have "P b (chunk (nat (page s)) i c)"
      using covers_writes_target [OF P w] n False eq by auto
    ultimately show ?thesis using c i by (simp add: stored_def)
  qed
  with inv show ?thesis by (simp add: cas_inv_def)
qed

text \<open>What every operation leaves alone: chunk size, directory, and the existence of files and directories.\<close>

definition durable :: "'c cas \<Rightarrow> 'c cas \<Rightarrow> bool" where
  "durable s s' \<longleftrightarrow> page s' = page s \<and> cas_diskCacheDir s' = cas_diskCacheDir s \<and>
     fs_fault (cas_fs s') = fs_fault (cas_fs s) \<and>
     (\<forall>q b. fs_nodes (cas_fs s) q = Some (File b) \<longrightarrow> (\<exists>b'. fs_nodes (cas_fs s') q = Some (File b'))) \<and>
     (\<forall>q. fs_nodes (cas_fs s) q = Some Dir \<longrightarrow> fs_nodes (cas_fs s') q = Some Dir)"

definition keeps :: "'c cas \<Rightarrow> 'c cas \<Rightarrow> bool" where
  "keeps s s' \<longleftrightarrow> durable s s' \<and> cas_serverConfig s' = cas_serverConfig s \<and>
     cas_diskCachedUsageExceeded s' = cas_diskCachedUsageExceeded s"

lemma keeps_durable: "keeps s s' \<Longrightarrow> durable s s'"
  by (simp add: keeps_def)

lemma durable_trans:
  assumes "durable s s1" "durable s1 s2"
  shows "durable s s2"
proof -
  have "\<exists>b'. fs_nodes (cas_fs s2) q = Some (File b')" if "fs_nodes (cas_fs s) q = Some (File b)" for q b
    using assms that unfolding durable_def by (metis (no_types))
  with assms show ?thesis by (simp add: durable_def)
qed

lemma keeps_refl [simp]: "keeps s s"
  by (simp add: keeps_def durable_def)

lemma keeps_trans: "keeps s s1 \<Longrightarrow> keeps s1 s2 \<Longrightarrow> keeps s s2"
  using durable_trans by (auto simp: keeps_def)

lemma keeps_cache [simp]: "keeps s (s'\<lparr>cas_cache := c\<rparr>) = keeps s s'"
  by (simp add: keeps_def durable_def)

lemma keeps_same_disk: "same_disk s s' \<Longrightarrow> keeps s s'"
  by (simp add: keeps_def durable_def same_disk_def)

lemma keeps_page: "keeps s s' \<Longrightarrow> page s' = page s"
  by (simp add: keeps_def durable_def)

definition same_pf :: "'c cas \<Rightarrow> 'c cas \<Rightarrow> bool" where
  "same_pf s s' \<longleftrightarrow> cas_prefetcher s' = cas_prefetcher s \<and> cas_bufferPool s' = cas_bufferPool s"

text \<open>What adding the chunks of \<open>h\<close> from index \<open>i\<close> on leaves alone.\<close>

definition add_frame :: "string \<Rightarrow> nat \<Rightarrow> 'c cas \<Rightarrow> 'c cas \<Rightarrow> bool" where
  "add_frame h i s s' \<longleftrightarrow> keeps s s' \<and> same_pf s s' \<and>
     (\<forall>q. (\<forall>j\<ge>i. q \<noteq> chunk_path (cas_diskCacheDir s) h (int j)) \<longrightarrow> fs_nodes (cas_fs s') q = fs_nodes (cas_fs s) q)"

lemma add_frame_keeps: "add_frame h i s s' \<Longrightarrow> keeps s s'"
  by (simp add: add_frame_def)

lemma add_frame_refl [simp]: "add_frame h i s s"
  by (simp add: add_frame_def same_pf_def)

lemma add_frame_trans:
  assumes "add_frame h i s s1" "add_frame h (Suc i) s1 s2"
  shows "add_frame h i s s2"
proof -
  have "cas_diskCacheDir s1 = cas_diskCacheDir s" using assms(1) by (simp add: add_frame_def keeps_def durable_def)
  then show ?thesis using assms keeps_trans [of s s1 s2] by (simp add: add_frame_def same_pf_def)
qed

lemma add_frame_cache [simp]: "add_frame h i s (s'\<lparr>cas_cache := c\<rparr>) = add_frame h i s s'"
  by (simp add: add_frame_def same_pf_def)

lemma covers_writes_keeps: "keeps s s' \<Longrightarrow> covers_writes P (cas_fs s') = covers_writes P (cas_fs s)"
  by (simp add: keeps_def durable_def covers_writes_def)

lemma WriteFile_stays:
  "os_WriteFile f q b = (f', ok) \<Longrightarrow> fs_nodes f q' = Some (File x) \<Longrightarrow> \<exists>y. fs_nodes f' q' = Some (File y)"
  "os_WriteFile f q b = (f', ok) \<Longrightarrow> fs_nodes f q' = Some Dir \<Longrightarrow> fs_nodes f' q' = Some Dir"
  by (auto simp: os_WriteFile_def split: if_splits option.splits io_fault.splits)

lemma WriteFile_read: "os_WriteFile f q b = (f', True) \<Longrightarrow> os_ReadFile f' q = Some b"
  by (auto simp: os_WriteFile_def os_ReadFile_def split: if_splits option.splits io_fault.splits)

lemma add_chunk_write:
  assumes inv: "cas_inv P R view C s" and c: "C h = Some c" and i: "i * nat (page s) < length c"
    and P: "covers_writes P (cas_fs s)"
    and w: "(if cas_diskCachedUsageExceeded s then (cas_fs s, True)
       else os_WriteFile (cas_fs s) (chunk_path (cas_diskCacheDir s) h (int i)) (chunk (nat (page s)) i c)) = (f1, ok)"
  shows "cas_inv P R view C (s\<lparr>cas_fs := f1\<rparr>)" and "add_frame h i s (s\<lparr>cas_fs := f1\<rparr>)"
    and "ok \<Longrightarrow> \<not> cas_diskCachedUsageExceeded s \<Longrightarrow>
      os_ReadFile f1 (chunk_path (cas_diskCacheDir s) h (int i)) = Some (chunk (nat (page s)) i c)"
proof -
  have "cas_inv P R view C (s\<lparr>cas_fs := f1\<rparr>) \<and> add_frame h i s (s\<lparr>cas_fs := f1\<rparr>) \<and>
     (ok \<longrightarrow> \<not> cas_diskCachedUsageExceeded s \<longrightarrow>
      os_ReadFile f1 (chunk_path (cas_diskCacheDir s) h (int i)) = Some (chunk (nat (page s)) i c))"
  proof (cases "cas_diskCachedUsageExceeded s")
    case True
    then have "f1 = cas_fs s" using w by simp
    then show ?thesis using True inv by simp
  next
    case False
    then have w': "os_WriteFile (cas_fs s) (chunk_path (cas_diskCacheDir s) h (int i)) (chunk (nat (page s)) i c) = (f1, ok)"
      using w by simp
    have "add_frame h i s (s\<lparr>cas_fs := f1\<rparr>)"
      using WriteFile_keeps [OF w'] WriteFile_fault [OF w'] WriteFile_stays [OF w']
      by (auto simp: add_frame_def same_pf_def keeps_def durable_def)
    with cas_inv_write [OF inv c i P w'] w' show ?thesis by (auto intro: WriteFile_read)
  qed
  then show "cas_inv P R view C (s\<lparr>cas_fs := f1\<rparr>)" "add_frame h i s (s\<lparr>cas_fs := f1\<rparr>)"
    "ok \<Longrightarrow> \<not> cas_diskCachedUsageExceeded s \<Longrightarrow>
      os_ReadFile f1 (chunk_path (cas_diskCacheDir s) h (int i)) = Some (chunk (nat (page s)) i c)" by blast+
qed

text \<open>The memory-cache half of an iteration.\<close>

lemma add_chunk_cache:
  assumes inv: "cas_inv P R view C s" and it: "item_ok P (nat (page s)) C k v"
    and g: "rc_GetTTL R (cas_cache s) k = (c2, ex)"
  shows "cas_inv P R view C (s\<lparr>cas_cache := c2\<rparr>)"
    and "rc_Set R c2 k v n = (c3, added) \<Longrightarrow> cas_inv P R view C (s\<lparr>cas_cache := c3\<rparr>)"
proof -
  show i2: "cas_inv P R view C (s\<lparr>cas_cache := c2\<rparr>)"
    using cas_inv_cache [OF inv contract_GetTTL [OF cas_invD(1) [OF inv] g]] .
  assume st: "rc_Set R c2 k v n = (c3, added)"
  have "cas_inv P R view C (s\<lparr>cas_cache := c2, cas_cache := c3\<rparr>)"
    by (rule cas_inv_put [OF i2]) (use it contract_Set [OF cas_invD(1) [OF inv] st] in auto)
  then show "cas_inv P R view C (s\<lparr>cas_cache := c3\<rparr>)" by simp
qed

lemma add_chunks_cases:
  assumes inv: "cas_inv P R view C s" and c: "C h = Some c" and p: "p = nat (page s)" and i: "i * p < length c"
    and P: "covers_writes P (cas_fs s)" and dir: "dirPath = filepath_Join [cas_diskCacheDir s, h]"
  obtains
    (fail) s1 e where "add_chunks R h c dirPath s (int (i * p)) ks = (s1, Err e)"
      "cas_inv P R view C s1" "add_frame h i s s1"
  | (step) s1 where "add_chunks R h c dirPath s (int (i * p)) ks =
        add_chunks R h c dirPath s1 (int (Suc i * p)) (ks @ [chunk_key h (int i)])"
      "cas_inv P R view C s1" "add_frame h i s s1"
      "\<not> cas_diskCachedUsageExceeded s \<Longrightarrow>
        os_ReadFile (cas_fs s1) (chunk_path (cas_diskCacheDir s) h (int i)) = Some (chunk p i c)"
proof -
  note pg = inv_page_nat [OF inv, folded p]
  have hex: "hex_name h" using cas_invD(5) [OF inv c] .
  have idx: "int (i * p) sdiv page s = int i"
    using pg by (simp add: sdiv_nonneg zdiv_int [symmetric] del: of_nat_mult of_nat_nat int_nat_eq)
  have nxt: "wrap64 (int (i * p) + page s) = int (Suc i * p)"
    using pg(1) cas_invD(3) [OF inv] cas_invD(6) [OF inv c] i
    by (subst wrap64_id) (auto simp: in64_def algebra_simps simp flip: of_nat_mult of_nat_add)
  define e where "e = (if int (Suc i * p) > int (length c) then int (length c) else int (Suc i * p))"
  have e': "e = int (min (length c) (p + i * p))"
    unfolding e_def mult_Suc by (simp only: of_nat_less_iff min_def split: if_split) linarith
  have e: "int (i * p) < e" "0 \<le> int (i * p)" using i pg(2) unfolding e' by linarith+
  have "nat (e - int (i * p)) = min (length c - i * p) p" unfolding e' by linarith
  then have ch: "take (nat (e - int (i * p))) (drop (nat (int (i * p))) c) = chunk p i c"
    by (simp only: chunk_def nat_int) (simp add: min_def)
  have join: "filepath_Join [dirPath, chunk_key h (int i)] = chunk_path (cas_diskCacheDir s) h (int i)"
    using Join_dir_chunk [OF cas_invD(4) [OF inv] hex] by (simp add: dir)
  obtain f1 ok where w: "(if cas_diskCachedUsageExceeded s then (cas_fs s, True)
       else os_WriteFile (cas_fs s) (chunk_path (cas_diskCacheDir s) h (int i)) (chunk p i c)) = (f1, ok)"
    by (rule prod.exhaust)
  note wr = add_chunk_write [OF inv c i [unfolded p] P w [unfolded p]]
  obtain c2 ex where g: "rc_GetTTL R (cas_cache s) (chunk_key h (int i)) = (c2, ex)" by (rule prod.exhaust)
  obtain c3 added where st: "rc_Set R c2 (chunk_key h (int i)) (CacheValue h (chunk p i c)) (int (length (chunk p i c))) = (c3, added)"
    by (rule prod.exhaust)
  have it: "item_ok P p C (chunk_key h (int i)) (CacheValue h (chunk p i c))"
    using c i P by (auto simp: item_ok_def stored_def covers_writes_def)
  note ch1 = add_chunk_cache [OF wr(1), of "chunk_key h (int i)" "CacheValue h (chunk p i c)"]
  have cinv: "cas_inv P R view C (s\<lparr>cas_fs := f1, cas_cache := c2\<rparr>)" "cas_inv P R view C (s\<lparr>cas_fs := f1, cas_cache := c3\<rparr>)"
    using ch1(1) [of c2 ex] ch1(2) [of c2 ex _ c3 added] it g st by (simp_all add: p)
  have unf: "add_chunks R h c dirPath s (int (i * p)) ks =
     (if \<not> ok then (s\<lparr>cas_fs := f1\<rparr>, Err (ErrMsg ''failed to write to disk cache''))
      else if ex then add_chunks R h c dirPath (s\<lparr>cas_fs := f1, cas_cache := c2\<rparr>) (int (Suc i * p)) (ks @ [chunk_key h (int i)])
      else if \<not> added then (s\<lparr>cas_fs := f1, cas_cache := c3\<rparr>, Err (ErrMsg ''unable to cache: set dropped''))
      else add_chunks R h c dirPath (s\<lparr>cas_fs := f1, cas_cache := c3\<rparr>) (int (Suc i * p)) (ks @ [chunk_key h (int i)]))"
    unfolding add_chunks.simps [of R h c dirPath s "int (i * p)" ks] Let_def idx nxt e_def [symmetric] ch join w
    using i e g st cas_invD(2) [OF inv] by (simp del: of_nat_mult of_nat_Suc mult_Suc)
  show thesis
  proof (cases "ok \<and> (ex \<or> added)")
    case True
    define s1 where "s1 = s\<lparr>cas_fs := f1, cas_cache := (if ex then c2 else c3)\<rparr>"
    show thesis
      by (rule step [of s1]) (use True unf cinv wr(2) wr(3) in \<open>auto simp: s1_def p\<close>)
  next
    case False
    then show thesis using fail unf wr(1,2) cinv by (cases ok) auto
  qed
qed

lemma keeps_read:
  assumes "add_frame h (Suc i) s s'" "cas_diskCacheDir s \<noteq> []" "hex_name h"
  shows "os_ReadFile (cas_fs s') (chunk_path (cas_diskCacheDir s) h (int i))
       = os_ReadFile (cas_fs s) (chunk_path (cas_diskCacheDir s) h (int i))"
proof -
  have "\<forall>j\<ge>Suc i. chunk_path (cas_diskCacheDir s) h (int i) \<noteq> chunk_path (cas_diskCacheDir s) h (int j)"
    using chunk_path_inj [OF assms(2) assms(3) assms(3)] by auto
  then have n: "fs_nodes (cas_fs s') (chunk_path (cas_diskCacheDir s) h (int i))
      = fs_nodes (cas_fs s) (chunk_path (cas_diskCacheDir s) h (int i))" using assms(1) by (simp add: add_frame_def)
  have f: "fs_fault (cas_fs s') = fs_fault (cas_fs s)" using assms(1) by (simp add: add_frame_def keeps_def durable_def)
  show ?thesis unfolding os_ReadFile_def n f ..
qed

lemma add_chunks_spec:
  assumes c: "C h = Some c"
  shows "cas_inv P R view C s \<Longrightarrow> covers_writes P (cas_fs s) \<Longrightarrow> p = nat (page s) \<Longrightarrow>
    dirPath = filepath_Join [cas_diskCacheDir s, h] \<Longrightarrow>
    add_chunks R h c dirPath s (int (i * p)) ks = (s', r) \<Longrightarrow>
    cas_inv P R view C s' \<and> add_frame h i s s' \<and> r \<noteq> Panic \<and>
    (\<forall>ks'. r = Ok ks' \<longrightarrow> ks' = ks @ map (\<lambda>j. chunk_key h (int j)) [i..<nchunks p (length c)] \<and>
       (\<not> cas_diskCachedUsageExceeded s \<longrightarrow> (\<forall>j\<ge>i. j * p < length c \<longrightarrow>
          os_ReadFile (cas_fs s') (chunk_path (cas_diskCacheDir s) h (int j)) = Some (chunk p j c))))"
proof (induction "length c - i * p" arbitrary: i s ks rule: less_induct)
  case less
  have pos: "0 < p" using inv_page_nat [OF less.prems(1)] less.prems(3) by simp
  have hex: "hex_name h" using cas_invD(5) [OF less.prems(1) c] .
  show ?case
  proof (cases "i * p < length c")
    case False
    then have "s' = s \<and> r = Ok ks" using less.prems(5) by (simp add: add_chunks.simps flip: of_nat_mult)
    moreover have "\<not> i < nchunks p (length c)" using False less_nchunks [OF pos] by blast
    moreover have "\<not> j * p < length c" if "i \<le> j" for j using False that mult_le_mono1 [OF that, of p] by linarith
    ultimately show ?thesis using less.prems(1) by simp
  next
    case True
    then have up: "[i..<nchunks p (length c)] = i # [Suc i..<nchunks p (length c)]"
      using less_nchunks [OF pos] by (simp add: upt_conv_Cons)
    show ?thesis
    proof (rule add_chunks_cases [OF less.prems(1) c less.prems(3) True less.prems(2,4), of ks], goal_cases)
      case (1 s1 e)
      then show ?thesis using less.prems(5) by auto
    next
      case step: (2 s1)
      note kp = add_frame_keeps [OF step(3)]
      have dir: "cas_diskCacheDir s1 = cas_diskCacheDir s"
        "cas_diskCachedUsageExceeded s1 = cas_diskCachedUsageExceeded s" using kp by (simp_all add: keeps_def durable_def)
      have ih: "cas_inv P R view C s' \<and> add_frame h (Suc i) s1 s' \<and> r \<noteq> Panic \<and>
        (\<forall>ks'. r = Ok ks' \<longrightarrow> ks' = (ks @ [chunk_key h (int i)]) @ map (\<lambda>j. chunk_key h (int j)) [Suc i..<nchunks p (length c)] \<and>
         (\<not> cas_diskCachedUsageExceeded s1 \<longrightarrow> (\<forall>j\<ge>Suc i. j * p < length c \<longrightarrow>
            os_ReadFile (cas_fs s') (chunk_path (cas_diskCacheDir s1) h (int j)) = Some (chunk p j c))))"
      proof (rule less.hyps)
        show "length c - Suc i * p < length c - i * p" using True pos by simp
        show "covers_writes P (cas_fs s1)" using covers_writes_keeps [OF kp] less.prems(2) by simp
        show "p = nat (page s1)" using keeps_page [OF kp] less.prems(3) by simp
        show "add_chunks R h c dirPath s1 (int (Suc i * p)) (ks @ [chunk_key h (int i)]) = (s', r)"
          using step(1) less.prems(5) by simp
      qed (use step(2) less.prems(4) dir in simp_all)
      have rd: "os_ReadFile (cas_fs s') (chunk_path (cas_diskCacheDir s) h (int i))
         = os_ReadFile (cas_fs s1) (chunk_path (cas_diskCacheDir s) h (int i))"
        using keeps_read [of h i s1 s'] ih cas_invD(4) [OF step(2)] hex dir by simp
      have "os_ReadFile (cas_fs s') (chunk_path (cas_diskCacheDir s) h (int j)) = Some (chunk p j c)"
        if ok: "r = Ok ks'" and ex: "\<not> cas_diskCachedUsageExceeded s" and j: "i \<le> j" "j * p < length c" for ks' j
      proof (cases "j = i")
        case True
        with rd step(4) [OF ex] show ?thesis by simp
      next
        case False
        then have "Suc i \<le> j" using j(1) by simp
        with ih ok ex j(2) show ?thesis unfolding dir by blast
      qed
      moreover have "ks' = ks @ map (\<lambda>j. chunk_key h (int j)) [i..<nchunks p (length c)]" if "r = Ok ks'" for ks'
        using ih that unfolding up by simp
      moreover have "add_frame h i s s'" using ih add_frame_trans [OF step(3)] by blast
      ultimately show ?thesis using ih by blast
    qed
  qed
qed

lemma disk_has_durable:
  assumes inv: "cas_inv (=) R view C s'" and k: "durable s s'" and c: "C h = Some c" and d: "disk_has s h c"
  shows "disk_has s' h c"
  unfolding disk_has_def
proof (intro allI impI)
  fix i assume i: "i * nat (page s') < length c"
  note cfg = k [unfolded durable_def]
  let ?q = "chunk_path (cas_diskCacheDir s') h (int i)"
  have pg: "page s' = page s" "cas_diskCacheDir s' = cas_diskCacheDir s" "fs_fault (cas_fs s') = fs_fault (cas_fs s)"
    using cfg by simp_all
  have rd: "os_ReadFile (cas_fs s) ?q = Some (chunk (nat (page s')) i c)"
    using d i unfolding disk_has_def pg(1,2) by blast
  then obtain b where b: "fs_nodes (cas_fs s') ?q = Some (File b)" using cfg ReadFile_nodes [OF rd] by blast
  have nf: "fs_fault (cas_fs s') ?q \<noteq> Some OpenFails"
    unfolding pg(3) using rd by (auto simp: os_ReadFile_def split: option.splits fs_node.splits if_splits)
  have "b = chunk (nat (page s')) i c"
    using cas_invD(8) [OF inv cas_invD(5) [OF inv c] b] c by (simp add: stored_def)
  with b nf show "os_ReadFile (cas_fs s') ?q = Some (chunk (nat (page s')) i c)" by (simp add: os_ReadFile_def)
qed

lemma cas_inv_files:
  assumes "cas_inv P R view C s" "\<And>q b. fs_nodes f' q = Some (File b) \<Longrightarrow> fs_nodes (cas_fs s) q = Some (File b)"
  shows "cas_inv P R view C (s\<lparr>cas_fs := f'\<rparr>)"
  using assms(1) unfolding cas_inv_def by (auto dest: assms(2))

lemma MkdirAll_dir:
  assumes "d \<noteq> []" "hex_name h" "os_MkdirAll f (filepath_Join [d, h]) = (f', True)"
  shows "fs_nodes f' (filepath_Join [d, h]) = Some Dir"
proof -
  let ?es = "elements d @ [h]"
  have j: "filepath_Join [d, h] = render (rooted d) ?es" using assms by (intro Join_plain) auto
  have n: "normal (rooted d) ?es" using assms by (auto intro!: normal_append)
  have "render (rooted d) (take (Suc (length (elements d))) ?es) \<in> set (parents (filepath_Join [d, h]))"
    using rooted_render [OF n] elements_render [OF n] unfolding j parents_def
    by (simp only: length_append list.size set_map set_upt) force
  then show ?thesis using mkdirs_dirs [of f _ f'] assms(3) by (simp add: os_MkdirAll_def j)
qed

lemma cas_Add_mkdir:
  assumes inv: "cas_inv P R view C s"
    and m: "(if cas_diskCachedUsageExceeded s then (cas_fs s, True) else os_MkdirAll (cas_fs s) q) = (f1, made)"
  shows "cas_inv P R view C (s\<lparr>cas_fs := f1\<rparr>)" "keeps s (s\<lparr>cas_fs := f1\<rparr>)"
proof -
  have "(fs_nodes f1 q = Some (File b)) = (fs_nodes (cas_fs s) q = Some (File b)) \<and> fs_fault f1 = fs_fault (cas_fs s) \<and>
      (fs_nodes (cas_fs s) q = Some Dir \<longrightarrow> fs_nodes f1 q = Some Dir)" for q b
    using m mkdirs_files [of "cas_fs s" "parents _" f1 made q b] mkdirs_fault [of "cas_fs s" "parents _" f1 made]
      mkdirs_preserves_files [of "cas_fs s" "parents _" f1 made q Dir]
    by (auto simp: os_MkdirAll_def split: if_splits)
  then show "cas_inv P R view C (s\<lparr>cas_fs := f1\<rparr>)" "keeps s (s\<lparr>cas_fs := f1\<rparr>)"
    using cas_inv_files [OF inv, of f1] by (simp_all add: keeps_def durable_def)
qed

lemma cas_Add_spec:
  assumes inv: "cas_inv P R view C s" and h: "hex_name h" and c: "int (length c) < 2 ^ 62"
    and C: "C h = None \<or> C h = Some c" and P: "covers_writes P (cas_fs s)"
    and add: "cas_Add R s h c = (s', r)"
  shows "cas_inv P R view (C(h \<mapsto> c)) s' \<and> keeps s s' \<and> same_pf s s' \<and> r \<noteq> Panic \<and>
    (r = Ok () \<longrightarrow> \<not> cas_diskCachedUsageExceeded s \<longrightarrow> disk_has s' h c \<and>
       fs_nodes (cas_fs s') (filepath_Join [cas_diskCacheDir s', h]) = Some Dir)"
proof -
  define C' where "C' = C(h \<mapsto> c)"
  define q where "q = filepath_Join [cas_diskCacheDir s, h]"
  have c': "C' h = Some c" by (simp add: C'_def)
  have inv': "cas_inv P R view C' s" unfolding C'_def using cas_inv_extend [OF inv h c C] .
  obtain f1 made where m: "(if cas_diskCachedUsageExceeded s then (cas_fs s, True) else os_MkdirAll (cas_fs s) q) = (f1, made)"
    by (rule prod.exhaust)
  define s1 where "s1 = s\<lparr>cas_fs := f1\<rparr>"
  note mk = cas_Add_mkdir [OF inv' m, folded s1_def]
  have same: "page s1 = page s" "cas_diskCacheDir s1 = cas_diskCacheDir s"
    "cas_diskCachedUsageExceeded s1 = cas_diskCachedUsageExceeded s" by (simp_all add: s1_def)
  obtain s2 r2 where a: "add_chunks R h c q s1 0 [] = (s2, r2)" by (rule prod.exhaust)
  have a0: "add_chunks R h c q s1 (int (0 * nat (page s1))) [] = (s2, r2)" using a by simp
  have P1: "covers_writes P (cas_fs s1)" using P covers_writes_keeps [OF mk(2)] by simp
  have q1: "q = filepath_Join [cas_diskCacheDir s1, h]" by (simp add: q_def s1_def)
  note spec = add_chunks_spec [where C = C' and h = h, OF c' mk(1) P1 refl q1 a0]
  have a1: "cas_inv P R view C' s2" "keeps s s2" "r2 \<noteq> Panic"
    using spec add_frame_keeps [of h 0 s1 s2] keeps_trans [OF mk(2), of s2] by blast+
  have pf: "same_pf s s1" "same_pf s s2" using spec by (simp_all add: add_frame_def same_pf_def s1_def)
  then have pf3: "same_pf s (s2\<lparr>cas_cache := x\<rparr>)" for x by (simp add: same_pf_def)
  have d: "disk_has s2 h c" if "r2 = Ok ks" "\<not> cas_diskCachedUsageExceeded s" for ks
    using spec that same keeps_page [OF a1(2)] a1(2) by (simp add: disk_has_def keeps_def durable_def)
  obtain c3 added where st: "rc_SetWithTTL R (cas_cache s2) h (ChunkKeys (join_with CHR '','' ks))
      (int (length (join_with CHR '','' ks))) (objectTtl s2) = (c3, added)" if "r2 = Ok ks" for ks
    by (cases r2) (auto intro: prod.exhaust)
  have keys: "ks = object_keys (nat (page s2)) h c" if "r2 = Ok ks" for ks
    using spec that same(1) keeps_page [OF a1(2)] by (simp add: object_keys_def)
  have i3: "cas_inv P R view C' (s2\<lparr>cas_cache := c3\<rparr>)" if "r2 = Ok ks" for ks
    by (rule cas_inv_put [OF a1(1), of h "ChunkKeys (join_with CHR '','' ks)"])
      (use c' keys [OF that] contract_SetWithTTL [OF cas_invD(1) [OF inv] st [OF that]] in \<open>auto simp: item_ok_def\<close>)
  have unf: "cas_Add R s h c =
     (if \<not> made then (s1, Err (ErrMsg ''failed to create cache directory''))
      else case r2 of
        Err e \<Rightarrow> (s2, Err e) | Panic \<Rightarrow> (s2, Panic)
      | Ok ks \<Rightarrow> if \<not> added then (s2\<lparr>cas_cache := c3\<rparr>, Err (ErrMsg ''unable to cache: set dropped''))
                else (s2\<lparr>cas_cache := c3\<rparr>, Ok ()))"
    unfolding cas_Add_def Let_def q_def [symmetric] m using a st by (cases r2) (simp_all add: s1_def)
  have dd: "fs_nodes (cas_fs s2) (filepath_Join [cas_diskCacheDir s2, h]) = Some Dir"
    if "made" "\<not> cas_diskCachedUsageExceeded s"
  proof -
    have "fs_nodes (cas_fs s1) q = Some Dir"
      using MkdirAll_dir [OF cas_invD(4) [OF inv] h, of "cas_fs s" f1] m that by (simp add: s1_def q_def)
    moreover have "keeps s1 s2" using spec add_frame_keeps by blast
    ultimately show ?thesis using q1 by (simp add: keeps_def durable_def)
  qed
  have dh: "disk_has (s2\<lparr>cas_cache := c3\<rparr>) h c = disk_has s2 h c" by (simp add: disk_has_def)
  show ?thesis unfolding C'_def [symmetric]
    using add [unfolded unf] mk a1 d i3 dh pf pf3 dd by (cases r2) (auto split: if_splits)
qed

end
