(* ===== verification/Content_Store.thy ===== *)
theory Content_Store
  imports Go_Prelude
begin

text \<open>
  The interface between the storage (\<^verbatim>\<open>src/pkg/storage.go\<close>) and the server that calls it
  (\<^verbatim>\<open>src/pkg/server.go\<close>): what \<^verbatim>\<open>Get\<close> and \<^verbatim>\<open>Add\<close> promise, as a locale, and the streaming loop of
  \<^verbatim>\<open>GetContentStream\<close> proved correct from those promises alone.
\<close>

subsection \<open>The streaming loop\<close>

definition getContentStreamChunkSize :: int where "getContentStreamChunkSize = 4 * 1024 * 1024"

datatype stream_status = StreamOk | StreamNotFound | StreamSendFailed | StreamPanic

text \<open>
  The loop of \<^verbatim>\<open>GetContentStream\<close> with chunk size \<open>cs\<close>. The \<open>k\<close>-th iteration reads at time \<open>now k\<close> and
  its \<^verbatim>\<open>stream.Send\<close> succeeds when \<open>send k\<close>; \<open>sent\<close> is what has been sent. An iteration that does not end
  the loop has sent \<open>cs > 0\<close> bytes, so the loop ends.
\<close>

function stream_loop :: "(int \<Rightarrow> 's \<Rightarrow> string \<Rightarrow> int \<Rightarrow> int \<Rightarrow> bytes \<Rightarrow> 's \<times> bytes \<times> int res) \<Rightarrow> (nat \<Rightarrow> int)
    \<Rightarrow> (nat \<Rightarrow> bool) \<Rightarrow> string \<Rightarrow> int \<Rightarrow> nat \<Rightarrow> 's \<Rightarrow> bytes \<Rightarrow> int \<Rightarrow> int \<Rightarrow> bytes list
    \<Rightarrow> 's \<times> bytes list \<times> stream_status" where
  "stream_loop get now send hash cs k s dst offset remaining sent =
     (if \<not> (remaining > 0 \<and> cs > 0) then (s, sent, StreamOk)
      else
        (let cur = (if remaining < cs then remaining else cs);
             (s1, dst1, r) = get (now k) s hash offset cur dst
         in case r of
              Panic \<Rightarrow> (s1, sent, StreamPanic)
            | Err e \<Rightarrow> (s1, sent, StreamNotFound)
            | Ok n \<Rightarrow>
                if n = 0 then (s1, sent, StreamOk)
                else if n < 0 \<or> n > int (length dst1) then (s1, sent, StreamPanic)
                else if \<not> send k then (s1, sent, StreamSendFailed)
                else if n < cur then (s1, sent @ [take (nat n) dst1], StreamOk)
                else stream_loop get now send hash cs (Suc k) s1 dst1 (wrap64 (offset + n)) (remaining - n)
                       (sent @ [take (nat n) dst1])))"
  by pat_completeness auto
termination
  by (relation "measure (\<lambda>(get, now, send, hash, cs, k, s, dst, offset, remaining, sent). nat remaining)")
    (auto split: if_splits)

declare stream_loop.simps [simp del]

subsection \<open>What a read promises\<close>

definition get_ok :: "(string \<Rightarrow> bytes option) \<Rightarrow> string \<Rightarrow> int \<Rightarrow> int \<Rightarrow> bytes \<Rightarrow> bytes \<Rightarrow> int \<Rightarrow> bool" where
  "get_ok C h off len dst dst' n \<longleftrightarrow>
     (\<exists>bs. n = int (length bs) \<and> n \<le> max 0 len \<and> dst' = copy_at dst 0 bs \<and>
        (bs \<noteq> [] \<longrightarrow> 0 \<le> off \<and> (\<exists>c. C h = Some c \<and> prefix bs (drop (nat off) c))))"

lemma get_okE:
  assumes "get_ok C h off len dst dst' n" "len \<le> int (length dst)" "0 < n"
  obtains c where "C h = Some c" "0 \<le> off" "prefix (take (nat n) dst') (drop (nat off) c)"
    "length (take (nat n) dst') = nat n" "length dst' = length dst" "n \<le> len"
proof -
  obtain bs where bs: "n = int (length bs)" "n \<le> max 0 len" "dst' = copy_at dst 0 bs"
    "bs \<noteq> [] \<longrightarrow> 0 \<le> off \<and> (\<exists>c. C h = Some c \<and> prefix bs (drop (nat off) c))"
    using assms(1) unfolding get_ok_def by blast
  moreover from this assms(3) obtain c where "C h = Some c" "0 \<le> off" "prefix bs (drop (nat off) c)" by auto
  moreover have "length bs \<le> length dst" using bs assms(2,3) by simp
  moreover from this have "take (nat n) dst' = bs" "length dst' = length dst"
    using take_copy_at [of 0 bs dst] bs(1,3) by simp_all
  moreover have "n \<le> len" using bs(2) assms(3) by simp
  ultimately show thesis using that [of c] by simp
qed

locale content_store =
  fixes hash_ok :: "string \<Rightarrow> bool"
    and inv :: "(string \<Rightarrow> bytes option) \<Rightarrow> 's \<Rightarrow> bool"
    and get :: "int \<Rightarrow> 's \<Rightarrow> string \<Rightarrow> int \<Rightarrow> int \<Rightarrow> bytes \<Rightarrow> 's \<times> bytes \<times> int res"
    and add :: "'s \<Rightarrow> string \<Rightarrow> bytes \<Rightarrow> 's \<times> unit res"
  assumes inv_bound: "inv C s \<Longrightarrow> C h = Some c \<Longrightarrow> int (length c) < 2 ^ 62"
    and get_inv: "inv C s \<Longrightarrow> hash_ok h \<Longrightarrow> len \<le> int (length dst) \<Longrightarrow>
      get now s h off len dst = (s', dst', r) \<Longrightarrow> inv C s'"
    and get_no_panic: "inv C s \<Longrightarrow> hash_ok h \<Longrightarrow> len \<le> int (length dst) \<Longrightarrow>
      get now s h off len dst = (s', dst', r) \<Longrightarrow> r \<noteq> Panic"
    and get_bytes: "inv C s \<Longrightarrow> hash_ok h \<Longrightarrow> len \<le> int (length dst) \<Longrightarrow>
      get now s h off len dst = (s', dst', Ok n) \<Longrightarrow> get_ok C h off len dst dst' n"
    and add_inv: "inv C s \<Longrightarrow> hash_ok h \<Longrightarrow> int (length c) < 2 ^ 62 \<Longrightarrow> C h = None \<or> C h = Some c \<Longrightarrow>
      add s h c = (s', u) \<Longrightarrow> inv (C(h \<mapsto> c)) s'"
    and add_no_panic: "inv C s \<Longrightarrow> hash_ok h \<Longrightarrow> int (length c) < 2 ^ 62 \<Longrightarrow> C h = None \<or> C h = Some c \<Longrightarrow>
      add s h c = (s', u) \<Longrightarrow> u \<noteq> Panic"
begin

text \<open>Whatever was sent is the content from the requested offset on, and nothing panics.\<close>

lemma stream_loop_sound:
  assumes "hash_ok h"
  shows "inv C s \<Longrightarrow> cs \<le> int (length dst) \<Longrightarrow> sent = [] \<or> (0 \<le> start \<and> off = start + int (length (concat sent)) \<and>
      (\<exists>c. C h = Some c \<and> prefix (concat sent) (drop (nat start) c))) \<Longrightarrow>
    (sent = [] \<longrightarrow> off = start) \<Longrightarrow>
    stream_loop get now send h cs k s dst off rem sent = (s', sent', st) \<Longrightarrow>
    inv C s' \<and> st \<noteq> StreamPanic \<and>
    (sent' = [] \<or> (0 \<le> start \<and> (\<exists>c. C h = Some c \<and> prefix (concat sent') (drop (nat start) c))))"
proof (induction "nat rem" arbitrary: k s dst off rem sent rule: less_induct)
  case less
  note unf = stream_loop.simps [of get now send h cs k s dst off rem sent]
  show ?case
  proof (cases "rem > 0 \<and> cs > 0")
    case False
    with less.prems(1,3,5) show ?thesis by (auto simp: unf)
  next
    case True
    define cur where "cur = (if rem < cs then rem else cs)"
    have cur: "0 < cur" "cur \<le> rem" "cur \<le> int (length dst)" using True less.prems(2) by (auto simp: cur_def)
    obtain s1 dst1 r where g: "get (now k) s h off cur dst = (s1, dst1, r)" by (rule prod_cases3)
    note unf1 = unf [folded cur_def, unfolded Let_def g prod.case]
    have i1: "inv C s1" using get_inv [OF less.prems(1) assms cur(3) g] .
    have "r \<noteq> Panic" using get_no_panic [OF less.prems(1) assms cur(3) g] .
    then consider (e) e where "r = Err e" | (z) n where "r = Ok n" "n \<le> 0" | (p) n where "r = Ok n" "0 < n"
      by (metis res.exhaust not_le)
    then show ?thesis
    proof cases
      case e
      with True i1 less.prems(3,5) show ?thesis by (auto simp: unf1)
    next
      case z
      then have "get_ok C h off cur dst dst1 n" using get_bytes [OF less.prems(1) assms cur(3)] g by simp
      then have "n = 0" using z(2) by (auto simp: get_ok_def)
      with z True i1 less.prems(3,5) show ?thesis by (auto simp: unf1)
    next
      case (p n)
      have ok: "get_ok C h off cur dst dst1 n" using get_bytes [OF less.prems(1) assms cur(3)] g p by simp
      obtain c where c: "C h = Some c" "0 \<le> off" "prefix (take (nat n) dst1) (drop (nat off) c)"
        "length (take (nat n) dst1) = nat n" "length dst1 = length dst" "n \<le> cur"
        using get_okE [OF ok cur(3) p(2)] .
      have st: "0 \<le> start" "off = start + int (length (concat sent))" "prefix (concat sent) (drop (nat start) c)"
        using less.prems(3,4) c(1,2) by auto
      have pre: "prefix (concat (sent @ [take (nat n) dst1])) (drop (nat start) c)"
        using prefix_drop_append [OF st(3), of "take (nat n) dst1"] c(3) st(1,2) by (simp add: nat_add_distrib)
      have "length (take (nat n) dst1) \<le> length (drop (nat off) c)" using c(3) by (rule prefix_length_le)
      then have "off + n \<le> int (length c)" using c(2,4) p(2) by simp
      then have off: "wrap64 (off + n) = off + n"
        using inv_bound [OF less.prems(1) c(1)] c(2) p(2) by (intro wrap64_id in64I) simp_all
      show ?thesis
      proof (cases "send k \<and> n = cur")
        case go: True
        have "stream_loop get now send h cs (Suc k) s1 dst1 (off + n) (rem - n) (sent @ [take (nat n) dst1]) = (s', sent', st)"
          using less.prems(5) True p c(5,6) cur(3) go off by (simp add: unf1)
        then show ?thesis
          using less.hyps [of "rem - n" s1 dst1 "sent @ [take (nat n) dst1]" "off + n" "Suc k"]
            i1 less.prems(2) c pre st p True cur by auto
      next
        case stop: False
        have "s' = s1 \<and> st \<noteq> StreamPanic \<and> (sent' = sent \<or> sent' = sent @ [take (nat n) dst1])"
          using less.prems(5) True p c(5,6) cur(3) stop by (auto simp: unf1 split: if_splits)
        then show ?thesis using i1 less.prems(3) pre st c(1) by auto
      qed
    qed
  qed
qed

end

text \<open>A store that also says which contents it holds completely, and reads those in full.\<close>

locale complete_store = content_store +
  fixes has :: "'a \<Rightarrow> string \<Rightarrow> bytes \<Rightarrow> bool"
    and writable :: "'a \<Rightarrow> bool"
  assumes get_keeps: "inv C s \<Longrightarrow> hash_ok h' \<Longrightarrow> len \<le> int (length dst) \<Longrightarrow>
      get now s h' off len dst = (s', dst', r) \<Longrightarrow> C h = Some c \<Longrightarrow> has s h c \<Longrightarrow> has s' h c"
    and add_keeps: "inv C s \<Longrightarrow> hash_ok h' \<Longrightarrow> int (length c') < 2 ^ 62 \<Longrightarrow> C h' = None \<or> C h' = Some c' \<Longrightarrow>
      add s h' c' = (s', u) \<Longrightarrow> C h = Some c \<Longrightarrow> has s h c \<Longrightarrow> has s' h c"
    and add_has: "inv C s \<Longrightarrow> hash_ok h \<Longrightarrow> int (length c) < 2 ^ 62 \<Longrightarrow> C h = None \<or> C h = Some c \<Longrightarrow>
      writable s \<Longrightarrow> add s h c = (s', Ok ()) \<Longrightarrow> has s' h c"
    and get_full: "inv C s \<Longrightarrow> hash_ok h \<Longrightarrow> C h = Some c \<Longrightarrow> has s h c \<Longrightarrow> 0 \<le> off \<Longrightarrow> 0 \<le> len \<Longrightarrow>
      off + len \<le> int (length c) \<Longrightarrow> len \<le> int (length dst) \<Longrightarrow>
      get now s h off len dst = (s', dst', r) \<Longrightarrow> r = Ok len"
begin

text \<open>A range inside a content that the store holds is streamed in full.\<close>

lemma stream_loop_complete:
  assumes "hash_ok h" and c: "C h = Some c" and cs: "0 < cs" and send: "\<And>k. send k"
  shows "inv C s \<Longrightarrow> has s h c \<Longrightarrow> cs \<le> int (length dst) \<Longrightarrow> 0 \<le> off \<Longrightarrow> 0 \<le> rem \<Longrightarrow> off + rem \<le> int (length c) \<Longrightarrow>
    stream_loop get now send h cs k s dst off rem sent = (s', sent', st) \<Longrightarrow>
    st = StreamOk \<and> concat sent' = concat sent @ take (nat rem) (drop (nat off) c)"
proof (induction "nat rem" arbitrary: k s dst off rem sent rule: less_induct)
  case less
  note unf = stream_loop.simps [of get now send h cs k s dst off rem sent]
  show ?case
  proof (cases "rem > 0")
    case False
    with less.prems(7) show ?thesis by (auto simp: unf)
  next
    case True
    define cur where "cur = (if rem < cs then rem else cs)"
    have cur: "0 < cur" "cur \<le> rem" "cur \<le> int (length dst)" "off + cur \<le> int (length c)"
      using True less.prems cs by (auto simp: cur_def)
    obtain s1 dst1 r where g: "get (now k) s h off cur dst = (s1, dst1, r)" by (rule prod_cases3)
    have r: "r = Ok cur"
      using get_full [OF less.prems(1) assms(1) c less.prems(2,4) _ cur(4,3) g] cur(1) by simp
    note i1 = get_inv [OF less.prems(1) assms(1) cur(3) g]
    have h1: "has s1 h c" using get_keeps [OF less.prems(1) assms(1) cur(3) g c less.prems(2)] .
    obtain c' where "C h = Some c'" "prefix (take (nat cur) dst1) (drop (nat off) c')"
      "length (take (nat cur) dst1) = nat cur" "length dst1 = length dst"
      using get_okE [OF get_bytes [OF less.prems(1) assms(1) cur(3) g [unfolded r]] cur(3,1)] .
    then have d1: "take (nat cur) dst1 = take (nat cur) (drop (nat off) c)" "length dst1 = length dst"
      using c prefix_drop_eq [of "take (nat cur) dst1" "nat off" c] by simp_all
    have off: "wrap64 (off + cur) = off + cur"
      using inv_bound [OF less.prems(1) c] cur less.prems(4) by (intro wrap64_id in64I) simp_all
    have "stream_loop get now send h cs k s dst off rem sent =
        stream_loop get now send h cs (Suc k) s1 dst1 (off + cur) (rem - cur) (sent @ [take (nat cur) dst1])"
      using True cs cur send d1(2) by (simp add: unf cur_def [symmetric] Let_def g r off)
    then have "st = StreamOk \<and> concat sent' = concat (sent @ [take (nat cur) dst1]) @
        take (nat (rem - cur)) (drop (nat (off + cur)) c)"
      using less.hyps [of "rem - cur" s1 dst1 "off + cur" "Suc k" "sent @ [take (nat cur) dst1]"]
        less.prems i1 h1 d1 cur True by auto
    moreover have "nat rem = nat cur + nat (rem - cur)" "nat (off + cur) = nat cur + nat off"
      using cur less.prems(4) by auto
    ultimately show ?thesis by (simp add: d1(1) take_add)
  qed
qed

end

end
