(* ===== verification/Cas_System.thy ===== *)
theory Cas_System
  imports Cas_Correct Content_Store
begin

text \<open>
  The storage of \<^verbatim>\<open>src/pkg/storage.go\<close> as a whole: its \<^verbatim>\<open>Get\<close> and \<^verbatim>\<open>Add\<close> implement the interface of
  \<open>Content_Store\<close> (two interpretations: with writes that may stop half-way, and without), the
  eviction callback, the disk monitor and the prefetch workers keep the invariant, and every state
  reachable by any interleaving of these operations satisfies it.
\<close>

subsection \<open>Get and Add implement the store interface\<close>

lemma cas_Get_any:
  assumes P: "\<And>x y. P x y \<Longrightarrow> prefix x y" and hex: "hex_name h" and inv: "cas_inv P R view C s"
    and len: "len \<le> int (length dst)" and g: "cas_Get R now s h off len dst = (s', dst', res)"
  shows "cas_inv P R view C s' \<and> same_disk s s' \<and> res \<noteq> Panic \<and> length dst' = length dst \<and>
    (\<forall>n. res = Ok n \<longrightarrow> get_ok C h off len dst dst' n)"
proof -
  consider (none) "len \<le> 0" | (negative) "0 < len" "off < 0" | (range) "0 < len" "0 \<le> off" by linarith
  then show ?thesis
  proof cases
    case range
    note spec = cas_Get_spec [OF P hex inv, of "nat len" dst now "nat off" s' dst' res]
    have "read_ok C h (nat off) (nat len) dst 0 dst' n \<Longrightarrow> get_ok C h off len dst dst' n" for n
      using range unfolding read_ok_def get_ok_def by fastforce
    with spec range len g show ?thesis by simp
  next
    case negative
    obtain s2 where s2: "cas_inv P R view C s2" "same_disk s s2"
      "cas_Get R now s h off len dst = (case get_loop R h s2 off len dst 0 of
         (s3, dst', r) \<Rightarrow> (s3\<lparr>cas_metrics := updateHitRatios (cas_metrics s3)\<rparr>, dst', r))"
      using cas_Get_loop [OF inv] by blast
    obtain s3 dst3 r where l: "get_loop R h s2 off len dst 0 = (s3, dst3, r)" by (rule prod_cases3)
    note neg = get_loop_negative [OF s2(1) hex negative(2,1) P l]
    show ?thesis using g s2 l neg same_disk_trans [of s s2 s3] by auto
  next
    case none
    obtain s2 where s2: "cas_inv P R view C s2" "same_disk s s2"
      "cas_Get R now s h off len dst = (case get_loop R h s2 off len dst 0 of
         (s3, dst', r) \<Rightarrow> (s3\<lparr>cas_metrics := updateHitRatios (cas_metrics s3)\<rparr>, dst', r))"
      using cas_Get_loop [OF inv] by blast
    have "\<not> len > 0" using none by simp
    then have "get_loop R h s2 off len dst 0 = (s2, dst, Ok 0)"
      unfolding get_loop.simps [of R h s2 off len dst 0] by (simp only: simp_thms if_True)
    with g s2 show ?thesis by (auto simp: get_ok_def)
  qed
qed

text \<open>\<open>P\<close> is one of the two relations of interest, and covers the writes of the file system.\<close>

definition cas_good :: "(bytes \<Rightarrow> bytes \<Rightarrow> bool) \<Rightarrow> 'c ristretto \<Rightarrow> ('c \<Rightarrow> string \<Rightarrow> cache_item option)
    \<Rightarrow> (string \<Rightarrow> bytes option) \<Rightarrow> 'c cas \<Rightarrow> bool" where
  "cas_good P R view C s \<longleftrightarrow> cas_inv P R view C s \<and> covers_writes P (cas_fs s) \<and> (\<forall>x y. P x y \<longrightarrow> prefix x y)"

lemma cas_goodD:
  assumes "cas_good P R view C s"
  shows "cas_inv P R view C s" "covers_writes P (cas_fs s)" "\<And>x y. P x y \<Longrightarrow> prefix x y"
  using assms by (simp_all add: cas_good_def)

lemma cas_good_keeps:
  "cas_good P R view C s \<Longrightarrow> keeps s s' \<Longrightarrow> cas_inv P R view C' s' \<Longrightarrow> cas_good P R view C' s'"
  by (simp add: cas_good_def covers_writes_keeps)

lemma good_bound: "cas_good P R view C s \<Longrightarrow> C h = Some c \<Longrightarrow> int (length c) < 2 ^ 62"
  using cas_invD(6) cas_goodD(1) by blast

lemma good_Get:
  assumes "cas_good P R view C s" "hex_name h" "len \<le> int (length dst)"
    "cas_Get R now s h off len dst = (s', dst', res)"
  shows "cas_good P R view C s'" "keeps s s'" "res \<noteq> Panic" "length dst' = length dst"
    "res = Ok n \<Longrightarrow> get_ok C h off len dst dst' n"
  using cas_Get_any [OF cas_goodD(3) [OF assms(1)] assms(2) cas_goodD(1) [OF assms(1)] assms(3,4)]
    keeps_same_disk [of s s'] cas_good_keeps [OF assms(1)] by auto

lemma good_Add:
  assumes "cas_good P R view C s" "hex_name h" "int (length c) < 2 ^ 62" "C h = None \<or> C h = Some c"
    "cas_Add R s h c = (s', r)"
  shows "cas_good P R view (C(h \<mapsto> c)) s'" "keeps s s'" "r \<noteq> Panic"
    "r = Ok () \<Longrightarrow> \<not> cas_diskCachedUsageExceeded s \<Longrightarrow> disk_has s' h c" "same_pf s s'"
    "r = Ok () \<Longrightarrow> \<not> cas_diskCachedUsageExceeded s \<Longrightarrow>
       fs_nodes (cas_fs s') (filepath_Join [cas_diskCacheDir s', h]) = Some Dir"
  using cas_Add_spec [OF cas_goodD(1) [OF assms(1)] assms(2-4) cas_goodD(2) [OF assms(1)] assms(5)]
    cas_good_keeps [OF assms(1)] by auto

lemma good_full:
  assumes good: "cas_good (=) R view C s" and h: "hex_name h" and c: "C h = Some c" and d: "disk_has s h c"
    and len: "nat len \<le> length dst" and off: "0 \<le> off" "0 \<le> len"
    and g: "cas_Get R now s h off len dst = (s', dst', res)"
  shows "res = full_result (nat (page s)) (length c) (nat off) (nat len) 0"
proof -
  obtain s2 where s2: "cas_inv (=) R view C s2" "same_disk s s2"
    "cas_Get R now s h off len dst = (case get_loop R h s2 off len dst 0 of
       (s3, dst', r) \<Rightarrow> (s3\<lparr>cas_metrics := updateHitRatios (cas_metrics s3)\<rparr>, dst', r))"
    using cas_Get_loop [OF cas_goodD(1) [OF good]] by blast
  obtain s3 dst3 r where l: "get_loop R h s2 off len dst 0 = (s3, dst3, r)" by (rule prod_cases3)
  have "r = full_result (nat (page s2)) (length c) (nat off) (nat len) 0"
    using get_loop_full [where C = C and h = h, OF h c s2(1), of 0 "nat len" dst "nat off" s3 dst3 r]
      d disk_has_same [OF s2(2)] len off l by simp
  then show ?thesis using g s2 l page_same [OF s2(2)] by auto
qed

interpretation cas_partial: content_store hex_name "cas_good prefix R view" "cas_Get R" "cas_Add R"
  for R :: "'c ristretto" and view
proof (unfold_locales, goal_cases)
  case 1
  then show ?case by (rule good_bound)
next
  case 2
  then show ?case by (rule good_Get(1))
next
  case 3
  then show ?case by (rule good_Get(3))
next
  case 4
  then show ?case using good_Get(5) refl by blast
next
  case 5
  then show ?case by (rule good_Add(1))
next
  case 6
  then show ?case by (rule good_Add(3))
qed

interpretation cas_whole: complete_store hex_name "cas_good (=) R view" "cas_Get R" "cas_Add R" disk_has
    "\<lambda>s. \<not> cas_diskCachedUsageExceeded s"
  for R :: "'c ristretto" and view
proof (unfold_locales, goal_cases)
  case 1
  then show ?case by (rule good_bound)
next
  case 2
  then show ?case by (rule good_Get(1))
next
  case 3
  then show ?case by (rule good_Get(3))
next
  case 4
  then show ?case using good_Get(5) refl by blast
next
  case 5
  then show ?case by (rule good_Add(1))
next
  case 6
  then show ?case by (rule good_Add(3))
next
  case (7 C s h' len dst now off s' dst' r h c)
  then show ?case using disk_has_durable [OF cas_goodD(1) [OF good_Get(1) [OF 7(1-4)]] keeps_durable [OF good_Get(2) [OF 7(1-4)]]] by blast
next
  case (8 C s h' c' s' u h c)
  then have "(C(h' \<mapsto> c')) h = Some c" by auto
  then show ?case
    using disk_has_durable [OF cas_goodD(1) [OF good_Add(1) [OF 8(1-5)]] keeps_durable [OF good_Add(2) [OF 8(1-5)]] _ 8(7)] by blast
next
  case 9
  then show ?case using good_Add(4) refl by blast
next
  case (10 C s h c off len dst now s' dst' r)
  then show ?case using good_full [of R view C s h c len dst off now s' dst' r] by (auto simp: full_result_def)
qed

subsection \<open>Eviction\<close>

lemma Del_view:
  assumes "ristretto_contract R view"
  shows "view (rc_Del R c k) \<subseteq>\<^sub>m view c" "view (rc_Del R c k) k = None"
proof -
  have "view (rc_Del R c k) \<subseteq>\<^sub>m (view c)(k := None)" using contract_Del [OF assms] .
  moreover have "(view c)(k := None) \<subseteq>\<^sub>m view c" by (simp add: map_le_def)
  ultimately show "view (rc_Del R c k) \<subseteq>\<^sub>m view c" "view (rc_Del R c k) k = None"
    using map_le_trans by (blast, auto simp: map_le_def dom_def)
qed

lemma del_all_le: "ristretto_contract R view \<Longrightarrow> view (del_all R c ks) \<subseteq>\<^sub>m view c"
proof (induction ks arbitrary: c)
  case (Cons a ks)
  then show ?case using map_le_trans [OF Cons.IH Del_view(1)] by simp
qed simp

lemma del_all_gone: "ristretto_contract R view \<Longrightarrow> k \<in> set ks \<Longrightarrow> view (del_all R c ks) k = None"
proof (induction ks arbitrary: c)
  case (Cons a ks)
  have "view (rc_Del R c a) a = None" using Del_view(2) [OF Cons.prems(1)] .
  then have "view (del_all R (rc_Del R c a) ks) a = None"
    using del_all_le [OF Cons.prems(1), of "rc_Del R c a" ks] by (auto simp: map_le_def dom_def)
  with Cons show ?case by auto
qed simp

lemma chunk_key_no_comma: "hex_name h \<Longrightarrow> CHR '','' \<notin> set (chunk_key h (int i))"
  using hex_name_free(4) [of h] chunk_key_chars [of "CHR '',''" h "int i"] by (auto simp: is_digit_def)

lemma object_keys_split:
  assumes "hex_name h" "c \<noteq> []" "0 < p"
  shows "split_on CHR '','' (join_with CHR '','' (object_keys p h c)) = object_keys p h c"
proof -
  have "nchunks p (length c) \<noteq> 0" using less_nchunks [OF assms(3), of 0 "length c"] assms(2) by simp
  then show ?thesis using chunk_key_no_comma [OF assms(1)] by (intro split_join) (auto simp: object_keys_def)
qed

text \<open>The eviction callback, called with an item that was in the cache while the cache holds no more than
  before: it never panics, only removes entries, and removes every chunk of the object whose entry it
  finds.\<close>

lemma onEvict_spec:
  assumes good: "cas_good P R view C s" and item: "view (cas_cache s) k = Some item"
    and c0: "view c0 \<subseteq>\<^sub>m view (cas_cache s)" and e: "onEvict R c0 item = (c1, r)"
  shows "r = Ok ()" and "view c1 \<subseteq>\<^sub>m view (cas_cache s)"
    and "item = ChunkKeys ks \<Longrightarrow> C k = Some c \<Longrightarrow> i * nat (page s) < length c \<Longrightarrow> view c1 (chunk_key k (int i)) = None"
proof -
  note inv = cas_goodD(1) [OF good]
  note R = cas_invD(1) [OF inv]
  have ok: "item_ok P (nat (page s)) C k item" using cas_invD(7) [OF inv item] .
  have "r = Ok () \<and> view c1 \<subseteq>\<^sub>m view (cas_cache s)"
  proof (cases item)
    case (CacheValue h b)
    then have h: "hex_name h" using ok cas_invD(5) [OF inv] by (auto simp: item_ok_def)
    obtain c2 l where g: "rc_Get R c0 h = (c2, l)" by (rule prod.exhaust)
    note gl = contract_Get [OF R g]
    have "\<exists>ks. v = ChunkKeys ks" if "l = Some v" for v
    proof -
      have "item_ok P (nat (page s)) C h v" using cas_invD(7) [OF inv map_leD [OF c0 gl(2) [OF that]]] .
      then show ?thesis using h chunk_key_not_hex by (cases v) (auto simp: item_ok_def)
    qed
    then have "onEvict R c0 item = (case l of Some (ChunkKeys ks) \<Rightarrow> (del_all R c2 (split_on CHR '','' ks), Ok ())
        | _ \<Rightarrow> (del_all R c2 [], Ok ()))"
      using CacheValue g by (cases l) (auto simp: onEvict_def evicted_keys_def)
    then have "onEvict R c0 item = (del_all R c2 (case l of Some (ChunkKeys ks) \<Rightarrow> split_on CHR '','' ks | _ \<Rightarrow> []), Ok ())"
      by (auto split: option.splits cache_item.splits)
    then obtain ks where "onEvict R c0 item = (del_all R c2 ks, Ok ())" by blast
    then show ?thesis using e map_le_trans [OF del_all_le [OF R] map_le_trans [OF gl(1) c0]] by auto
  next
    case (ChunkKeys v)
    then have "c1 = del_all R c0 (split_on CHR '','' v)" "r = Ok ()"
      using e by (simp_all add: onEvict_def evicted_keys_def)
    then show ?thesis using map_le_trans [OF del_all_le [OF R] c0] by simp
  qed
  then show "r = Ok ()" "view c1 \<subseteq>\<^sub>m view (cas_cache s)" by simp_all
  assume a: "item = ChunkKeys ks" "C k = Some c" "i * nat (page s) < length c"
  have pos: "0 < nat (page s)" using inv_page_nat [OF inv] by simp
  have "c1 = del_all R c0 (split_on CHR '','' (join_with CHR '','' (object_keys (nat (page s)) k c)))"
    using e ok a by (simp add: onEvict_def evicted_keys_def item_ok_def)
  then have "c1 = del_all R c0 (object_keys (nat (page s)) k c)"
    using object_keys_split [OF cas_invD(5) [OF inv a(2)] _ pos, of c] a(3) by force
  moreover have "chunk_key k (int i) \<in> set (object_keys (nat (page s)) k c)"
    using less_nchunks [OF pos] a(3) by (auto simp: object_keys_def)
  ultimately show "view c1 (chunk_key k (int i)) = None" by (simp add: del_all_gone [OF R])
qed

subsection \<open>Prefetch workers\<close>

text \<open>Reads leave the buffer pool alone and touch the prefetcher only through \<^verbatim>\<open>OnRead\<close>.\<close>

lemma get_chunk_pf: "get_chunk R s h k = (s', fm, r) \<Longrightarrow> same_pf s s'"
  by (auto simp: get_chunk_def getFromDiskCache_def same_pf_def Let_def
      split: prod.splits option.splits cache_item.splits res.splits)

lemma get_loop_pf: "get_loop R h s o1 rem dst d = (s', dst', r) \<Longrightarrow> same_pf s s'"
proof (induction "nat rem" arbitrary: s o1 rem dst d rule: less_induct)
  case less
  obtain s1 fm v where g: "get_chunk R s h (chunk_key h (o1 sdiv page s)) = (s1, fm, v)" by (rule prod_cases3)
  note pf = get_chunk_pf [OF g]
  have step: "same_pf s s'" if "n > 0" "rem > 0"
    "get_loop R h (s1\<lparr>cas_metrics := m\<rparr>) o2 (rem - n) dst2 d2 = (s', dst', r)" for n m o2 dst2 d2
    using less.hyps [OF _ that(3)] that(1,2) pf by (simp add: same_pf_def)
  show ?case
  proof (cases "rem > 0 \<and> page s \<noteq> 0")
    case False
    with less.prems show ?thesis
      unfolding get_loop.simps [of R h s o1 rem dst d] by (auto simp: same_pf_def split: if_splits)
  next
    case True
    show ?thesis
    proof (cases "\<exists>x b. v = Ok (CacheValue x b)")
      case False
      with less.prems g pf True show ?thesis
        unfolding get_loop.simps [of R h s o1 rem dst d] by (auto split: res.splits cache_item.splits)
    next
      case v: True
      then obtain x b where b: "v = Ok (CacheValue x b)" by blast
      define n where "n = min rem (wrap64 (int (length b) - o1 smod page s))"
      define dst2 where "dst2 = copy_at dst (nat d) (take (nat n) (drop (nat (o1 smod page s)) b))"
      have "s' = s1 \<or> (0 < n \<and> get_loop R h (s1\<lparr>cas_metrics := count_read fm n (cas_metrics s1)\<rparr>)
          (wrap64 (o1 + n)) (rem - n) dst2 (d + n) = (s', dst', r))"
        using less.prems g True b unfolding get_loop.simps [of R h s o1 rem dst d] Let_def
        by (simp only: n_def [symmetric] dst2_def [symmetric] prod.case res.case cache_item.case)
          (auto simp: n_def split: if_splits)
      then show ?thesis using step True pf by blast
    qed
  qed
qed

lemma cas_Get_pf:
  assumes "cas_Get R now s h off len dst = (s', dst', r)"
  shows "cas_prefetcher s' = OnRead now (cas_prefetcher s) h off len" "cas_bufferPool s' = cas_bufferPool s"
  using assms by (auto simp: cas_Get_def Let_def same_pf_def split: prod.splits dest!: get_loop_pf)

text \<open>Only hashes that were read are read ahead.\<close>

definition pf_hashes :: "Prefetcher \<Rightarrow> bool" where
  "pf_hashes pf \<longleftrightarrow> (\<forall>t \<in> set (workQueue pf). hex_name (pt_hash t)) \<and> (\<forall>r \<in> set (pf_runs pf). hex_name (pr_hash r))"

lemma startPrefetch_hashes: "pf_hashes pf \<Longrightarrow> hex_name h \<Longrightarrow> pf_hashes (startPrefetch pf h off)"
  by (auto simp: pf_hashes_def startPrefetch_def split: option.splits)

lemma set_state_hashes [simp]: "pf_hashes (set_state pf h f) = pf_hashes pf"
  by (simp add: pf_hashes_def)

lemma OnRead_hashes: "pf_hashes pf \<Longrightarrow> hex_name h \<Longrightarrow> pf_hashes (OnRead now pf h off len)"
  by (cases "states pf h") (auto simp: OnRead_def Let_def startPrefetch_hashes, simp add: pf_hashes_def)

lemma run_send_hashes: "pf_hashes pf \<Longrightarrow> run_send pf k = Some pf' \<Longrightarrow> pf_hashes pf'"
  by (auto simp: pf_hashes_def run_send_def Let_def split: if_splits dest!: set_update_subset_insert [THEN subsetD])

lemma run_finish_hashes:
  assumes "pf_hashes pf" "run_finish pf k = Some pf'"
  shows "pf_hashes pf'"
proof -
  have "workQueue pf' = workQueue pf" "set (pf_runs pf') \<subseteq> set (pf_runs pf)"
    using assms(2) by (auto simp: run_finish_def Let_def split: if_splits dest: in_set_takeD in_set_dropD)
  with assms(1) show ?thesis by (auto simp: pf_hashes_def)
qed

text \<open>The invariant of the storage with its prefetcher and buffer pool.\<close>

definition sys_inv :: "(bytes \<Rightarrow> bytes \<Rightarrow> bool) \<Rightarrow> 'c ristretto \<Rightarrow> ('c \<Rightarrow> string \<Rightarrow> cache_item option)
    \<Rightarrow> (string \<Rightarrow> bytes option) \<Rightarrow> 'c cas \<Rightarrow> bool" where
  "sys_inv P R view C s \<longleftrightarrow> cas_good P R view C s \<and> pf_inv (cas_prefetcher s) \<and> pf_hashes (cas_prefetcher s) \<and>
     pool_wf (cas_bufferPool s)"

lemma cas_good_frame [simp]:
  "cas_good P R view C (s\<lparr>cas_prefetcher := pf\<rparr>) = cas_good P R view C s"
  "cas_good P R view C (s\<lparr>cas_metrics := m\<rparr>) = cas_good P R view C s"
  "cas_good P R view C (s\<lparr>cas_bufferPool := bp\<rparr>) = cas_good P R view C s"
  "cas_good P R view C (s\<lparr>cas_diskCachedUsageExceeded := x\<rparr>) = cas_good P R view C s"
  by (simp_all add: cas_good_def)

lemma cas_good_shrink:
  "cas_good P R view C s \<Longrightarrow> view c' \<subseteq>\<^sub>m view (cas_cache s) \<Longrightarrow> cas_good P R view C (s\<lparr>cas_cache := c'\<rparr>)"
  by (simp add: cas_good_def cas_inv_cache)

lemma sys_Get:
  assumes "sys_inv P R view C s" "hex_name h" "len \<le> int (length dst)"
    "cas_Get R now s h off len dst = (s', dst', res)"
  shows "sys_inv P R view C s'" "res \<noteq> Panic" "durable s s'"
proof -
  note s = assms(1) [unfolded sys_inv_def]
  have g: "cas_good P R view C s" using s by blast
  have "cas_good P R view C s'" "res \<noteq> Panic" "durable s s'"
    using good_Get(1-3) [OF g assms(2-4)] keeps_durable by blast+
  with s cas_Get_pf [OF assms(4)] show "sys_inv P R view C s'" "res \<noteq> Panic" "durable s s'"
    by (simp_all add: sys_inv_def OnRead_inv OnRead_hashes assms(2))
qed

lemma cas_Exists_good:
  assumes "sys_inv P R view C s" "cas_Exists R s h = (s', b)"
  shows "sys_inv P R view C s'"
proof -
  obtain c1 ex where g: "rc_GetTTL R (cas_cache s) h = (c1, ex)" by (rule prod.exhaust)
  have good: "cas_good P R view C s" using assms(1) by (simp add: sys_inv_def)
  have "cas_good P R view C (s\<lparr>cas_cache := c1\<rparr>)"
    using cas_good_shrink [OF good contract_GetTTL [OF cas_invD(1) [OF cas_goodD(1) [OF good]] g]] .
  moreover have "s' = s\<lparr>cas_cache := c1\<rparr>" using assms(2) g by (auto simp: cas_Exists_def Let_def split: if_splits)
  ultimately show ?thesis using assms(1) by (simp add: sys_inv_def)
qed

lemma cas_worker_good:
  assumes inv: "sys_inv P R view C s" and w: "cas_worker R pick now s = Some (s', r)"
  shows "sys_inv P R view C s'" "r = Ok ()" "durable s s'"
proof -
  obtain t q where q: "workQueue (cas_prefetcher s) = t # q" using w by (auto simp: cas_worker_def split: list.splits)
  have t: "hex_name (pt_hash t)" "pt_length t = prefetchChunkSize"
    using inv q by (auto simp: sys_inv_def pf_hashes_def pf_inv_def)
  define s0 where "s0 = s\<lparr>cas_prefetcher := (cas_prefetcher s)\<lparr>workQueue := q\<rparr>\<rparr>"
  have i0: "sys_inv P R view C s0"
    using inv q by (auto simp: sys_inv_def s0_def pf_inv_def pf_hashes_def runs_for_def)
  obtain s1 ex where e: "cas_Exists R s0 (pt_hash t) = (s1, ex)" by (rule prod.exhaust)
  have i1: "sys_inv P R view C s1" using cas_Exists_good [OF i0 e] .
  obtain bp b where g: "bp_Get pick (cas_bufferPool s1) (pt_length t) = (bp, b)" by (rule prod.exhaust)
  obtain buf where wf: "pool_wf bp" and cap: "int (sl_cap buf) = selectPoolSize (pt_length t)"
    and b: "b = reslice buf (pt_length t)"
    using bp_Get_unfold [OF _ g] i1 by (auto simp: sys_inv_def)
  have ln: "0 \<le> pt_length t" "pt_length t \<le> int (sl_cap buf)"
    unfolding cap t(2) by (simp_all add: prefetch_constants selectPoolSize_def buffer_sizes)
  define dst where "dst = buf\<lparr>sl_len := nat (pt_length t)\<rparr>"
  have bd: "b = Ok dst" using ln b by (simp add: reslice_def dst_def)
  have i2: "sys_inv P R view C (s1\<lparr>cas_bufferPool := bp\<rparr>)" using i1 wf by (simp add: sys_inv_def)
  obtain s2 arr r2 where gg: "cas_Get R now (s1\<lparr>cas_bufferPool := bp\<rparr>) (pt_hash t) (pt_offset t) (pt_length t) (sl_arr dst) = (s2, arr, r2)"
    by (rule prod_cases3)
  have len: "pt_length t \<le> int (length (sl_arr dst))" using ln(2) by (simp add: dst_def sl_cap_def)
  note i3 = sys_Get [OF i2 t(1) len gg]
  have "durable s s1" using e by (auto simp: durable_def s0_def cas_Exists_def Let_def split: prod.splits if_splits)
  moreover have "durable s1 s2" using i3(3) by (simp add: durable_def)
  ultimately have d: "durable s s1" "durable s s2" using durable_trans by blast+
  have "(s' = s1 \<or> s' = s2\<lparr>cas_bufferPool := bp_Put (cas_bufferPool s2) (Some (dst\<lparr>sl_arr := arr\<rparr>))\<rparr>) \<and> r = Ok ()"
    using w q e g bd gg i3(2) by (auto simp: cas_worker_def s0_def [symmetric] Let_def split: if_splits)
  moreover have "sys_inv P R view C (s2\<lparr>cas_bufferPool := bp_Put (cas_bufferPool s2) (Some (dst\<lparr>sl_arr := arr\<rparr>))\<rparr>)"
    using i3(1) bp_Put_wf by (simp add: sys_inv_def)
  ultimately show "sys_inv P R view C s'" "r = Ok ()" "durable s s'"
    using i1 d by (auto simp: durable_def)
qed

subsection \<open>All interleavings\<close>

definition fresh_disk :: "fs \<Rightarrow> string \<Rightarrow> bool" where
  "fresh_disk f d \<longleftrightarrow> (\<forall>h i b. hex_name h \<longrightarrow> fs_nodes f (chunk_path d h i) \<noteq> Some (File b))"

text \<open>
  One operation of the running storage, with the contents added so far. Hashes are those the server
  computes (hexadecimal), and no two different contents share one. \<open>step_evict\<close> is the callback for an item the
  cache drops, \<open>step_drop\<close> any other loss of cache entries, \<open>step_tick\<close> the disk monitor, \<open>step_restart\<close> a new process on
  the same directory with an empty memory cache.
\<close>

inductive cas_step :: "'c ristretto \<Rightarrow> ('c \<Rightarrow> string \<Rightarrow> cache_item option)
    \<Rightarrow> (string \<Rightarrow> bytes option) \<Rightarrow> 'c cas \<Rightarrow> (string \<Rightarrow> bytes option) \<Rightarrow> 'c cas \<Rightarrow> bool" for R view where
  step_add: "hex_name h \<Longrightarrow> int (length c) < 2 ^ 62 \<Longrightarrow> C h = None \<or> C h = Some c \<Longrightarrow>
     cas_Add R s h c = (s', r) \<Longrightarrow> cas_step R view C s (C(h \<mapsto> c)) s'"
| step_get: "hex_name h \<Longrightarrow> len \<le> int (length dst) \<Longrightarrow>
     cas_Get R now s h off len dst = (s', dst', res) \<Longrightarrow> cas_step R view C s C s'"
| step_exists: "cas_Exists R s h = (s', b) \<Longrightarrow> cas_step R view C s C s'"
| step_worker: "cas_worker R pick now s = Some (s', r) \<Longrightarrow> cas_step R view C s C s'"
| step_evict: "view (cas_cache s) k = Some item \<Longrightarrow> view c0 \<subseteq>\<^sub>m view (cas_cache s) \<Longrightarrow>
     onEvict R c0 item = (c1, r) \<Longrightarrow> cas_step R view C s C (s\<lparr>cas_cache := c1\<rparr>)"
| step_drop: "view c1 \<subseteq>\<^sub>m view (cas_cache s) \<Longrightarrow> cas_step R view C s C (s\<lparr>cas_cache := c1\<rparr>)"
| step_tick: "cas_step R view C s C (monitorDiskCacheUsage walk statfs availMb memMb s)"
| step_send: "run_send (cas_prefetcher s) k = Some pf \<Longrightarrow> cas_step R view C s C (s\<lparr>cas_prefetcher := pf\<rparr>)"
| step_finish: "run_finish (cas_prefetcher s) k = Some pf \<Longrightarrow> cas_step R view C s C (s\<lparr>cas_prefetcher := pf\<rparr>)"
| step_cleanup: "cas_step R view C s C (s\<lparr>cas_prefetcher := cleanup now (cas_prefetcher s)\<rparr>)"
| step_restart: "NewContentAddressableStorage newCache mem (cas_fs s) config = Ok s' \<Longrightarrow>
     sc_DiskCacheDir (cfg_Server config) = cas_diskCacheDir s \<Longrightarrow>
     sc_PageSizeBytes (cfg_Server config) = page s \<Longrightarrow>
     view (cas_cache s') = Map.empty \<Longrightarrow> cas_step R view C s C s'"

inductive storage_run :: "'c ristretto \<Rightarrow> ('c \<Rightarrow> string \<Rightarrow> cache_item option)
    \<Rightarrow> (string \<Rightarrow> bytes option) \<Rightarrow> 'c cas \<Rightarrow> bool" for R view where
  run_start: "ristretto_contract R view \<Longrightarrow> fresh_disk f (sc_DiskCacheDir (cfg_Server config)) \<Longrightarrow>
     sc_DiskCacheDir (cfg_Server config) \<noteq> [] \<Longrightarrow> sc_PageSizeBytes (cfg_Server config) < 2 ^ 62 \<Longrightarrow>
     NewContentAddressableStorage newCache mem f config = Ok s \<Longrightarrow> view (cas_cache s) = Map.empty \<Longrightarrow>
     storage_run R view Map.empty s"
| run_step: "storage_run R view C s \<Longrightarrow> cas_step R view C s C' s' \<Longrightarrow> storage_run R view C' s'"

lemma NewCAS_fields:
  assumes "NewContentAddressableStorage newCache mem f config = Ok s"
  shows "cas_fs s = f" "cas_serverConfig s = cfg_Server config" "cas_diskCacheDir s = sc_DiskCacheDir (cfg_Server config)"
    "cas_prefetcher s = NewPrefetcher" "cas_bufferPool s = NewBufferPool" "0 < page s"
    "\<not> cas_diskCachedUsageExceeded s"
  using assms by (auto simp: NewContentAddressableStorage_def Let_def split: if_splits res.splits)

lemma pf_new: "pf_inv NewPrefetcher" "pf_hashes NewPrefetcher"
  by (simp_all add: pf_inv_def pf_hashes_def NewPrefetcher_def)

lemma step_durable:
  assumes "sys_inv P R view C s" "cas_step R view C s C' s'"
  shows "durable s s'"
  using assms(2)
proof cases
  case (step_add h c r)
  then show ?thesis using assms(1) good_Add(2) keeps_durable unfolding sys_inv_def by blast
next
  case (step_get h len dst now off dst' res)
  then show ?thesis using assms(1) good_Get(2) keeps_durable unfolding sys_inv_def by blast
next
  case (step_worker pick now r)
  then show ?thesis using cas_worker_good(3) [OF assms(1)] by blast
next
  case (step_restart newCache mem config)
  then show ?thesis using NewCAS_fields [OF step_restart(2)] by (simp add: durable_def)
next
  case (step_tick walk statfs availMb memMb)
  then show ?thesis by (auto simp: durable_def monitorDiskCacheUsage_def Let_def split: res.splits)
qed (auto simp: durable_def cas_Exists_def Let_def split: prod.splits if_splits)

lemma restart_good:
  assumes good: "cas_good P R view C s" and "NewContentAddressableStorage newCache mem (cas_fs s) config = Ok s'"
    "sc_DiskCacheDir (cfg_Server config) = cas_diskCacheDir s" "sc_PageSizeBytes (cfg_Server config) = page s"
    "view (cas_cache s') = Map.empty"
  shows "cas_good P R view C s'"
  using good NewCAS_fields [OF assms(2)] assms(3-5) by (simp add: cas_good_def cas_inv_def)

lemma step_sys_inv:
  assumes inv: "sys_inv P R view C s" and "cas_step R view C s C' s'"
  shows "sys_inv P R view C' s'"
proof -
  have good: "cas_good P R view C s" and pf: "pf_inv (cas_prefetcher s)" "pf_hashes (cas_prefetcher s)"
    and pool: "pool_wf (cas_bufferPool s)" using inv by (simp_all add: sys_inv_def)
  from assms(2) show ?thesis
  proof cases
    case (step_add h c r)
    then have "cas_good P R view C' s'" using good_Add(1) [OF good] by simp
    moreover have "cas_prefetcher s' = cas_prefetcher s" "cas_bufferPool s' = cas_bufferPool s"
      using good_Add(5) [OF good] step_add by (simp_all add: same_pf_def)
    ultimately show ?thesis using inv by (simp add: sys_inv_def)
  next
    case (step_get h len dst now off dst' res)
    then show ?thesis using sys_Get(1) [OF inv] by simp
  next
    case (step_exists h b)
    then show ?thesis using cas_Exists_good [OF inv] by simp
  next
    case (step_worker pick now r)
    then show ?thesis using cas_worker_good(1) [OF inv] by simp
  next
    case (step_evict k item c0 c1 r)
    then show ?thesis using inv cas_good_shrink [OF good onEvict_spec(2) [OF good]] by (simp add: sys_inv_def)
  next
    case (step_drop c1)
    then show ?thesis using inv cas_good_shrink [OF good] by (simp add: sys_inv_def)
  next
    case (step_tick walk statfs availMb memMb)
    then show ?thesis using inv by (auto simp: sys_inv_def monitorDiskCacheUsage_def Let_def split: res.splits)
  next
    case (step_send k pf)
    then show ?thesis using inv run_send_inv run_send_hashes by (auto simp: sys_inv_def)
  next
    case (step_finish k pf)
    then show ?thesis using inv run_finish_inv run_finish_hashes by (auto simp: sys_inv_def)
  next
    case (step_cleanup now)
    then show ?thesis using inv cleanup_inv by (auto simp: sys_inv_def pf_hashes_def cleanup_def)
  next
    case (step_restart newCache mem config)
    then show ?thesis
      using restart_good [OF good] NewCAS_fields [OF step_restart(2)] pf_new pool_wf_new by (simp add: sys_inv_def)
  qed
qed

lemma run_sys_prefix: "storage_run R view C s \<Longrightarrow> sys_inv prefix R view C s"
proof (induction rule: storage_run.induct)
  case (run_start f config newCache mem s)
  note n = NewCAS_fields [OF run_start(5)]
  have "cas_inv prefix R view Map.empty s"
    using run_start n by (simp add: cas_inv_def fresh_disk_def)
  then show ?case using n pf_new pool_wf_new by (simp add: sys_inv_def cas_good_def covers_writes_prefix)
next
  case (run_step C s C' s')
  then show ?case using step_sys_inv by blast
qed

lemma run_sys_inv:
  assumes "storage_run R view C s" "covers_writes P (cas_fs s)" "\<And>x y. P x y \<Longrightarrow> prefix x y"
  shows "sys_inv P R view C s"
  using assms(1,2)
proof (induction rule: storage_run.induct)
  case (run_start f config newCache mem s)
  note n = NewCAS_fields [OF run_start(5)]
  have "cas_inv P R view Map.empty s"
    using run_start n by (simp add: cas_inv_def fresh_disk_def)
  then show ?case using run_start n pf_new pool_wf_new assms(3) by (simp add: sys_inv_def cas_good_def)
next
  case (run_step C s C' s')
  have "sys_inv prefix R view C s" using run_sys_prefix [OF run_step(1)] .
  then have "durable s s'" using step_durable run_step(2) by blast
  then have "covers_writes P (cas_fs s)" using run_step(4) by (simp add: durable_def covers_writes_def)
  then show ?case using run_step step_sys_inv by blast
qed

text \<open>Everything that can happen after a given state.\<close>

inductive later_run :: "'c ristretto \<Rightarrow> ('c \<Rightarrow> string \<Rightarrow> cache_item option)
    \<Rightarrow> (string \<Rightarrow> bytes option) \<Rightarrow> 'c cas \<Rightarrow> (string \<Rightarrow> bytes option) \<Rightarrow> 'c cas \<Rightarrow> bool" for R view C s where
  later_refl: "later_run R view C s C s"
| later_step: "later_run R view C s C1 s1 \<Longrightarrow> cas_step R view C1 s1 C2 s2 \<Longrightarrow> later_run R view C s C2 s2"

lemma cas_step_extends: "cas_step R view C s C' s' \<Longrightarrow> C \<subseteq>\<^sub>m C'"
  by (induction rule: cas_step.induct) (auto simp: map_le_def)

lemma durable_refl: "durable s s"
  by (simp add: durable_def)

lemma later_runD:
  assumes "later_run R view C s C' s'" "storage_run R view C s"
  shows "storage_run R view C' s'" "durable s s'" "C \<subseteq>\<^sub>m C'"
proof -
  have "storage_run R view C' s' \<and> durable s s' \<and> C \<subseteq>\<^sub>m C'"
    using assms
  proof (induction rule: later_run.induct)
    case later_refl
    then show ?case by (simp add: durable_refl)
  next
    case (later_step C1 s1 C2 s2)
    then have "durable s1 s2" using step_durable run_sys_prefix by blast
    with later_step show ?case
      using durable_trans cas_step_extends map_le_trans by (blast intro: run_step)
  qed
  then show "storage_run R view C' s'" "durable s s'" "C \<subseteq>\<^sub>m C'" by blast+
qed

end
