(* ===== verification/Config.thy ===== *)
theory Config
  imports Blob_Types
begin

text \<open>
  \<^verbatim>\<open>src/pkg/config.go\<close> and the embedded \<^verbatim>\<open>src/pkg/config.default.yaml\<close>: which sources the configuration manager
  loads, in which order and under which struct tags it is decoded, and the configuration that the embedded
  defaults alone decode to. The parser and the merged key store (the package koanf) are parameters.
\<close>

subsection \<open>The configuration manager\<close>

type_synonym ConfigFormat = string

definition JSONConfigFormat :: ConfigFormat where "JSONConfigFormat = ''.json''"
definition YAMLConfigFormat :: ConfigFormat where "YAMLConfigFormat = ''.yaml''"
definition YMLConfigFormat :: ConfigFormat where "YMLConfigFormat = ''.yml''"

datatype config_parser = JsonParser | YamlParser

definition GetConfigParser :: "ConfigFormat \<Rightarrow> config_parser res" where
  "GetConfigParser format =
     (if format = JSONConfigFormat then Ok JsonParser
      else if format = YAMLConfigFormat then Ok YamlParser
      else if format = YMLConfigFormat then Ok YamlParser
      else Err (ErrMsg (''parser not found for format'' @ format)))"

text \<open>\<open>load\<close> is koanf's \<^verbatim>\<open>Load\<close>: it merges a parsed document into the key store or fails.\<close>

definition LoadConfig :: "('k \<Rightarrow> 'd \<Rightarrow> config_parser \<Rightarrow> 'k res) \<Rightarrow> 'k \<Rightarrow> ConfigFormat \<Rightarrow> 'd \<Rightarrow> 'k res" where
  "LoadConfig load kf format provider =
     (case GetConfigParser format of Ok p \<Rightarrow> load kf provider p | Err e \<Rightarrow> Err e | Panic \<Rightarrow> Panic)"

record 'k ConfigManager =
  cm_kf :: 'k
  cm_configFormat :: ConfigFormat

text \<open>The extension of a path (\<^verbatim>\<open>filepath.Ext\<close>): from the last dot of the last element on.\<close>

definition filepath_Ext :: "string \<Rightarrow> string" where
  "filepath_Ext p =
     (let tl = takeWhile (\<lambda>c. c \<noteq> CHR ''.'' \<and> c \<noteq> CHR ''/'') (rev p);
          rest = dropWhile (\<lambda>c. c \<noteq> CHR ''.'' \<and> c \<noteq> CHR ''/'') (rev p)
      in case rest of [] \<Rightarrow> [] | c # _ \<Rightarrow> if c = CHR ''.'' then c # rev tl else [])"

text \<open>
  \<^verbatim>\<open>NewConfigManager\<close>: the embedded defaults, then the file of \<^verbatim>\<open>CONFIG_PATH\<close>, then \<^verbatim>\<open>CONFIG_JSON\<close>; a failure
  to load the last ends the process. \<open>getenv\<close> is the environment, \<open>fileP\<close> and \<open>rawP\<close> the two koanf providers.
\<close>

definition NewConfigManager :: "('k \<Rightarrow> 'd \<Rightarrow> config_parser \<Rightarrow> 'k res) \<Rightarrow> 'k \<Rightarrow> (string \<Rightarrow> 'd) \<Rightarrow> (string \<Rightarrow> 'd)
    \<Rightarrow> 'd \<Rightarrow> (string \<Rightarrow> string) \<Rightarrow> 'k ConfigManager res" where
  "NewConfigManager load newKf fileP rawP defaultConfig getenv =
     (case LoadConfig load newKf YAMLConfigFormat defaultConfig of
        Err e \<Rightarrow> Err e
      | Panic \<Rightarrow> Panic
      | Ok k0 \<Rightarrow>
          (let cp = getenv ''CONFIG_PATH'';
               ce = filepath_Ext cp
           in case (if cp \<noteq> [] \<and> ce \<noteq> [] then
                      (case LoadConfig load k0 ce (fileP cp) of
                         Ok k1 \<Rightarrow> Ok (k1, ce) | Err e \<Rightarrow> Err e | Panic \<Rightarrow> Panic)
                    else Ok (k0, YAMLConfigFormat)) of
                Err e \<Rightarrow> Err e
              | Panic \<Rightarrow> Panic
              | Ok (k1, fmt) \<Rightarrow>
                  (let configJson = getenv ''CONFIG_JSON''
                   in if configJson \<noteq> [] then
                        (case LoadConfig load k1 JSONConfigFormat (rawP configJson) of
                           Ok k2 \<Rightarrow> Ok \<lparr>cm_kf = k2, cm_configFormat = JSONConfigFormat\<rparr>
                         | _ \<Rightarrow> Panic)
                      else Ok \<lparr>cm_kf = k1, cm_configFormat = fmt\<rparr>)))"

text \<open>\<^verbatim>\<open>GetConfig\<close>: the struct tag that names the fields depends on the last format loaded.\<close>

definition config_tag :: "ConfigFormat \<Rightarrow> string" where
  "config_tag format = (if format = JSONConfigFormat then ''json'' else ''key'')"

definition GetConfig :: "('k \<Rightarrow> string \<Rightarrow> 'a res) \<Rightarrow> 'k ConfigManager \<Rightarrow> 'a res" where
  "GetConfig unmarshal cm =
     (case unmarshal (cm_kf cm) (config_tag (cm_configFormat cm)) of Ok c \<Rightarrow> Ok c | _ \<Rightarrow> Panic)"

subsection \<open>The embedded defaults\<close>

text \<open>
  What \<^verbatim>\<open>config.default.yaml\<close> decodes to under the \<^verbatim>\<open>key\<close> tags. Keys of the file that are no field of the struct are
  dropped: in the server section \<^verbatim>\<open>rttThresholdMilliseconds\<close>, \<^verbatim>\<open>hostStorageCapacityThresholdPct\<close>, \<^verbatim>\<open>options\<close>,
  \<^verbatim>\<open>downloadConcurrency\<close> and \<^verbatim>\<open>downloadChunkSize\<close> (the fields are \<^verbatim>\<open>s3DownloadConcurrency\<close> and \<^verbatim>\<open>s3DownloadChunkSize\<close>), and
  in the region \<^verbatim>\<open>default\<close> all of them (its only field is \<^verbatim>\<open>server\<close>).
\<close>

definition zero_ServerConfig :: BlobCacheServerConfig where
  "zero_ServerConfig = ServerConfig [] [] 0 False [] False 0 0 0 zero_MetadataConfig [] 0 0 []"

definition default_ServerConfig :: BlobCacheServerConfig where
  "default_ServerConfig =
     ServerConfig BlobCacheServerModeSlave ''/blobcache-data'' (95 / 100) False [] False 0 60 4000000
       zero_MetadataConfig [] 0 0 [(''default'', RegionConfig zero_ServerConfig)]"

definition default_config :: BlobCacheConfig where
  "default_config =
     \<lparr>cfg_Server = default_ServerConfig,
      cfg_Client = \<lparr>cc_Token = [], cc_MinRetryLengthBytes = 10000000, cc_MaxGetContentAttempts = 3, cc_NTopHosts = 3,
        cc_BlobFs = \<lparr>bf_Enabled = False, bf_MountPoint = ''/tmp/test'', bf_MaxBackgroundTasks = 512, bf_MaxWriteKB = 0,
          bf_MaxReadAheadKB = 128, bf_DirectMount = False, bf_DirectIO = False, bf_Options = []\<rparr>\<rparr>,
      cfg_Global = \<lparr>gc_DefaultLocality = ''default'', gc_CoordinatorHost = [], gc_ServerPort = 2049,
        gc_DiscoveryIntervalS = 5, gc_RoundTripThresholdMilliseconds = 100, gc_HostStorageCapacityThresholdPct = 95 / 100,
        gc_GRPCDialTimeoutS = 1, gc_GRPCMessageSizeBytes = 1000000000, gc_GRPCInitialWindowSize = 4194304,
        gc_GRPCInitialConnWindowSize = 33554432, gc_GRPCWriteBufferSize = 262144, gc_GRPCReadBufferSize = 262144,
        gc_GRPCMaxConcurrentStreams = 1024, gc_GRPCNumStreamWorkers = 0, gc_DebugMode = False, gc_PrettyLogs = False\<rparr>,
      cfg_Metrics = \<lparr>mc_PushIntervalS = 0, mc_URL = [], mc_Username = [], mc_Password = []\<rparr>\<rparr>"

subsection \<open>Lemmas\<close>

lemma LoadConfig_formats:
  "LoadConfig load kf YAMLConfigFormat d = load kf d YamlParser"
  "LoadConfig load kf YMLConfigFormat d = load kf d YamlParser"
  "LoadConfig load kf JSONConfigFormat d = load kf d JsonParser"
  by (simp_all add: LoadConfig_def GetConfigParser_def YAMLConfigFormat_def YMLConfigFormat_def JSONConfigFormat_def)



end
