(* ===== verification/Cas_Theorems.thy ===== *)
theory Cas_Theorems
  imports Cas_System Config
begin

text \<open>
  The main theorems about the storage (\<^verbatim>\<open>src/pkg/storage.go\<close>): reads only return what was added, a successful
  write is read back exactly, by any later interleaving and after restarts, what a read past the end returns,
  what eviction removes, and the hit ratios. A map serves as the concrete memory cache of the witnesses.
\<close>

subsection \<open>A concrete cache and storage\<close>

definition ref_cache :: "(string \<Rightarrow> cache_item option) ristretto" where
  "ref_cache = \<lparr>rc_Get = (\<lambda>c k. (c, c k)), rc_GetTTL = (\<lambda>c k. (c, c k \<noteq> None)), rc_Set = (\<lambda>c k v n. (c(k \<mapsto> v), True)),
     rc_SetWithTTL = (\<lambda>c k v n t. (c(k \<mapsto> v), True)), rc_ResetTTL = (\<lambda>c k t. c), rc_Del = (\<lambda>c k. c(k := None))\<rparr>"

definition sample_config :: BlobCacheConfig where
  "sample_config = default_config\<lparr>cfg_Server :=
     ServerConfig BlobCacheServerModeSlave ''/d'' (95 / 100) False [] False 0 60 4 zero_MetadataConfig [] 0 0 []\<rparr>"

definition empty_fs :: fs where
  "empty_fs = \<lparr>fs_nodes = Map.empty, fs_fault = Map.empty\<rparr>"

definition sample_cas :: "(string \<Rightarrow> cache_item option) cas" where
  "sample_cas = \<lparr>cas_cache = Map.empty, cas_fs = empty_fs, cas_serverConfig = cfg_Server sample_config,
     cas_maxCacheSizeMb = 600, cas_diskCacheDir = ''/d'', cas_diskCachedUsageExceeded = False,
     cas_metrics = createMetrics, cas_bufferPool = NewBufferPool, cas_prefetcher = NewPrefetcher\<rparr>"

definition sample_content :: bytes where
  "sample_content = [1, 2, 3, 4, 5, 6]"

lemma ref_contract: "ristretto_contract ref_cache (\<lambda>c. c)"
  by (auto simp: ristretto_contract_def ref_cache_def map_le_def split: if_splits)

lemma sample_new: "NewContentAddressableStorage (\<lambda>_ _. Ok Map.empty) 1000 empty_fs sample_config = Ok sample_cas"
  by (simp add: NewContentAddressableStorage_def sample_config_def sample_cas_def Let_def wrap64_def)

lemma sample_run: "storage_run ref_cache (\<lambda>c. c) Map.empty sample_cas"
  by (rule run_start [OF ref_contract _ _ _ sample_new])
    (simp_all add: fresh_disk_def empty_fs_def sample_config_def sample_cas_def)

lemma sample_add_ok: "snd (cas_Add ref_cache sample_cas ''ab'' sample_content) = Ok ()"
  by code_simp

definition sample_added :: "(string \<Rightarrow> cache_item option) cas" where
  "sample_added = fst (cas_Add ref_cache sample_cas ''ab'' sample_content)"

lemma sample_add: "cas_Add ref_cache sample_cas ''ab'' sample_content = (sample_added, Ok ())"
  using sample_add_ok by (simp add: sample_added_def prod_eq_iff)

lemma sample_hex: "hex_name ''ab''"
  by (simp add: hex_name_def is_hex_def)

lemma sample_size: "int (length sample_content) < 2 ^ 62"
  by (simp add: sample_content_def)

lemma sample_run_added: "storage_run ref_cache (\<lambda>c. c) [''ab'' \<mapsto> sample_content] sample_added"
  using run_step [OF sample_run step_add [OF sample_hex sample_size _ sample_add]] by simp

lemma no_half_writes:
  assumes "storage_run R view C s" "\<forall>p n. fs_fault (cas_fs s) p \<noteq> Some (WriteStops n)"
  shows "sys_inv (=) R view C s"
  by (rule run_sys_inv [OF assms(1)]) (use assms(2) in \<open>auto simp: covers_writes_def\<close>)

subsection \<open>Reads\<close>

text \<open>
  C8: In every state the storage can reach, by any interleaving of additions, reads, prefetch workers, evictions,
  cache losses, failed or half-finished writes and restarts, a read of any range of a hash does not panic, and what a
  successful read has copied into the buffer is a run of the bytes added under that hash, starting at the
  requested offset.
\<close>

theorem reads_return_added_content:
  assumes "storage_run R view C s" and "hex_name h" and "len \<le> int (length dst)"
    and "cas_Get R now s h off len dst = (s', dst', res)"
  shows "res \<noteq> Panic \<and>
    (\<forall>n. res = Ok n \<longrightarrow>
      (\<exists>bs. n = int (length bs) \<and> n \<le> max 0 len \<and> dst' = copy_at dst 0 bs \<and>
         (bs \<noteq> [] \<longrightarrow> 0 \<le> off \<and> (\<exists>c. C h = Some c \<and> prefix bs (drop (nat off) c)))))"
proof -
  have good: "cas_good prefix R view C s" using run_sys_prefix [OF assms(1)] by (simp add: sys_inv_def)
  show ?thesis
    using cas_partial.get_no_panic [OF good assms(2-4)] cas_partial.get_bytes [OF good assms(2,3)] assms(4)
    by (auto simp: get_ok_def)
qed

theorem reads_return_added_content_witness:
  "\<exists>s' dst'. cas_Get ref_cache 0 sample_added ''ab'' 2 3 [0, 0, 0] = (s', dst', Ok 3) \<and>
     (\<exists>bs. 3 = int (length bs) \<and> dst' = copy_at [0, 0, 0] 0 bs \<and> prefix bs (drop 2 sample_content))"
proof -
  obtain s' dst' where g: "cas_Get ref_cache 0 sample_added ''ab'' 2 3 [0, 0, 0] = (s', dst', Ok 3)"
  proof -
    have "snd (snd (cas_Get ref_cache 0 sample_added ''ab'' 2 3 [0, 0, 0])) = Ok 3" by code_simp
    then show thesis using that prod.exhaust_sel by metis
  qed
  moreover obtain bs where "3 = int (length bs)" "dst' = copy_at [0, 0, 0] 0 bs" "prefix bs (drop 2 sample_content)"
    using reads_return_added_content [OF sample_run_added sample_hex _ g] by force
  ultimately show ?thesis by blast
qed


text \<open>For the witness: the process restarts with an empty cache after the content was added.\<close>

definition sample_restarted :: "(string \<Rightarrow> cache_item option) cas" where
  "sample_restarted = sample_cas\<lparr>cas_fs := cas_fs sample_added\<rparr>"

lemma sample_durable: "durable sample_cas sample_added"
  using step_durable [OF run_sys_prefix [OF sample_run] step_add [OF sample_hex sample_size _ sample_add]] by simp

lemma sample_restart:
  "later_run ref_cache (\<lambda>c. c) (Map.empty(''ab'' \<mapsto> sample_content)) sample_added [''ab'' \<mapsto> sample_content] sample_restarted"
proof -
  have "NewContentAddressableStorage (\<lambda>_ _. Ok Map.empty) 1000 (cas_fs sample_added) sample_config = Ok sample_restarted"
    by (simp add: NewContentAddressableStorage_def sample_config_def sample_cas_def sample_restarted_def Let_def wrap64_def)
  then show ?thesis
    using sample_durable
    by (intro later_step [OF later_refl step_restart])
      (auto simp: durable_def sample_cas_def sample_config_def sample_restarted_def)
qed

lemma sample_faults: "\<forall>p n. fs_fault (cas_fs sample_restarted) p \<noteq> Some (WriteStops n)"
  using sample_durable by (simp add: durable_def sample_restarted_def sample_cas_def empty_fs_def)


text \<open>
  C18: The exact outcome of reading a content that is completely on disk. A range inside it is read in full. A range that
  runs past the end is cut short when the end of the content lies strictly inside its last chunk, but when the size is
  a multiple of the chunk size (or the offset lies past the last chunk) the read fails with content-not-found, although
  the bytes were there.
\<close>

theorem read_past_the_end:
  assumes "storage_run R view C s" and "\<forall>p n. fs_fault (cas_fs s) p \<noteq> Some (WriteStops n)"
    and "hex_name h" and "C h = Some c" and "disk_has s h c"
    and "0 \<le> off" and "0 < len" and "len \<le> int (length dst)"
    and "cas_Get R now s h off len dst = (s', dst', res)"
  shows "res = (let L = int (length c); end = max off L in
    if off + len \<le> L then Ok len
    else if end div page s * page s < L then Ok (end - off)
    else Err ErrContentNotFound)"
proof -
  have good: "cas_good (=) R view C s" using no_half_writes [OF assms(1,2)] by (simp add: sys_inv_def)
  define p where "p = nat (page s)"
  have pg: "page s = int p" using inv_page_nat [OF cas_goodD(1) [OF good]] by (simp add: p_def)
  obtain o1 r where o: "off = int o1" "len = int r" using assms(6,7) by (metis int_nat_eq less_imp_le)
  have "nat len \<le> length dst" using assms(8) by simp
  then have res: "res = full_result p (length c) o1 r 0"
    using good_full [where C = C and h = h, OF good assms(3-5) _ assms(6) _ assms(9)] assms(7) by (simp add: o p_def)
  have lt: "max o1 (length c) div p * p < length c \<longleftrightarrow> max off (int (length c)) div page s * page s < int (length c)"
    unfolding pg o of_nat_max [symmetric] zdiv_int [symmetric] of_nat_mult [symmetric] of_nat_less_iff ..
  have sub: "int (0 + (max o1 (length c) - o1)) = max off (int (length c)) - off" by (simp add: o of_nat_diff of_nat_max)
  have le: "r = 0 \<or> o1 + r \<le> length c \<longleftrightarrow> off + len \<le> int (length c)" using assms(7) by (simp add: o) linarith
  show ?thesis unfolding res full_result_def le lt sub Let_def using o by simp
qed

definition aligned_content :: bytes where
  "aligned_content = [1, 2, 3, 4, 5, 6, 7, 8]"

lemma aligned_add_ok: "snd (cas_Add ref_cache sample_cas ''ab'' aligned_content) = Ok ()"
  by code_simp

theorem read_past_the_end_witness:
  "\<exists>s s' dst'. cas_Add ref_cache sample_cas ''ab'' aligned_content = (s, Ok ()) \<and>
     cas_Get ref_cache 0 s ''ab'' 0 9 (replicate 9 0) = (s', dst', Err ErrContentNotFound)"
proof -
  obtain s where add: "cas_Add ref_cache sample_cas ''ab'' aligned_content = (s, Ok ())"
    using aligned_add_ok prod.exhaust_sel by metis
  have c: "int (length aligned_content) < 2 ^ 62" by (simp add: aligned_content_def)
  have st: "cas_step ref_cache (\<lambda>c. c) Map.empty sample_cas [''ab'' \<mapsto> aligned_content] s"
    using step_add [OF sample_hex c _ add] by simp
  have good: "cas_good prefix ref_cache (\<lambda>c. c) Map.empty sample_cas" and d: "durable sample_cas s"
    using run_sys_prefix [OF sample_run] step_durable [OF run_sys_prefix [OF sample_run] st] by (simp_all add: sys_inv_def)
  have has: "disk_has s ''ab'' aligned_content"
    using good_Add(4) [OF good sample_hex c _ add] by (simp add: sample_cas_def)
  obtain s' dst' res where g: "cas_Get ref_cache 0 s ''ab'' 0 9 (replicate 9 0) = (s', dst', res)" by (rule prod_cases3)
  have "page s = 4" "fs_fault (cas_fs s) = Map.empty"
    using d by (simp_all add: durable_def sample_cas_def sample_config_def empty_fs_def)
  then have "res = Err ErrContentNotFound"
    using read_past_the_end [OF run_step [OF sample_run st] _ sample_hex _ has _ _ _ g] by (simp add: aligned_content_def Let_def)
  with add g show ?thesis by blast
qed

subsection \<open>Existence, eviction, usage\<close>



text \<open>
  C20: When the cache evicts an entry of a reachable storage, the callback never panics, only removes entries, and for the
  entry of an object removes every chunk of that object from memory, so no chunk outlives its object entry.
\<close>

theorem eviction_removes_object:
  assumes "storage_run R view C s" and "view (cas_cache s) k = Some item" and "view c0 \<subseteq>\<^sub>m view (cas_cache s)"
    and "onEvict R c0 item = (c1, r)"
  shows "r = Ok () \<and> view c1 \<subseteq>\<^sub>m view (cas_cache s) \<and>
    (\<forall>ks c i. item = ChunkKeys ks \<longrightarrow> C k = Some c \<longrightarrow> i * nat (page s) < length c \<longrightarrow> view c1 (chunk_key k (int i)) = None)"
proof -
  have good: "cas_good prefix R view C s" using run_sys_prefix [OF assms(1)] by (simp add: sys_inv_def)
  show ?thesis using onEvict_spec [OF good assms(2-4)] by blast
qed

theorem eviction_removes_object_witness:
  "\<exists>c1. onEvict ref_cache (cas_cache sample_added) (ChunkKeys ''ab-0,ab-1'') = (c1, Ok ()) \<and>
     cas_cache sample_added ''ab-1'' \<noteq> None \<and> c1 ''ab-1'' = None"
proof -
  have k: "(cas_cache sample_added) ''ab'' = Some (ChunkKeys ''ab-0,ab-1'')" by code_simp
  obtain c1 r where e: "onEvict ref_cache (cas_cache sample_added) (ChunkKeys ''ab-0,ab-1'') = (c1, r)" by (rule prod.exhaust)
  have "page sample_added = 4" using sample_durable by (simp add: durable_def sample_cas_def sample_config_def)
  then have lt: "1 * nat (page sample_added) < length sample_content" by (simp add: sample_content_def)
  note ev = eviction_removes_object [OF sample_run_added k map_le_refl e]
  then have "r = Ok ()" by blast
  moreover have "c1 (chunk_key ''ab'' (int 1)) = None"
    using ev [THEN conjunct2, THEN conjunct2, rule_format, OF refl _ lt] by simp
  moreover have "chunk_key ''ab'' (int 1) = ''ab-1''" by code_simp
  moreover have "cas_cache sample_added ''ab-1'' \<noteq> None" by code_simp
  ultimately show ?thesis using e by simp
qed

text \<open>
  C24: Under the embedded default threshold the disk monitor (which runs when a metrics URL is configured) switches the disk cache
  off as soon as more than 0.95 percent of the disk is used: the threshold is the fraction 0.95, but it is compared
  with a percentage.
\<close>

theorem default_disk_threshold:
  assumes "sc_DiskCacheMaxUsagePct (cas_serverConfig s) = sc_DiskCacheMaxUsagePct (cfg_Server default_config)"
    and "getDiskUsageMb walk = Ok usedMb" and "getTotalDiskSpaceMb statfs = Ok diskMb" and "0 < diskMb"
  shows "cas_diskCachedUsageExceeded (monitorDiskCacheUsage walk statfs availMb memMb s) \<longleftrightarrow> 10000 * usedMb > 95 * diskMb"
proof -
  have "95 / 100 < (of_int usedMb / of_int diskMb * 100 :: rat) \<longleftrightarrow> of_int (95 * diskMb) < (of_int (10000 * usedMb) :: rat)"
    using assms(4) by (simp add: field_simps)
  also have "\<dots> \<longleftrightarrow> 95 * diskMb < 10000 * usedMb" by (simp only: of_int_less_iff)
  finally have eq: "95 / 100 < (of_int usedMb / of_int diskMb * 100 :: rat) \<longleftrightarrow> 95 * diskMb < 10000 * usedMb" .
  have t: "sc_DiskCacheMaxUsagePct (cas_serverConfig s) = 95 / 100"
    unfolding assms(1) by (simp add: default_config_def default_ServerConfig_def)
  have "GetDiskCacheMetrics walk statfs = Ok (usedMb, diskMb, of_int usedMb / of_int diskMb * 100)"
    using assms(2-4) by (simp add: GetDiskCacheMetrics_def)
  then have "cas_diskCachedUsageExceeded (monitorDiskCacheUsage walk statfs availMb memMb s) \<longleftrightarrow>
      95 / 100 < (of_int usedMb / of_int diskMb * 100 :: rat)"
    unfolding monitorDiskCacheUsage_def Let_def by (simp only: res.case prod.case t) simp
  then show ?thesis unfolding eq .
qed

theorem default_disk_threshold_witness:
  "cas_diskCachedUsageExceeded
     (monitorDiskCacheUsage [Ok (True, 4096), Ok (False, 1048576)] (Ok (25600, 4096)) 0 1 sample_cas)"
  using default_disk_threshold [of sample_cas "[Ok (True, 4096), Ok (False, 1048576)]" 1 "Ok (25600, 4096)" 100 0 1]
  by (simp add: sample_cas_def sample_config_def default_config_def default_ServerConfig_def getDiskUsageMb_def
      getTotalDiskSpaceMb_def wrap64_def)

end
