(* ===== verification/Redis_Codec.thy ===== *)
theory Redis_Codec
  imports Blob_Types
begin

text \<open>
  The struct codec of \<^verbatim>\<open>src/pkg/redis.go\<close> (\<^verbatim>\<open>ToSlice\<close>, \<^verbatim>\<open>ToStruct\<close>): a struct is the list of its fields as reflection
  sees them, each with its \<^verbatim>\<open>redis\<close> tag, whether it can be set, and a value of its kind. \<^verbatim>\<open>BlobFsMetadata\<close> is given in this form,
  and writing it to a hash and reading it back is the identity.
\<close>

subsection \<open>Fields\<close>

text \<open>The kinds \<^verbatim>\<open>ToStruct\<close> distinguishes. A float is a rational; a duration is its number of nanoseconds; every other kind
  (slices, nested structs) is only carried along.\<close>

datatype go_value =
    VString string | VInt int | VInt32 int | VInt64 int | VDuration int | VUint32 u32 | VUint64 u64
  | VFloat32 rat | VFloat64 rat | VBool bool | VOther string

record go_field =
  fd_tag :: string
  fd_canSet :: bool
  fd_val :: go_value

text \<open>\<^verbatim>\<open>strconv.ParseInt(v, 10, bits)\<close>: an optional sign, digits, and the range of a \<open>bits\<close>-bit integer.\<close>

definition ParseInt :: "nat \<Rightarrow> string \<Rightarrow> int option" where
  "ParseInt bits v =
     (let neg = (case v of c # _ \<Rightarrow> c = CHR ''-'' | [] \<Rightarrow> False);
          ds = (case v of c # cs \<Rightarrow> if c = CHR ''-'' \<or> c = CHR ''+'' then cs else v | [] \<Rightarrow> [])
      in case parse_nat ds of
           None \<Rightarrow> None
         | Some n \<Rightarrow>
             (let i = (if neg then - int n else int n)
              in if - (2 ^ (bits - 1)) \<le> i \<and> i < 2 ^ (bits - 1) then Some i else None))"

definition ParseBool :: "string \<Rightarrow> bool option" where
  "ParseBool v =
     (if v \<in> {''1'', ''t'', ''T'', ''TRUE'', ''true'', ''True''} then Some True
      else if v \<in> {''0'', ''f'', ''F'', ''FALSE'', ''false'', ''False''} then Some False
      else None)"

text \<open>Decimal floats and durations: how the runtime reads and prints them is an argument.\<close>

record num_format =
  nf_ParseFloat :: "nat \<Rightarrow> string \<Rightarrow> rat option"
  nf_ShowFloat :: "rat \<Rightarrow> string"
  nf_ParseDuration :: "string \<Rightarrow> int option"
  nf_ShowDuration :: "int \<Rightarrow> string"

definition or_else :: "'a option \<Rightarrow> 'a \<Rightarrow> 'a" where
  "or_else x d = (case x of Some v \<Rightarrow> v | None \<Rightarrow> d)"

text \<open>The switch of \<^verbatim>\<open>ToStruct\<close> on the kind of the field; a value that does not parse becomes the zero value.\<close>

fun set_field :: "num_format \<Rightarrow> string \<Rightarrow> go_value \<Rightarrow> go_value" where
  "set_field nf v (VString _) = VString v"
| "set_field nf v (VInt _) = VInt (or_else (ParseInt 64 v) 0)"
| "set_field nf v (VInt32 _) = VInt32 (or_else (ParseInt 32 v) 0)"
| "set_field nf v (VInt64 _) = VInt64 (or_else (ParseInt 64 v) 0)"
| "set_field nf v (VDuration _) = VDuration (or_else (nf_ParseDuration nf v) 0)"
| "set_field nf v (VUint32 _) = VUint32 (of_nat (or_else (ParseUint 32 v) 0))"
| "set_field nf v (VUint64 _) = VUint64 (of_nat (or_else (ParseUint 64 v) 0))"
| "set_field nf v (VFloat32 _) = VFloat32 (or_else (nf_ParseFloat nf 32 v) 0)"
| "set_field nf v (VFloat64 _) = VFloat64 (or_else (nf_ParseFloat nf 64 v) 0)"
| "set_field nf v (VBool _) = VBool (or_else (ParseBool v) False)"
| "set_field nf v (VOther x) = VOther x"

definition ToStruct :: "num_format \<Rightarrow> (string \<times> string) list \<Rightarrow> go_field list \<Rightarrow> go_field list" where
  "ToStruct nf m out =
     map (\<lambda>fd. if \<not> fd_canSet fd then fd
               else if fd_tag fd = [] \<or> fd_tag fd = ''-'' then fd
               else (case map_of m (fd_tag fd) of
                       Some v \<Rightarrow> fd\<lparr>fd_val := set_field nf v (fd_val fd)\<rparr>
                     | None \<Rightarrow> fd)) out"

text \<open>\<^verbatim>\<open>fmt.Sprintf("%v", x)\<close>.\<close>

fun show_value :: "num_format \<Rightarrow> go_value \<Rightarrow> string" where
  "show_value nf (VString s) = s"
| "show_value nf (VInt i) = itoa i"
| "show_value nf (VInt32 i) = itoa i"
| "show_value nf (VInt64 i) = itoa i"
| "show_value nf (VDuration d) = nf_ShowDuration nf d"
| "show_value nf (VUint32 w) = show_nat (unat w)"
| "show_value nf (VUint64 w) = show_nat (unat w)"
| "show_value nf (VFloat32 q) = nf_ShowFloat nf q"
| "show_value nf (VFloat64 q) = nf_ShowFloat nf q"
| "show_value nf (VBool b) = (if b then ''true'' else ''false'')"
| "show_value nf (VOther s) = s"

text \<open>\<^verbatim>\<open>ToSlice\<close>: the alternating tags and values, here as pairs. Reading an unexported field through \<^verbatim>\<open>Interface()\<close> panics.\<close>

fun ToSlice :: "num_format \<Rightarrow> go_field list \<Rightarrow> (string \<times> string) list res" where
  "ToSlice nf [] = Ok []"
| "ToSlice nf (fd # fds) =
     (if fd_tag fd = [] \<or> fd_tag fd = ''-'' then ToSlice nf fds
      else if \<not> fd_canSet fd then Panic
      else (case ToSlice nf fds of
              Ok fieldValues \<Rightarrow> Ok ((fd_tag fd, show_value nf (fd_val fd)) # fieldValues)
            | r \<Rightarrow> r))"

subsection \<open>BlobFsMetadata as fields\<close>

abbreviation fld :: "string \<Rightarrow> go_value \<Rightarrow> go_field" where
  "fld tg v \<equiv> \<lparr>fd_tag = tg, fd_canSet = True, fd_val = v\<rparr>"

definition meta_fields :: "BlobFsMetadata \<Rightarrow> go_field list" where
  "meta_fields md =
     [fld ''pid'' (VString (md_PID md)), fld ''id'' (VString (md_ID md)), fld ''name'' (VString (md_Name md)),
      fld ''path'' (VString (md_Path md)), fld ''hash'' (VString (md_Hash md)), fld ''ino'' (VUint64 (md_Ino md)),
      fld ''size'' (VUint64 (md_Size md)), fld ''blocks'' (VUint64 (md_Blocks md)), fld ''atime'' (VUint64 (md_Atime md)),
      fld ''mtime'' (VUint64 (md_Mtime md)), fld ''ctime'' (VUint64 (md_Ctime md)),
      fld ''atimensec'' (VUint32 (md_Atimensec md)), fld ''mtimensec'' (VUint32 (md_Mtimensec md)),
      fld ''ctimensec'' (VUint32 (md_Ctimensec md)), fld ''mode'' (VUint32 (md_Mode md)),
      fld ''nlink'' (VUint32 (md_Nlink md)), fld ''rdev'' (VUint32 (md_Rdev md)), fld ''blksize'' (VUint32 (md_Blksize md)),
      fld ''padding'' (VUint32 (md_Padding md)), fld ''uid'' (VUint32 (md_Uid md)), fld ''gid'' (VUint32 (md_Gid md)),
      fld ''gen'' (VUint64 (md_Gen md))]"

fun as_string :: "go_value \<Rightarrow> string" where
  "as_string (VString s) = s" | "as_string _ = []"

fun as_u64 :: "go_value \<Rightarrow> u64" where
  "as_u64 (VUint64 w) = w" | "as_u64 _ = 0"

fun as_u32 :: "go_value \<Rightarrow> u32" where
  "as_u32 (VUint32 w) = w" | "as_u32 _ = 0"

definition fields_meta :: "go_field list \<Rightarrow> BlobFsMetadata" where
  "fields_meta fds =
     (let g = (\<lambda>i. fd_val (fds ! i))
      in \<lparr>md_PID = as_string (g 0), md_ID = as_string (g 1), md_Name = as_string (g 2), md_Path = as_string (g 3),
          md_Hash = as_string (g 4), md_Ino = as_u64 (g 5), md_Size = as_u64 (g 6), md_Blocks = as_u64 (g 7),
          md_Atime = as_u64 (g 8), md_Mtime = as_u64 (g 9), md_Ctime = as_u64 (g 10), md_Atimensec = as_u32 (g 11),
          md_Mtimensec = as_u32 (g 12), md_Ctimensec = as_u32 (g 13), md_Mode = as_u32 (g 14), md_Nlink = as_u32 (g 15),
          md_Rdev = as_u32 (g 16), md_Blksize = as_u32 (g 17), md_Padding = as_u32 (g 18), md_Uid = as_u32 (g 19),
          md_Gid = as_u32 (g 20), md_Gen = as_u64 (g 21)\<rparr>)"

subsection \<open>Round trips\<close>

text \<open>A value that survives printing and parsing.\<close>

fun printable :: "num_format \<Rightarrow> go_value \<Rightarrow> bool" where
  "printable nf (VString _) = True"
| "printable nf (VInt i) = in64 i"
| "printable nf (VInt32 i) = (- (2 ^ 31) \<le> i \<and> i < 2 ^ 31)"
| "printable nf (VInt64 i) = in64 i"
| "printable nf (VDuration d) = (nf_ParseDuration nf (nf_ShowDuration nf d) = Some d)"
| "printable nf (VUint32 _) = True"
| "printable nf (VUint64 _) = True"
| "printable nf (VFloat32 q) = (nf_ParseFloat nf 32 (nf_ShowFloat nf q) = Some q)"
| "printable nf (VFloat64 q) = (nf_ParseFloat nf 64 (nf_ShowFloat nf q) = Some q)"
| "printable nf (VBool _) = True"
| "printable nf (VOther _) = False"

lemma ParseInt_itoa:
  assumes "- (2 ^ (bits - 1)) \<le> i" "i < 2 ^ (bits - 1)"
  shows "ParseInt bits (itoa i) = Some i"
proof (cases "i < 0")
  case True
  then have "itoa i = CHR ''-'' # show_nat (nat (- i))" by (simp add: itoa_def)
  with True assms show ?thesis by (simp add: ParseInt_def parse_show_nat Let_def)
next
  case False
  then have "itoa i = show_nat (nat i)" by (simp add: itoa_def)
  moreover obtain c cs where "show_nat (nat i) = c # cs" "is_digit c"
    using show_nat_digits [of _ "nat i"] by (cases "show_nat (nat i)") auto
  moreover from this have "c \<noteq> CHR ''-''" "c \<noteq> CHR ''+''" by (auto simp: is_digit_def)
  ultimately show ?thesis using False assms parse_show_nat [of "nat i"] by (simp add: ParseInt_def Let_def)
qed

lemma ParseUint_unat:
  "ParseUint 32 (show_nat (unat (w :: u32))) = Some (unat w)" "ParseUint 64 (show_nat (unat (v :: u64))) = Some (unat v)"
  by (rule ParseUint_show_nat, rule order.strict_trans2 [OF unsigned_less], simp)+

fun kind_of :: "go_value \<Rightarrow> nat" where
  "kind_of (VString _) = 0" | "kind_of (VInt _) = 1" | "kind_of (VInt32 _) = 2" | "kind_of (VInt64 _) = 3"
| "kind_of (VDuration _) = 4" | "kind_of (VUint32 _) = 5" | "kind_of (VUint64 _) = 6" | "kind_of (VFloat32 _) = 7"
| "kind_of (VFloat64 _) = 8" | "kind_of (VBool _) = 9" | "kind_of (VOther _) = 10"

definition same_kind :: "go_value \<Rightarrow> go_value \<Rightarrow> bool" where
  "same_kind v w \<longleftrightarrow> kind_of v = kind_of w"

lemma set_field_kind: "same_kind v w \<Longrightarrow> kind_of v \<noteq> 10 \<Longrightarrow> set_field nf x w = set_field nf x v"
  unfolding same_kind_def by (cases v; cases w) simp_all

lemma set_show_field:
  assumes "same_kind v w" "printable nf v"
  shows "set_field nf (show_value nf v) w = v"
proof -
  have "kind_of v \<noteq> 10" using assms(2) by (cases v) auto
  then have "set_field nf (show_value nf v) w = set_field nf (show_value nf v) v"
    using set_field_kind [OF assms(1)] by blast
  also have "\<dots> = v"
    using assms(2) by (cases v) (auto simp: or_else_def ParseInt_itoa in64_def ParseUint_unat ParseBool_def)
  finally show ?thesis .
qed

definition tagged :: "go_field \<Rightarrow> bool" where
  "tagged fd \<longleftrightarrow> fd_tag fd \<noteq> [] \<and> fd_tag fd \<noteq> ''-''"

definition same_field :: "go_field \<Rightarrow> go_field \<Rightarrow> bool" where
  "same_field fd ot \<longleftrightarrow> fd_tag ot = fd_tag fd \<and> fd_canSet fd \<and> fd_canSet ot \<and> same_kind (fd_val fd) (fd_val ot)"

lemma ToSlice_ok:
  "list_all fd_canSet fds \<Longrightarrow>
   ToSlice nf fds = Ok (map (\<lambda>fd. (fd_tag fd, show_value nf (fd_val fd))) (filter tagged fds))"
  by (induction fds) (auto simp: tagged_def)

lemma map_of_tags:
  "distinct (map fd_tag (filter tagged fds)) \<Longrightarrow> fd \<in> set fds \<Longrightarrow> tagged fd \<Longrightarrow>
   map_of (map (\<lambda>fd. (fd_tag fd, show_value nf (fd_val fd))) (filter tagged fds)) (fd_tag fd) = Some (show_value nf (fd_val fd))"
  by (intro map_of_is_SomeI) (auto simp: comp_def)

text \<open>Only the contents of the hash matter to \<^verbatim>\<open>ToStruct\<close>, not the order in which it is listed.\<close>

lemma ToStruct_cong: "map_of m = map_of m' \<Longrightarrow> ToStruct nf m out = ToStruct nf m' out"
  by (simp add: ToStruct_def)

lemma ToStruct_ToSlice:
  assumes "list_all2 same_field fds out" and "list_all (\<lambda>fd. tagged fd \<longrightarrow> printable nf (fd_val fd)) fds"
    and "distinct (map fd_tag (filter tagged fds))"
    and "map_of m = map_of (map (\<lambda>fd. (fd_tag fd, show_value nf (fd_val fd))) (filter tagged fds))"
  shows "ToStruct nf m out = map2 (\<lambda>fd ot. if tagged fd then fd else ot) fds out"
proof (rule nth_equalityI)
  have len: "length fds = length out" using assms(1) by (rule list_all2_lengthD)
  then show "length (ToStruct nf m out) = length (map2 (\<lambda>fd ot. if tagged fd then fd else ot) fds out)"
    by (simp add: ToStruct_def)
  fix i assume "i < length (ToStruct nf m out)"
  then have i: "i < length out" "i < length fds" using len by (simp_all add: ToStruct_def)
  have sf: "same_field (fds ! i) (out ! i)" using assms(1) i by (simp add: list_all2_conv_all_nth)
  have pr: "tagged (fds ! i) \<Longrightarrow> printable nf (fd_val (fds ! i))" using assms(2) i by (simp add: list_all_length)
  have "tagged (fds ! i) \<Longrightarrow> map_of m (fd_tag (fds ! i)) = Some (show_value nf (fd_val (fds ! i)))"
    unfolding assms(4) using map_of_tags [OF assms(3)] i by simp
  with sf pr i show "ToStruct nf m out ! i = map2 (\<lambda>fd ot. if tagged fd then fd else ot) fds out ! i"
    by (auto simp: ToStruct_def same_field_def tagged_def set_show_field)
qed

lemma meta_fields_inverse: "fields_meta (meta_fields md) = md"
  by (simp add: fields_meta_def meta_fields_def eval_nat_numeral)

lemma meta_fields_tagged: "filter tagged (meta_fields md) = meta_fields md"
  by (simp add: meta_fields_def tagged_def)

lemma meta_fields_tags: "distinct (map fd_tag (meta_fields md))"
  by (simp add: meta_fields_def)

definition meta_pairs :: "num_format \<Rightarrow> BlobFsMetadata \<Rightarrow> (string \<times> string) list" where
  "meta_pairs nf md = map (\<lambda>fd. (fd_tag fd, show_value nf (fd_val fd))) (meta_fields md)"

lemma ToSlice_meta: "ToSlice nf (meta_fields md) = Ok (meta_pairs nf md)"
proof -
  have "list_all fd_canSet (meta_fields md)" by (simp add: meta_fields_def)
  then show ?thesis by (simp add: ToSlice_ok meta_fields_tagged meta_pairs_def)
qed

lemma ToStruct_meta:
  assumes "map_of m = map_of (meta_pairs nf md)"
  shows "fields_meta (ToStruct nf m (meta_fields md0)) = md"
proof -
  have "list_all2 same_field (meta_fields md) (meta_fields md0)" by (simp add: meta_fields_def same_field_def same_kind_def)
  moreover have "list_all (\<lambda>fd. tagged fd \<longrightarrow> printable nf (fd_val fd)) (meta_fields md)" by (simp add: meta_fields_def)
  moreover have "length (meta_fields md) = length (meta_fields md0)" by (simp add: meta_fields_def)
  then have "map2 (\<lambda>fd ot. if tagged fd then fd else ot) (meta_fields md) (meta_fields md0) = meta_fields md"
    by (simp add: meta_fields_def tagged_def)
  ultimately show ?thesis
    using ToStruct_ToSlice [of "meta_fields md" "meta_fields md0" nf m] assms meta_fields_tags
    by (simp add: meta_fields_tagged meta_pairs_def meta_fields_inverse)
qed

text \<open>
  C15: A struct whose exported, tagged fields print faithfully is restored from the hash that \<^verbatim>\<open>ToSlice\<close> writes, in whatever order the
  hash is read; fields without a tag keep the value of the target. (64-bit integers, strings and booleans always print
  faithfully.)
\<close>

theorem redis_struct_roundtrip:
  assumes "list_all2 same_field fds out" and "list_all (\<lambda>fd. tagged fd \<longrightarrow> printable nf (fd_val fd)) fds"
    and "distinct (map fd_tag (filter tagged fds))"
    and "ToSlice nf fds = Ok pairs" and "map_of m = map_of pairs"
  shows "ToStruct nf m out = map2 (\<lambda>fd ot. if tagged fd then fd else ot) fds out"
proof -
  have "list_all fd_canSet fds"
    using assms(1) by (auto simp: list_all_length list_all2_conv_all_nth same_field_def)
  then show ?thesis using ToStruct_ToSlice [OF assms(1-3), of m] assms(4,5) by (simp add: ToSlice_ok)
qed

definition no_floats :: num_format where
  "no_floats = \<lparr>nf_ParseFloat = (\<lambda>_ _. None), nf_ShowFloat = (\<lambda>_. []), nf_ParseDuration = (\<lambda>_. None), nf_ShowDuration = (\<lambda>_. [])\<rparr>"

theorem redis_struct_roundtrip_witness:
  "ToStruct no_floats [(''b'', ''true''), (''a'', ''-7'')]
     [fld ''a'' (VInt64 0), fld [] (VString ''kept''), fld ''b'' (VBool False)]
   = [fld ''a'' (VInt64 (-7)), fld [] (VString ''kept''), fld ''b'' (VBool True)]"
proof -
  let ?fds = "[fld ''a'' (VInt64 (-7)), fld [] (VString ''x''), fld ''b'' (VBool True)]"
  have "ToSlice no_floats ?fds = Ok [(''a'', ''-7''), (''b'', ''true'')]"
    by code_simp
  from redis_struct_roundtrip [OF _ _ _ this, of "[fld ''a'' (VInt64 0), fld [] (VString ''kept''), fld ''b'' (VBool False)]"
      "[(''b'', ''true''), (''a'', ''-7'')]"]
  show ?thesis by (simp add: same_field_def same_kind_def tagged_def in64_def fun_eq_iff)
qed

end
