(* ===== verification/Metadata.thy ===== *)
theory Metadata
  imports Redis_Codec
begin

text \<open>
  \<^verbatim>\<open>src/pkg/metadata.go\<close> and the lock of \<^verbatim>\<open>src/pkg/redis.go\<close>: the metadata a coordinator keeps in Redis. Redis and the lock package are
  third-party services, given by a record of the commands the code issues over an abstract server state; every command returns a
  new state, because keys with a time to live expire on their own.
\<close>

subsection \<open>The service\<close>

definition RedisNil :: goerr where "RedisNil = ErrMsg ''redis: nil''"
definition ErrNotObtained :: goerr where "ErrNotObtained = ErrMsg ''redislock: not obtained''"
definition ErrLockNotHeld :: goerr where "ErrLockNotHeld = ErrMsg ''redislock: lock not held''"

record 'r redis =
  rd_HGetAll :: "'r \<Rightarrow> string \<Rightarrow> 'r \<times> (string \<times> string) list res"
  rd_HSet :: "'r \<Rightarrow> string \<Rightarrow> (string \<times> string) list \<Rightarrow> 'r \<times> unit res"
  rd_SMembers :: "'r \<Rightarrow> string \<Rightarrow> 'r \<times> string list res"
  rd_SAdd :: "'r \<Rightarrow> string \<Rightarrow> string \<Rightarrow> 'r \<times> unit res"
  rd_SRem :: "'r \<Rightarrow> string \<Rightarrow> string \<Rightarrow> 'r \<times> unit res"
  rd_Get :: "'r \<Rightarrow> string \<Rightarrow> 'r \<times> string res"
  rd_Set :: "'r \<Rightarrow> string \<Rightarrow> string \<Rightarrow> int \<Rightarrow> 'r \<times> unit res"
  rd_Del :: "'r \<Rightarrow> string \<Rightarrow> 'r \<times> unit res"
  rl_Obtain :: "'r \<Rightarrow> string \<Rightarrow> int \<Rightarrow> int \<Rightarrow> 'r \<times> string res"
  rl_Release :: "'r \<Rightarrow> string \<Rightarrow> string \<Rightarrow> 'r \<times> unit res"
  rl_Refresh :: "'r \<Rightarrow> string \<Rightarrow> string \<Rightarrow> int \<Rightarrow> int \<Rightarrow> 'r \<times> unit res"

text \<open>How the runtime prints numbers, and the JSON form of a host.\<close>

record codec =
  cd_num :: num_format
  cd_Marshal :: "BlobCacheHost \<Rightarrow> string option"
  cd_Unmarshal :: "string \<Rightarrow> BlobCacheHost option"

subsection \<open>Keys\<close>

definition MetadataPrefix :: string where "MetadataPrefix = ''blobcache''"

definition MetadataHostIndex :: "string \<Rightarrow> string" where
  "MetadataHostIndex locality = ''blobcache:host_index:'' @ locality"

text \<open>The format of the keep-alive key has one verb but is given two arguments: \<^verbatim>\<open>fmt.Sprintf\<close> appends the
  extra one with its marker.\<close>

definition MetadataHostKeepAlive :: "string \<Rightarrow> string \<Rightarrow> string" where
  "MetadataHostKeepAlive locality hostId =
     ''blobcache:host:keepalive:'' @ locality @ ''%!(EXTRA string='' @ hostId @ '')''"

definition MetadataLocation :: "string \<Rightarrow> string" where
  "MetadataLocation hash = ''blobcache:location:'' @ hash"

definition MetadataFsNode :: "string \<Rightarrow> string" where
  "MetadataFsNode i = ''blobcache:fs:node:'' @ i"

definition MetadataFsNodeChildren :: "string \<Rightarrow> string" where
  "MetadataFsNodeChildren i = ''blobcache:fs:node:'' @ i @ '':children''"

definition MetadataClientLock :: "string \<Rightarrow> string \<Rightarrow> string" where
  "MetadataClientLock hostId hash = ''blobcache:client_lock:'' @ hostId @ '':'' @ hash"

definition MetadataStoreFromContentLock :: "string \<Rightarrow> string \<Rightarrow> string" where
  "MetadataStoreFromContentLock locality sourcePath =
     ''blobcache:store_from_content_lock:'' @ locality @ '':'' @ replace_char CHR ''/'' CHR ''_'' sourcePath"

subsection \<open>The lock\<close>

record 'r BlobCacheMetadata =
  mt_rdb :: 'r
  mt_locks :: "string \<Rightarrow> string option"

definition secs :: "int \<Rightarrow> int" where "secs n = wrap64 (n * 1000000000)"

definition lock_Acquire :: "'r redis \<Rightarrow> 'r BlobCacheMetadata \<Rightarrow> string \<Rightarrow> int \<Rightarrow> int \<Rightarrow> 'r BlobCacheMetadata \<times> unit res" where
  "lock_Acquire D m key TtlS Retries =
     (case rl_Obtain D (mt_rdb m) key (secs TtlS) (if Retries > 0 then Retries else 0) of
        (r, Ok lck) \<Rightarrow> (m\<lparr>mt_rdb := r, mt_locks := (mt_locks m)(key \<mapsto> lck)\<rparr>, Ok ())
      | (r, Err e) \<Rightarrow> (m\<lparr>mt_rdb := r\<rparr>, if e \<noteq> ErrNotObtained then Err e else Err ErrNotObtained)
      | (r, Panic) \<Rightarrow> (m\<lparr>mt_rdb := r\<rparr>, Panic))"

text \<open>\<^verbatim>\<open>Release\<close> ignores the error of releasing the lock in Redis.\<close>

definition lock_Release :: "'r redis \<Rightarrow> 'r BlobCacheMetadata \<Rightarrow> string \<Rightarrow> 'r BlobCacheMetadata \<times> unit res" where
  "lock_Release D m key =
     (case mt_locks m key of
        Some lck \<Rightarrow>
          (let (r, _) = rl_Release D (mt_rdb m) key lck
           in (m\<lparr>mt_rdb := r, mt_locks := (mt_locks m)(key := None)\<rparr>, Ok ()))
      | None \<Rightarrow> (m, Err ErrLockNotHeld))"

definition lock_Refresh :: "'r redis \<Rightarrow> 'r BlobCacheMetadata \<Rightarrow> string \<Rightarrow> int \<Rightarrow> int \<Rightarrow> 'r BlobCacheMetadata \<times> unit res" where
  "lock_Refresh D m key TtlS Retries =
     (case mt_locks m key of
        None \<Rightarrow> (m, Err ErrLockNotHeld)
      | Some lck \<Rightarrow>
          (let (r, e) = rl_Refresh D (mt_rdb m) key lck (secs TtlS) Retries in (m\<lparr>mt_rdb := r\<rparr>, e)))"

definition storeFromContentLockTtlS :: int where "storeFromContentLockTtlS = 5"

definition meta_SetClientLock where
  "meta_SetClientLock D m clientId hash = lock_Acquire D m (MetadataClientLock clientId hash) 300 0"

definition meta_RemoveClientLock where
  "meta_RemoveClientLock D m clientId hash = lock_Release D m (MetadataClientLock clientId hash)"

definition meta_SetStoreFromContentLock where
  "meta_SetStoreFromContentLock D m locality sourcePath =
     lock_Acquire D m (MetadataStoreFromContentLock locality sourcePath) storeFromContentLockTtlS 0"

definition meta_RefreshStoreFromContentLock where
  "meta_RefreshStoreFromContentLock D m locality sourcePath =
     lock_Refresh D m (MetadataStoreFromContentLock locality sourcePath) storeFromContentLockTtlS 0"

definition meta_RemoveStoreFromContentLock where
  "meta_RemoveStoreFromContentLock D m locality sourcePath =
     lock_Release D m (MetadataStoreFromContentLock locality sourcePath)"

subsection \<open>Nodes of the file system\<close>

abbreviation upd_rdb :: "'r BlobCacheMetadata \<Rightarrow> 'r \<Rightarrow> 'r BlobCacheMetadata" where
  "upd_rdb m r \<equiv> m\<lparr>mt_rdb := r\<rparr>"

definition decode_meta :: "codec \<Rightarrow> (string \<times> string) list \<Rightarrow> BlobFsMetadata" where
  "decode_meta cd ps = fields_meta (ToStruct (cd_num cd) ps (meta_fields zero_BlobFsMetadata))"

definition meta_GetFsNode :: "'r redis \<Rightarrow> codec \<Rightarrow> 'r BlobCacheMetadata \<Rightarrow> string \<Rightarrow> 'r BlobCacheMetadata \<times> BlobFsMetadata res" where
  "meta_GetFsNode D cd m i =
     (case rd_HGetAll D (mt_rdb m) (MetadataFsNode i) of
        (r, Err e) \<Rightarrow> (upd_rdb m r, if e \<noteq> RedisNil then Err e else Err (ErrNodeNotFound i))
      | (r, Panic) \<Rightarrow> (upd_rdb m r, Panic)
      | (r, Ok ps) \<Rightarrow> (upd_rdb m r, if ps = [] then Err (ErrNodeNotFound i) else Ok (decode_meta cd ps)))"

text \<open>A node that exists already has its generation incremented.\<close>

definition meta_SetFsNode :: "'r redis \<Rightarrow> codec \<Rightarrow> 'r BlobCacheMetadata \<Rightarrow> string \<Rightarrow> BlobFsMetadata \<Rightarrow> 'r BlobCacheMetadata \<times> unit res" where
  "meta_SetFsNode D cd m i md =
     (let write = (\<lambda>r md1.
            (case ToSlice (cd_num cd) (meta_fields md1) of
               Ok ps \<Rightarrow>
                 (case rd_HSet D r (MetadataFsNode i) ps of
                    (r2, Ok _) \<Rightarrow> (upd_rdb m r2, Ok ())
                  | (r2, Err e) \<Rightarrow> (upd_rdb m r2, Err (ErrMsg (''failed to set blobfs node metadata <'' @ MetadataFsNode i @ ''>'')))
                  | (r2, Panic) \<Rightarrow> (upd_rdb m r2, Panic))
             | _ \<Rightarrow> (upd_rdb m r, Panic)))
      in case rd_HGetAll D (mt_rdb m) (MetadataFsNode i) of
           (r, Panic) \<Rightarrow> (upd_rdb m r, Panic)
         | (r, Err e) \<Rightarrow> if e \<noteq> RedisNil then (upd_rdb m r, Err e) else write r md
         | (r, Ok ps) \<Rightarrow>
             if ps = [] then write r md
             else write r (md\<lparr>md_Gen := md_Gen (decode_meta cd ps) + 1\<rparr>))"

text \<open>Children whose node cannot be read are left out.\<close>

fun get_nodes :: "'r redis \<Rightarrow> codec \<Rightarrow> 'r BlobCacheMetadata \<Rightarrow> string list \<Rightarrow> 'r BlobCacheMetadata \<times> BlobFsMetadata list res" where
  "get_nodes D cd m [] = (m, Ok [])"
| "get_nodes D cd m (i # is) =
     (case meta_GetFsNode D cd m i of
        (m1, Panic) \<Rightarrow> (m1, Panic)
      | (m1, Err e) \<Rightarrow> get_nodes D cd m1 is
      | (m1, Ok node) \<Rightarrow>
          (case get_nodes D cd m1 is of (m2, Ok nodes) \<Rightarrow> (m2, Ok (node # nodes)) | (m2, x) \<Rightarrow> (m2, x)))"

definition meta_GetFsNodeChildren :: "'r redis \<Rightarrow> codec \<Rightarrow> 'r BlobCacheMetadata \<Rightarrow> string \<Rightarrow> 'r BlobCacheMetadata \<times> BlobFsMetadata list res" where
  "meta_GetFsNodeChildren D cd m i =
     (case rd_SMembers D (mt_rdb m) (MetadataFsNodeChildren i) of
        (r, Ok nodeIds) \<Rightarrow> get_nodes D cd (upd_rdb m r) nodeIds
      | (r, Err e) \<Rightarrow> (upd_rdb m r, Err e)
      | (r, Panic) \<Rightarrow> (upd_rdb m r, Panic))"

definition meta_AddFsNodeChild :: "'r redis \<Rightarrow> 'r BlobCacheMetadata \<Rightarrow> string \<Rightarrow> string \<Rightarrow> 'r BlobCacheMetadata \<times> unit res" where
  "meta_AddFsNodeChild D m pid i = (let (r, e) = rd_SAdd D (mt_rdb m) (MetadataFsNodeChildren pid) i in (upd_rdb m r, e))"

definition meta_RemoveFsNode :: "'r redis \<Rightarrow> 'r BlobCacheMetadata \<Rightarrow> string \<Rightarrow> 'r BlobCacheMetadata \<times> unit res" where
  "meta_RemoveFsNode D m i = (let (r, e) = rd_Del D (mt_rdb m) (MetadataFsNode i) in (upd_rdb m r, e))"

definition meta_RemoveFsNodeChild :: "'r redis \<Rightarrow> 'r BlobCacheMetadata \<Rightarrow> string \<Rightarrow> string \<Rightarrow> 'r BlobCacheMetadata \<times> unit res" where
  "meta_RemoveFsNodeChild D m pid i = (let (r, e) = rd_SRem D (mt_rdb m) (MetadataFsNodeChildren pid) i in (upd_rdb m r, e))"

subsection \<open>Hosts\<close>

definition meta_AddHostToIndex :: "'r redis \<Rightarrow> 'r BlobCacheMetadata \<Rightarrow> string \<Rightarrow> BlobCacheHost \<Rightarrow> 'r BlobCacheMetadata \<times> unit res" where
  "meta_AddHostToIndex D m locality host =
     (let (r, e) = rd_SAdd D (mt_rdb m) (MetadataHostIndex locality) (HostId host) in (upd_rdb m r, e))"

definition meta_RemoveHostFromIndex :: "'r redis \<Rightarrow> 'r BlobCacheMetadata \<Rightarrow> string \<Rightarrow> BlobCacheHost \<Rightarrow> 'r BlobCacheMetadata \<times> unit res" where
  "meta_RemoveHostFromIndex D m locality host =
     (let (r, e) = rd_SRem D (mt_rdb m) (MetadataHostIndex locality) (HostId host) in (upd_rdb m r, e))"

definition meta_SetHostKeepAlive :: "'r redis \<Rightarrow> codec \<Rightarrow> 'r BlobCacheMetadata \<Rightarrow> string \<Rightarrow> BlobCacheHost \<Rightarrow> 'r BlobCacheMetadata \<times> unit res" where
  "meta_SetHostKeepAlive D cd m locality host =
     (case cd_Marshal cd host of
        None \<Rightarrow> (m, Err (ErrMsg ''json: unsupported value''))
      | Some hostBytes \<Rightarrow>
          (let (r, e) = rd_Set D (mt_rdb m) (MetadataHostKeepAlive locality (HostId host)) hostBytes (secs defaultHostKeepAliveTimeoutS)
           in (upd_rdb m r, e)))"

definition bare_host :: "string \<Rightarrow> BlobCacheHost" where
  "bare_host hostId = \<lparr>RTT = 0, HostId = hostId, Addr = [], PrivateAddr = [], CapacityUsagePct = 0\<rparr>"

definition meta_GetHostIndex :: "'r redis \<Rightarrow> 'r BlobCacheMetadata \<Rightarrow> string \<Rightarrow> 'r BlobCacheMetadata \<times> BlobCacheHost list res" where
  "meta_GetHostIndex D m locality =
     (case rd_SMembers D (mt_rdb m) (MetadataHostIndex locality) of
        (r, Ok hostIds) \<Rightarrow> (upd_rdb m r, Ok (map bare_host hostIds))
      | (r, Err e) \<Rightarrow> (upd_rdb m r, Err e)
      | (r, Panic) \<Rightarrow> (upd_rdb m r, Panic))"

text \<open>
  The loop of \<^verbatim>\<open>GetAvailableHosts\<close>: a host whose keep-alive key is gone is removed from the index, once by the function and once
  by the callback, which the callers define as another removal.
\<close>

fun live_hosts :: "'r redis \<Rightarrow> codec \<Rightarrow> ('r BlobCacheMetadata \<Rightarrow> BlobCacheHost \<Rightarrow> 'r BlobCacheMetadata)
    \<Rightarrow> 'r BlobCacheMetadata \<Rightarrow> string \<Rightarrow> string list \<Rightarrow> 'r BlobCacheMetadata \<times> BlobCacheHost list res" where
  "live_hosts D cd callback m locality [] = (m, Ok [])"
| "live_hosts D cd callback m locality (hostId # hs) =
     (case rd_Get D (mt_rdb m) (MetadataHostKeepAlive locality hostId) of
        (r, Panic) \<Rightarrow> (upd_rdb m r, Panic)
      | (r, Err e) \<Rightarrow>
          (let m1 = upd_rdb m r;
               m2 = (if e = RedisNil then
                       callback (fst (meta_RemoveHostFromIndex D m1 locality (bare_host hostId))) (bare_host hostId)
                     else m1)
           in live_hosts D cd callback m2 locality hs)
      | (r, Ok hostBytes) \<Rightarrow>
          (case cd_Unmarshal cd hostBytes of
             None \<Rightarrow> live_hosts D cd callback (upd_rdb m r) locality hs
           | Some host \<Rightarrow>
               (case live_hosts D cd callback (upd_rdb m r) locality hs of
                  (m2, Ok hosts) \<Rightarrow> (m2, Ok (host # hosts)) | (m2, x) \<Rightarrow> (m2, x))))"

definition meta_GetAvailableHosts :: "'r redis \<Rightarrow> codec \<Rightarrow> ('r BlobCacheMetadata \<Rightarrow> BlobCacheHost \<Rightarrow> 'r BlobCacheMetadata)
    \<Rightarrow> 'r BlobCacheMetadata \<Rightarrow> string \<Rightarrow> 'r BlobCacheMetadata \<times> BlobCacheHost list res" where
  "meta_GetAvailableHosts D cd callback m locality =
     (case rd_SMembers D (mt_rdb m) (MetadataHostIndex locality) of
        (r, Err e) \<Rightarrow> (upd_rdb m r, Err e)
      | (r, Panic) \<Rightarrow> (upd_rdb m r, Panic)
      | (r, Ok hostIds) \<Rightarrow>
          (case live_hosts D cd callback (upd_rdb m r) locality hostIds of
             (m2, Ok hosts) \<Rightarrow> (m2, if hosts = [] then Err (ErrMsg ''no available hosts'') else Ok hosts)
           | (m2, x) \<Rightarrow> (m2, x)))"

end
