(* ===== verification/Redis_Client.thy ===== *)
theory Redis_Client
  imports Metadata
begin

text \<open>
  The Redis client of \<^verbatim>\<open>src/pkg/redis.go\<close>: choosing and configuring the connection, and \<^verbatim>\<open>Scan\<close>, in which a goroutine collects keys
  from the masters and hands them over unbuffered channels. The concurrent part is a step relation; the results are that \<^verbatim>\<open>Scan\<close>
  returns every key once when no master of a cluster fails, and never returns when one does.
\<close>

subsection \<open>Connecting\<close>

record RedisConfig =
  rc_Addrs :: "string list"
  rc_Mode :: string
  rc_ClientName :: string
  rc_EnableTLS :: bool
  rc_InsecureSkipVerify :: bool
  rc_MinIdleConns :: int
  rc_MaxIdleConns :: int
  rc_ConnMaxIdleTime :: int
  rc_ConnMaxLifetime :: int
  rc_DialTimeout :: int
  rc_ReadTimeout :: int
  rc_WriteTimeout :: int
  rc_MaxRedirects :: int
  rc_MaxRetries :: int
  rc_PoolSize :: int
  rc_Username :: string
  rc_Password :: string
  rc_RouteByLatency :: bool
  rc_MasterName :: string
  rc_SentinelPassword :: string

definition zero_RedisConfig :: RedisConfig where
  "zero_RedisConfig = \<lparr>rc_Addrs = [], rc_Mode = [], rc_ClientName = [], rc_EnableTLS = False, rc_InsecureSkipVerify = False,
     rc_MinIdleConns = 0, rc_MaxIdleConns = 0, rc_ConnMaxIdleTime = 0, rc_ConnMaxLifetime = 0, rc_DialTimeout = 0,
     rc_ReadTimeout = 0, rc_WriteTimeout = 0, rc_MaxRedirects = 0, rc_MaxRetries = 0, rc_PoolSize = 0, rc_Username = [],
     rc_Password = [], rc_RouteByLatency = False, rc_MasterName = [], rc_SentinelPassword = []\<rparr>"

text \<open>The options of the client package: the fields the code sets itself, and what it decodes from the configuration.\<close>

record 'o redis_options =
  uo_decoded :: 'o
  uo_ClientName :: string
  uo_TLS :: "bool option"
  uo_RouteByLatency :: bool
  uo_UseDisconnectedReplicas :: bool

datatype 'o redis_client = SimpleClient "'o redis_options" | ClusterClient "'o redis_options" | FailoverClusterClient "'o redis_options"

definition ErrUnknownRedisMode :: goerr where "ErrUnknownRedisMode = ErrMsg ''redis: unknown mode''"

definition is_alnum :: "char \<Rightarrow> bool" where
  "is_alnum c \<longleftrightarrow>
     (let n = (of_char c :: nat) in 97 \<le> n \<and> n \<le> 122 \<or> 65 \<le> n \<and> n \<le> 90 \<or> 48 \<le> n \<and> n \<le> 57)"

text \<open>\<^verbatim>\<open>strings.ReplaceAll(name, c, "")\<close> for a one-character string, and replacing every run of other characters by nothing.\<close>

definition WithClientName :: "string \<Rightarrow> 'o redis_options \<Rightarrow> 'o redis_options" where
  "WithClientName name uo =
     (let name = filter (\<lambda>c. c \<noteq> CHR '' '') name;
          name = filter (\<lambda>c. c \<noteq> CHR 0x0A) name;
          name = filter is_alnum name
      in uo\<lparr>uo_ClientName := name\<rparr>)"

definition NewRedisClient :: "(RedisConfig \<Rightarrow> 'o redis_options) \<Rightarrow> ('o redis_client \<Rightarrow> string option)
    \<Rightarrow> RedisConfig \<Rightarrow> ('o redis_options \<Rightarrow> 'o redis_options) list \<Rightarrow> 'o redis_client res" where
  "NewRedisClient decode ping config options =
     (let opts = foldl (\<lambda>uo opt. opt uo) (decode config) options;
          opts = (if rc_EnableTLS config then opts\<lparr>uo_TLS := Some (rc_InsecureSkipVerify config)\<rparr> else opts);
          connect = (\<lambda>client.
            (case ping client of
               Some msg \<Rightarrow> Err (ErrMsg (''redis: connection issue: '' @ msg))
             | None \<Rightarrow> Ok client))
      in if rc_Mode config = RedisModeSingle then connect (SimpleClient opts)
         else if rc_Mode config = RedisModeCluster then connect (ClusterClient opts)
         else if rc_Mode config = RedisModeSentinel then
           connect (FailoverClusterClient (opts\<lparr>uo_RouteByLatency := True, uo_UseDisconnectedReplicas := True\<rparr>))
         else Err ErrUnknownRedisMode)"

definition NewBlobCacheMetadata :: "(RedisConfig \<Rightarrow> 'o redis_options) \<Rightarrow> ('o redis_client \<Rightarrow> string option)
    \<Rightarrow> MetadataConfig \<Rightarrow> 'o redis_client BlobCacheMetadata res" where
  "NewBlobCacheMetadata decode ping cfg =
     (let redisMode = (if me_RedisMode cfg \<noteq> [] then me_RedisMode cfg else RedisModeSingle)
      in case NewRedisClient decode ping
           (zero_RedisConfig\<lparr>rc_Addrs := [me_RedisAddr cfg], rc_Mode := redisMode, rc_Password := me_RedisPasswd cfg,
              rc_SentinelPassword := me_RedisPasswd cfg, rc_EnableTLS := me_RedisTLSEnabled cfg,
              rc_MasterName := me_RedisMasterName cfg, rc_InsecureSkipVerify := True\<rparr>) [] of
           Ok rdb \<Rightarrow> Ok \<lparr>mt_rdb = rdb, mt_locks = Map.empty\<rparr>
         | Err e \<Rightarrow> Err e
         | Panic \<Rightarrow> Panic)"

fun is_cluster_client :: "'o redis_client \<Rightarrow> bool" where
  "is_cluster_client (SimpleClient _) = False"
| "is_cluster_client (ClusterClient _) = True"
| "is_cluster_client (FailoverClusterClient _) = True"

subsection \<open>Scan\<close>

datatype scan_producer = Scanning | SendingErr goerr | ScanClosed
datatype scan_receiver = Ranging | AwaitErr | Returned "string list res"

text \<open>A master is the keys its iterator still has and the error the iterator ends with.\<close>

type_synonym scan_master = "string list \<times> goerr option"

record scan_state =
  sn_cluster :: bool
  sn_masters :: "scan_master list"
  sn_seen :: "string list"
  sn_err :: "goerr option"
  sn_prod :: scan_producer
  sn_keys :: "string list"
  sn_recv :: scan_receiver

definition scan_init :: "bool \<Rightarrow> scan_master list \<Rightarrow> scan_state" where
  "scan_init cluster masters = \<lparr>sn_cluster = cluster, sn_masters = masters, sn_seen = [], sn_err = None, sn_prod = Scanning,
     sn_keys = [], sn_recv = Ranging\<rparr>"

text \<open>
  \<^item> \<open>collect\<close>: a master sends a new key on \<^verbatim>\<open>outCh\<close>, which the caller receives;
  \<^item> \<open>known\<close>: a key seen before is skipped;
  \<^item> \<open>master_done\<close>: an iterator ends, and the first error is kept for \<^verbatim>\<open>ForEachMaster\<close>;
  \<^item> \<open>all_done\<close>: the switch ends. A single client's error is dropped; a cluster's is sent on \<^verbatim>\<open>errCh\<close>
    before the deferred calls close the channels;
  \<^item> \<open>send_err\<close>: that send meets the receive after the loop;
  \<^item> \<open>range_end\<close>, \<open>no_err\<close>: the caller's loop ends when \<^verbatim>\<open>outCh\<close> is closed, and then it reads \<^verbatim>\<open>errCh\<close>.
\<close>

inductive scan_step :: "scan_state \<Rightarrow> scan_state \<Rightarrow> bool" where
  collect: "sn_masters s = ms1 @ (k # ks, e) # ms2 \<Longrightarrow> sn_prod s = Scanning \<Longrightarrow> sn_recv s = Ranging \<Longrightarrow> k \<notin> set (sn_seen s) \<Longrightarrow>
    scan_step s (s\<lparr>sn_masters := ms1 @ (ks, e) # ms2, sn_seen := k # sn_seen s, sn_keys := sn_keys s @ [k]\<rparr>)"
| known: "sn_masters s = ms1 @ (k # ks, e) # ms2 \<Longrightarrow> sn_prod s = Scanning \<Longrightarrow> k \<in> set (sn_seen s) \<Longrightarrow>
    scan_step s (s\<lparr>sn_masters := ms1 @ (ks, e) # ms2\<rparr>)"
| master_done: "sn_masters s = ms1 @ ([], e) # ms2 \<Longrightarrow> sn_prod s = Scanning \<Longrightarrow>
    scan_step s (s\<lparr>sn_masters := ms1 @ ms2, sn_err := (case sn_err s of Some e1 \<Rightarrow> Some e1 | None \<Rightarrow> e)\<rparr>)"
| all_done: "sn_masters s = [] \<Longrightarrow> sn_prod s = Scanning \<Longrightarrow>
    scan_step s (s\<lparr>sn_prod := (case sn_err s of Some e \<Rightarrow> if sn_cluster s then SendingErr e else ScanClosed | None \<Rightarrow> ScanClosed)\<rparr>)"
| send_err: "sn_prod s = SendingErr e \<Longrightarrow> sn_recv s = AwaitErr \<Longrightarrow> scan_step s (s\<lparr>sn_prod := ScanClosed, sn_recv := Returned (Err e)\<rparr>)"
| range_end: "sn_prod s = ScanClosed \<Longrightarrow> sn_recv s = Ranging \<Longrightarrow> scan_step s (s\<lparr>sn_recv := AwaitErr\<rparr>)"
| no_err: "sn_prod s = ScanClosed \<Longrightarrow> sn_recv s = AwaitErr \<Longrightarrow> scan_step s (s\<lparr>sn_recv := Returned (Ok (sn_keys s))\<rparr>)"

inductive scan_run :: "bool \<Rightarrow> scan_master list \<Rightarrow> scan_state \<Rightarrow> bool" for cluster masters where
  begin_scan: "scan_run cluster masters (scan_init cluster masters)"
| scan_more: "scan_run cluster masters s \<Longrightarrow> scan_step s s' \<Longrightarrow> scan_run cluster masters s'"

definition all_keys :: "scan_master list \<Rightarrow> string set" where
  "all_keys ms = (\<Union>m \<in> set ms. set (fst m))"

definition failing :: "scan_master list \<Rightarrow> bool" where
  "failing ms \<longleftrightarrow> (\<exists>m \<in> set ms. snd m \<noteq> None)"

subsection \<open>Termination\<close>

fun producer_rank :: "scan_producer \<Rightarrow> nat" where
  "producer_rank Scanning = 2" | "producer_rank (SendingErr _) = 1" | "producer_rank ScanClosed = 0"

fun receiver_rank :: "scan_receiver \<Rightarrow> nat" where
  "receiver_rank Ranging = 2" | "receiver_rank AwaitErr = 1" | "receiver_rank (Returned _) = 0"

definition scan_measure :: "scan_state \<Rightarrow> nat" where
  "scan_measure s = sum_list (map (\<lambda>m. Suc (length (fst m))) (sn_masters s)) + producer_rank (sn_prod s) + receiver_rank (sn_recv s)"

lemma scan_step_measure: "scan_step s s' \<Longrightarrow> scan_measure s' < scan_measure s"
  by (cases rule: scan_step.cases, assumption) (auto simp: scan_measure_def split: option.splits)

subsection \<open>What a run keeps\<close>

definition scan_inv :: "bool \<Rightarrow> scan_master list \<Rightarrow> scan_state \<Rightarrow> bool" where
  "scan_inv cluster masters s \<longleftrightarrow>
     sn_cluster s = cluster \<and> set (sn_seen s) = set (sn_keys s) \<and> distinct (sn_keys s) \<and>
     all_keys (sn_masters s) \<union> set (sn_keys s) = all_keys masters \<and>
     (failing masters \<longleftrightarrow> failing (sn_masters s) \<or> sn_err s \<noteq> None) \<and>
     (sn_prod s \<noteq> Scanning \<longrightarrow> sn_masters s = []) \<and>
     (sn_prod s = ScanClosed \<longrightarrow> \<not> (cluster \<and> failing masters)) \<and>
     (\<forall>e. sn_prod s = SendingErr e \<longrightarrow> cluster \<and> failing masters) \<and>
     (sn_recv s \<noteq> Ranging \<longrightarrow> sn_prod s = ScanClosed) \<and>
     (\<forall>x. sn_recv s = Returned x \<longrightarrow> x = Ok (sn_keys s))"

lemma all_keys_simps [simp]:
  "all_keys [] = {}" "all_keys (m # ms) = set (fst m) \<union> all_keys ms" "all_keys (ms1 @ ms2) = all_keys ms1 \<union> all_keys ms2"
  by (auto simp: all_keys_def)

lemma failing_simps [simp]:
  "\<not> failing []" "failing (m # ms) \<longleftrightarrow> snd m \<noteq> None \<or> failing ms" "failing (ms1 @ ms2) \<longleftrightarrow> failing ms1 \<or> failing ms2"
  by (auto simp: failing_def)

lemma scan_inv_init: "scan_inv cluster masters (scan_init cluster masters)"
  by (simp add: scan_inv_def scan_init_def)

lemma scan_inv_step:
  assumes "scan_inv cluster masters s" "scan_step s s'"
  shows "scan_inv cluster masters s'"
  using assms(2)
proof cases
  case (collect ms1 k ks e ms2)
  then show ?thesis using assms(1) unfolding scan_inv_def by auto
next
  case (known ms1 k ks e ms2)
  then show ?thesis using assms(1) unfolding scan_inv_def by auto
next
  case (master_done ms1 e ms2)
  then show ?thesis using assms(1) unfolding scan_inv_def by (cases "sn_err s") auto
next
  case all_done
  then show ?thesis using assms(1) unfolding scan_inv_def by (cases "sn_err s") auto
qed (use assms(1) in \<open>auto simp: scan_inv_def\<close>)

lemma scan_run_inv: "scan_run cluster masters s \<Longrightarrow> scan_inv cluster masters s"
  by (induction rule: scan_run.induct) (auto intro: scan_inv_init scan_inv_step)

lemma scan_progress:
  assumes "scan_inv cluster masters s" "\<And>x. sn_recv s \<noteq> Returned x" "\<not> (cluster \<and> failing masters)"
  shows "\<exists>s'. scan_step s s'"
proof (cases "sn_prod s")
  case Scanning
  then have r: "sn_recv s = Ranging" using assms(1) by (auto simp: scan_inv_def)
  show ?thesis
  proof (cases "sn_masters s")
    case Nil
    then show ?thesis using all_done Scanning by blast
  next
    case (Cons m ms)
    obtain ks e where "m = (ks, e)" by fastforce
    then show ?thesis
      using collect [of s "[]" _ _ e ms] known [of s "[]" _ _ e ms] master_done [of s "[]" e ms] Cons Scanning r
      by (cases ks) auto
  qed
next
  case (SendingErr e)
  then show ?thesis using assms(1,3) by (auto simp: scan_inv_def)
next
  case ScanClosed
  then show ?thesis using range_end no_err assms(2) by (cases "sn_recv s") blast+
qed

lemma scan_stuck_cluster:
  assumes "scan_inv cluster masters s" "cluster" "failing masters" "\<nexists>s'. scan_step s s'"
  shows "sn_recv s = Ranging \<and> (\<exists>e. sn_prod s = SendingErr e)"
proof -
  have nc: "sn_prod s \<noteq> ScanClosed" and r: "sn_recv s = Ranging" using assms(1-3) by (auto simp: scan_inv_def)
  have "sn_prod s \<noteq> Scanning"
  proof
    assume sc: "sn_prod s = Scanning"
    show False
    proof (cases "sn_masters s")
      case Nil
      then show False using all_done sc assms(4) by blast
    next
      case (Cons m ms)
      obtain ks e where "m = (ks, e)" by fastforce
      then show False
        using collect [of s "[]" _ _ e ms] known [of s "[]" _ _ e ms] master_done [of s "[]" e ms] Cons sc r assms(4)
        by (cases ks) auto
    qed
  qed
  with nc r show ?thesis by (cases "sn_prod s") auto
qed

lemma no_infinite_scan: "\<not> (\<forall>n. scan_step (f n) (f (Suc n)))"
proof
  assume "\<forall>n. scan_step (f n) (f (Suc n))"
  then have "\<forall>n. (f (Suc n), f n) \<in> measure scan_measure" using scan_step_measure by simp
  then show False using wf_measure wf_iff_no_infinite_down_chain by blast
qed

text \<open>
  C10: Every execution of \<^verbatim>\<open>Scan\<close> comes to rest. With a single server, or a cluster none of whose masters fails, it rests only by
  returning every key of the servers exactly once; an error of a single server is dropped. When a master of a cluster fails it comes to rest
  without returning: the caller waits on the key channel, which is closed only after the error has been received.
\<close>

theorem scan_outcome:
  "(\<nexists>f. f 0 = scan_init cluster masters \<and> (\<forall>n. scan_step (f n) (f (Suc n)))) \<and>
   (\<forall>s. scan_run cluster masters s \<and> (\<nexists>s'. scan_step s s') \<longrightarrow>
     (if cluster \<and> failing masters then sn_recv s = Ranging \<and> (\<exists>e. sn_prod s = SendingErr e)
      else \<exists>ks. sn_recv s = Returned (Ok ks) \<and> distinct ks \<and> set ks = all_keys masters))"
proof (intro conjI allI impI)
  show "\<nexists>f. f 0 = scan_init cluster masters \<and> (\<forall>n. scan_step (f n) (f (Suc n)))" using no_infinite_scan by blast
  fix s assume s: "scan_run cluster masters s \<and> (\<nexists>s'. scan_step s s')"
  note inv = scan_run_inv [OF conjunct1 [OF s]]
  show "if cluster \<and> failing masters then sn_recv s = Ranging \<and> (\<exists>e. sn_prod s = SendingErr e)
      else \<exists>ks. sn_recv s = Returned (Ok ks) \<and> distinct ks \<and> set ks = all_keys masters"
  proof (cases "cluster \<and> failing masters")
    case True
    then show ?thesis using scan_stuck_cluster [OF inv] s by simp
  next
    case False
    then obtain x where x: "sn_recv s = Returned x" using scan_progress [OF inv] s by blast
    with inv False show ?thesis by (auto simp: scan_inv_def)
  qed
qed

definition failed_scan :: scan_state where
  "failed_scan = (scan_init True [([''a''], Some RedisNil)])
     \<lparr>sn_masters := [], sn_seen := [''a''], sn_keys := [''a''], sn_err := Some RedisNil, sn_prod := SendingErr RedisNil\<rparr>"

theorem scan_outcome_witness:
  "scan_run True [([''a''], Some RedisNil)] failed_scan \<and> (\<nexists>s'. scan_step failed_scan s') \<and> sn_recv failed_scan = Ranging"
proof -
  let ?s0 = "scan_init True [([''a''], Some RedisNil)]"
  let ?s1 = "?s0\<lparr>sn_masters := [([], Some RedisNil)], sn_seen := [''a''], sn_keys := [''a'']\<rparr>"
  let ?s2 = "?s1\<lparr>sn_masters := [], sn_err := Some RedisNil\<rparr>"
  have "scan_step ?s0 ?s1" using collect [of ?s0 "[]" "''a''" "[]" "Some RedisNil" "[]"] by (simp add: scan_init_def)
  moreover have "scan_step ?s1 ?s2" using master_done [of ?s1 "[]" "Some RedisNil" "[]"] by (simp add: scan_init_def)
  moreover have "scan_step ?s2 failed_scan" using all_done [of ?s2] by (simp add: scan_init_def failed_scan_def)
  ultimately have run: "scan_run True [([''a''], Some RedisNil)] failed_scan" by (blast intro: scan_run.intros)
  have stuck: "\<nexists>s'. scan_step failed_scan s'" by (auto simp: failed_scan_def scan_init_def elim: scan_step.cases)
  from scan_outcome [of True "[([''a''], Some RedisNil)]"] run stuck have "sn_recv failed_scan = Ranging" by simp
  with run stuck show ?thesis by blast
qed

text \<open>The client name is what is left of the letters and digits of the name.\<close>

lemma WithClientName_alnum: "uo_ClientName (WithClientName name uo) = filter is_alnum name"
proof -
  have "\<not> is_alnum (CHR '' '')" "\<not> is_alnum (CHR 0x0A)" by (simp_all add: is_alnum_def)
  then show ?thesis by (auto simp: WithClientName_def intro!: filter_cong)
qed

text \<open>Without a mode the metadata store connects to a single server; an unknown mode is refused before any connection.\<close>

lemma NewBlobCacheMetadata_mode:
  "me_RedisMode cfg = [] \<Longrightarrow> NewBlobCacheMetadata decode ping cfg = Ok m \<Longrightarrow> \<exists>opts. mt_rdb m = SimpleClient opts"
  "me_RedisMode cfg \<notin> {[], RedisModeSingle, RedisModeCluster, RedisModeSentinel} \<Longrightarrow>
     NewBlobCacheMetadata decode ping cfg = Err ErrUnknownRedisMode"
  by (auto simp: NewBlobCacheMetadata_def NewRedisClient_def Let_def split: res.splits option.splits)

end
