(* ===== verification/Metadata_Laws.thy ===== *)
theory Metadata_Laws
  imports Metadata
begin

text \<open>
  What Redis promises, over a view of its contents with a clock, and what the operations of \<^verbatim>\<open>src/pkg/metadata.go\<close> and the lock of
  \<^verbatim>\<open>src/pkg/redis.go\<close> achieve on top of it: nodes are stored with their generation counted up, hosts are listed as long as their
  keep-alive lasts, and a lock has at most one live holder among the nodes that share the Redis server.
\<close>

subsection \<open>The contract of Redis\<close>

record redis_view =
  rv_now :: int
  rv_hash :: "string \<Rightarrow> string \<Rightarrow> string option"
  rv_set :: "string \<Rightarrow> string set"
  rv_str :: "string \<Rightarrow> (string \<times> int) option"
  rv_lock :: "string \<Rightarrow> (string \<times> int) option"
  rv_tokens :: "string set"

definition alive :: "int \<Rightarrow> ('a \<times> int) option \<Rightarrow> ('a \<times> int) option" where
  "alive t x = (case x of Some (v, d) \<Rightarrow> if t < d then Some (v, d) else None | None \<Rightarrow> None)"

text \<open>Time passes: what has reached its deadline is gone.\<close>

definition expire :: "int \<Rightarrow> redis_view \<Rightarrow> redis_view" where
  "expire t v = v\<lparr>rv_now := t, rv_str := (\<lambda>k. alive t (rv_str v k)), rv_lock := (\<lambda>k. alive t (rv_lock v k))\<rparr>"

definition tick :: "redis_view \<Rightarrow> redis_view \<Rightarrow> bool" where
  "tick v v' \<longleftrightarrow> rv_now v \<le> rv_now v' \<and> v' = expire (rv_now v') v"

text \<open>A command that reports success took effect; one that reports an error may have taken effect or not.\<close>

definition performs :: "redis_view \<Rightarrow> (redis_view \<Rightarrow> redis_view) \<Rightarrow> 'a res \<Rightarrow> redis_view \<Rightarrow> bool" where
  "performs v f x v' \<longleftrightarrow>
     x \<noteq> Panic \<and> (\<exists>v1. tick v v1 \<and> (tick (f v1) v' \<or> (\<exists>e. x = Err e) \<and> tick v1 v'))"

definition vw_HSet where "vw_HSet k ps v = v\<lparr>rv_hash := (rv_hash v)(k := rv_hash v k ++ map_of (rev ps))\<rparr>"
definition vw_SAdd where "vw_SAdd k x v = v\<lparr>rv_set := (rv_set v)(k := insert x (rv_set v k))\<rparr>"
definition vw_SRem where "vw_SRem k x v = v\<lparr>rv_set := (rv_set v)(k := rv_set v k - {x})\<rparr>"
definition vw_Set where "vw_Set k x ttl v = v\<lparr>rv_str := (rv_str v)(k \<mapsto> (x, rv_now v + ttl))\<rparr>"
definition vw_Del where
  "vw_Del k v = v\<lparr>rv_hash := (rv_hash v)(k := Map.empty), rv_set := (rv_set v)(k := {}), rv_str := (rv_str v)(k := None)\<rparr>"
definition vw_Obtain where
  "vw_Obtain k tok ttl v = v\<lparr>rv_lock := (rv_lock v)(k \<mapsto> (tok, rv_now v + ttl)), rv_tokens := insert tok (rv_tokens v)\<rparr>"
definition vw_Release where
  "vw_Release k tok v = (if map_option fst (rv_lock v k) = Some tok then v\<lparr>rv_lock := (rv_lock v)(k := None)\<rparr> else v)"
definition vw_Refresh where
  "vw_Refresh k tok ttl v =
     (if map_option fst (rv_lock v k) = Some tok then v\<lparr>rv_lock := (rv_lock v)(k \<mapsto> (tok, rv_now v + ttl))\<rparr> else v)"

definition reads :: "('r \<Rightarrow> redis_view) \<Rightarrow> 'r \<Rightarrow> 'r \<times> 'a res \<Rightarrow> (redis_view \<Rightarrow> 'a res \<Rightarrow> bool) \<Rightarrow> bool" where
  "reads vw r z Q \<longleftrightarrow> tick (vw r) (vw (fst z)) \<and> snd z \<noteq> Panic \<and> Q (vw (fst z)) (snd z)"

definition redis_err :: "goerr \<Rightarrow> bool" where
  "redis_err e \<longleftrightarrow> e \<noteq> RedisNil \<and> (\<forall>i. e \<noteq> ErrNodeNotFound i)"

text \<open>
  The documented behaviour of the commands: hashes and sets as maps and sets, a string with a time to live readable until its
  deadline, and the lock package, which takes the key only when it is free, with a token never issued before, and releases or
  refreshes only under the token that holds the key. Keys past their deadline are never seen.
\<close>

definition redis_contract :: "'r redis \<Rightarrow> ('r \<Rightarrow> redis_view) \<Rightarrow> bool" where
  "redis_contract D vw \<longleftrightarrow>
     (\<forall>r k. reads vw r (rd_HGetAll D r k) (\<lambda>v x. (\<forall>ps. x = Ok ps \<longrightarrow> map_of ps = rv_hash v k) \<and> (\<forall>e. x = Err e \<longrightarrow> redis_err e))) \<and>
     (\<forall>r k. reads vw r (rd_SMembers D r k) (\<lambda>v x. \<forall>xs. x = Ok xs \<longrightarrow> set xs = rv_set v k)) \<and>
     (\<forall>r k. reads vw r (rd_Get D r k)
        (\<lambda>v x. (\<forall>s. x = Ok s \<longrightarrow> map_option fst (rv_str v k) = Some s) \<and> (x = Err RedisNil \<longrightarrow> rv_str v k = None))) \<and>
     (\<forall>r k ps. performs (vw r) (vw_HSet k ps) (snd (rd_HSet D r k ps)) (vw (fst (rd_HSet D r k ps)))) \<and>
     (\<forall>r k x. performs (vw r) (vw_SAdd k x) (snd (rd_SAdd D r k x)) (vw (fst (rd_SAdd D r k x)))) \<and>
     (\<forall>r k x. performs (vw r) (vw_SRem k x) (snd (rd_SRem D r k x)) (vw (fst (rd_SRem D r k x)))) \<and>
     (\<forall>r k x ttl. performs (vw r) (vw_Set k x ttl) (snd (rd_Set D r k x ttl)) (vw (fst (rd_Set D r k x ttl)))) \<and>
     (\<forall>r k. performs (vw r) (vw_Del k) (snd (rd_Del D r k)) (vw (fst (rd_Del D r k)))) \<and>
     (\<forall>r k ttl n. snd (rl_Obtain D r k ttl n) \<noteq> Panic \<and>
        (\<exists>v1 tok. tick (vw r) v1 \<and>
           (tick v1 (vw (fst (rl_Obtain D r k ttl n))) \<and> (\<exists>e. snd (rl_Obtain D r k ttl n) = Err e) \<or>
            rv_lock v1 k = None \<and> tok \<notin> rv_tokens v1 \<and> snd (rl_Obtain D r k ttl n) \<in> {Ok tok} \<union> range Err \<and>
            tick (vw_Obtain k tok ttl v1) (vw (fst (rl_Obtain D r k ttl n)))))) \<and>
     (\<forall>r k tok. performs (vw r) (vw_Release k tok) (snd (rl_Release D r k tok)) (vw (fst (rl_Release D r k tok)))) \<and>
     (\<forall>r k tok ttl n. performs (vw r) (vw_Refresh k tok ttl) (snd (rl_Refresh D r k tok ttl n))
        (vw (fst (rl_Refresh D r k tok ttl n)))) \<and>
     (\<forall>r. tick (vw r) (vw r))"

lemma redis_contractD:
  assumes "redis_contract D vw"
  shows contract_HGetAll: "rd_HGetAll D r k = z1 \<Longrightarrow> reads vw r z1 (\<lambda>v x. (\<forall>ps. x = Ok ps \<longrightarrow> map_of ps = rv_hash v k) \<and> (\<forall>e. x = Err e \<longrightarrow> redis_err e))"
    and contract_SMembers: "rd_SMembers D r k = z2 \<Longrightarrow> reads vw r z2 (\<lambda>v x. \<forall>xs. x = Ok xs \<longrightarrow> set xs = rv_set v k)"
    and contract_Get: "rd_Get D r k = z3 \<Longrightarrow> reads vw r z3
        (\<lambda>v x. (\<forall>s. x = Ok s \<longrightarrow> map_option fst (rv_str v k) = Some s) \<and> (x = Err RedisNil \<longrightarrow> rv_str v k = None))"
    and contract_HSet: "rd_HSet D r k ps = (r', x) \<Longrightarrow> performs (vw r) (vw_HSet k ps) x (vw r')"
    and contract_SAdd: "rd_SAdd D r k e = (r', x) \<Longrightarrow> performs (vw r) (vw_SAdd k e) x (vw r')"
    and contract_SRem: "rd_SRem D r k e = (r', x) \<Longrightarrow> performs (vw r) (vw_SRem k e) x (vw r')"
    and contract_Set: "rd_Set D r k s ttl = (r', x) \<Longrightarrow> performs (vw r) (vw_Set k s ttl) x (vw r')"
    and contract_Del: "rd_Del D r k = (r', x) \<Longrightarrow> performs (vw r) (vw_Del k) x (vw r')"
    and contract_Release: "rl_Release D r k tok = (r', x) \<Longrightarrow> performs (vw r) (vw_Release k tok) x (vw r')"
    and contract_Refresh: "rl_Refresh D r k tok ttl n = (r', x) \<Longrightarrow> performs (vw r) (vw_Refresh k tok ttl) x (vw r')"
    and contract_refl: "tick (vw r) (vw r)"
proof -
  note c1 = assms [unfolded redis_contract_def]
  note c2 = c1 [THEN conjunct2] note c3 = c2 [THEN conjunct2] note c4 = c3 [THEN conjunct2] note c5 = c4 [THEN conjunct2]
  note c6 = c5 [THEN conjunct2] note c7 = c6 [THEN conjunct2] note c8 = c7 [THEN conjunct2] note c9 = c8 [THEN conjunct2]
  note c10 = c9 [THEN conjunct2] note c11 = c10 [THEN conjunct2]
  show "rd_HGetAll D r k = z1 \<Longrightarrow> reads vw r z1 (\<lambda>v x. (\<forall>ps. x = Ok ps \<longrightarrow> map_of ps = rv_hash v k) \<and> (\<forall>e. x = Err e \<longrightarrow> redis_err e))"
    using c1 [THEN conjunct1, THEN spec, THEN spec, of r k] by simp
  show "rd_SMembers D r k = z2 \<Longrightarrow> reads vw r z2 (\<lambda>v x. \<forall>xs. x = Ok xs \<longrightarrow> set xs = rv_set v k)"
    using c2 [THEN conjunct1, THEN spec, THEN spec, of r k] by simp
  show "rd_Get D r k = z3 \<Longrightarrow> reads vw r z3
        (\<lambda>v x. (\<forall>s. x = Ok s \<longrightarrow> map_option fst (rv_str v k) = Some s) \<and> (x = Err RedisNil \<longrightarrow> rv_str v k = None))"
    using c3 [THEN conjunct1, THEN spec, THEN spec, of r k] by simp
  show "rd_HSet D r k ps = (r', x) \<Longrightarrow> performs (vw r) (vw_HSet k ps) x (vw r')"
    using c4 [THEN conjunct1, rule_format, of r k ps] by simp
  show "rd_SAdd D r k e = (r', x) \<Longrightarrow> performs (vw r) (vw_SAdd k e) x (vw r')"
    using c5 [THEN conjunct1, rule_format, of r k e] by simp
  show "rd_SRem D r k e = (r', x) \<Longrightarrow> performs (vw r) (vw_SRem k e) x (vw r')"
    using c6 [THEN conjunct1, rule_format, of r k e] by simp
  show "rd_Set D r k s ttl = (r', x) \<Longrightarrow> performs (vw r) (vw_Set k s ttl) x (vw r')"
    using c7 [THEN conjunct1, rule_format, of r k s ttl] by simp
  show "rd_Del D r k = (r', x) \<Longrightarrow> performs (vw r) (vw_Del k) x (vw r')"
    using c8 [THEN conjunct1, rule_format, of r k] by simp
  show "rl_Release D r k tok = (r', x) \<Longrightarrow> performs (vw r) (vw_Release k tok) x (vw r')"
    using c10 [THEN conjunct1, rule_format, of r k tok] by simp
  show "rl_Refresh D r k tok ttl n = (r', x) \<Longrightarrow> performs (vw r) (vw_Refresh k tok ttl) x (vw r')"
    using c11 [THEN conjunct1, rule_format, of r k tok ttl n] by simp
  show "tick (vw r) (vw r)" using c11 [THEN conjunct2, rule_format, of r] .
qed

lemma contract_Obtain:
  assumes "redis_contract D vw" "rl_Obtain D r k ttl n = (r', x)"
  obtains v1 where "tick (vw r) v1" "tick v1 (vw r')" "\<exists>e. x = Err e"
  | v1 tok where "tick (vw r) v1" "rv_lock v1 k = None" "tok \<notin> rv_tokens v1" "x = Ok tok \<or> (\<exists>e. x = Err e)"
      "tick (vw_Obtain k tok ttl v1) (vw r')"
proof -
  have "\<exists>v1 tok. tick (vw r) v1 \<and>
           (tick v1 (vw r') \<and> (\<exists>e. x = Err e) \<or>
            rv_lock v1 k = None \<and> tok \<notin> rv_tokens v1 \<and> x \<in> {Ok tok} \<union> range Err \<and> tick (vw_Obtain k tok ttl v1) (vw r'))"
    using assms(1) [unfolded redis_contract_def, THEN conjunct2, THEN conjunct2, THEN conjunct2, THEN conjunct2, THEN conjunct2,
        THEN conjunct2, THEN conjunct2, THEN conjunct2, THEN conjunct1, THEN spec, THEN spec, THEN spec, THEN spec, of r k ttl n, THEN conjunct2]
      assms(2) by simp
  then show thesis using that by blast
qed

subsection \<open>Time\<close>

lemma alive_alive: "s \<le> t \<Longrightarrow> alive t (alive s x) = alive t x"
  by (auto simp: alive_def split: option.splits)

lemma tick_trans: "tick u v \<Longrightarrow> tick v w \<Longrightarrow> tick u w"
proof -
  assume a: "tick u v" "tick v w"
  then have le: "rv_now u \<le> rv_now v" "rv_now v \<le> rv_now w" by (simp_all add: tick_def)
  have "w = expire (rv_now w) (expire (rv_now v) u)" using a unfolding tick_def by metis
  also have "\<dots> = expire (rv_now w) u" using le by (simp add: expire_def alive_alive)
  finally show ?thesis using le unfolding tick_def by linarith
qed

lemma tickD:
  assumes "tick v v'"
  shows "rv_now v \<le> rv_now v'" "rv_hash v' = rv_hash v" "rv_set v' = rv_set v" "rv_tokens v' = rv_tokens v"
    "rv_str v' k = alive (rv_now v') (rv_str v k)" "rv_lock v' k = alive (rv_now v') (rv_lock v k)"
proof -
  have eq: "v' = expire (rv_now v') v" using assms by (simp add: tick_def)
  show "rv_now v \<le> rv_now v'" using assms by (simp add: tick_def)
  show "rv_hash v' = rv_hash v" "rv_set v' = rv_set v" "rv_tokens v' = rv_tokens v"
    by (subst eq, simp add: expire_def)+
  show "rv_str v' k = alive (rv_now v') (rv_str v k)" "rv_lock v' k = alive (rv_now v') (rv_lock v k)"
    by (subst eq, simp add: expire_def)+
qed

text \<open>What leaves the locks alone.\<close>

definition quiet :: "redis_view \<Rightarrow> redis_view \<Rightarrow> bool" where
  "quiet v v' \<longleftrightarrow> rv_now v \<le> rv_now v' \<and> rv_tokens v' = rv_tokens v \<and> (\<forall>k. rv_lock v' k = alive (rv_now v') (rv_lock v k))"

lemma quiet_trans [trans]: "quiet u v \<Longrightarrow> quiet v w \<Longrightarrow> quiet u w"
  unfolding quiet_def by (auto simp: alive_alive)

lemma tick_quiet: "tick v v' \<Longrightarrow> quiet v v'"
  by (simp add: quiet_def tickD)

lemma reads_tick: "reads vw r z Q \<Longrightarrow> tick (vw r) (vw (fst z))"
  by (simp add: reads_def)

lemma performs_quiet:
  assumes "performs v f x v'"
    and "\<And>u. rv_lock (f u) = rv_lock u" "\<And>u. rv_now (f u) = rv_now u" "\<And>u. rv_tokens (f u) = rv_tokens u"
  shows "quiet v v'"
proof -
  obtain v1 where v1: "tick v v1" "tick (f v1) v' \<or> tick v1 v'" using assms(1) by (auto simp: performs_def)
  have "quiet v1 v'" using v1(2) tick_quiet [of "f v1" v'] tick_quiet [of v1 v'] by (auto simp: quiet_def assms)
  with tick_quiet [OF v1(1)] show ?thesis by (rule quiet_trans)
qed

subsection \<open>The abstract file system in Redis\<close>

definition hash_meta :: "codec \<Rightarrow> (string \<Rightarrow> string option) \<Rightarrow> BlobFsMetadata" where
  "hash_meta cd h =
     fields_meta (map (\<lambda>fd. case h (fd_tag fd) of Some v \<Rightarrow> fd\<lparr>fd_val := set_field (cd_num cd) v (fd_val fd)\<rparr> | None \<Rightarrow> fd)
       (meta_fields zero_BlobFsMetadata))"

definition fs_node :: "codec \<Rightarrow> redis_view \<Rightarrow> string \<Rightarrow> BlobFsMetadata option" where
  "fs_node cd v i =
     (let h = rv_hash v (MetadataFsNode i) in if h = Map.empty then None else Some (hash_meta cd h))"

definition fs_kids :: "redis_view \<Rightarrow> string \<Rightarrow> string set" where
  "fs_kids v i = rv_set v (MetadataFsNodeChildren i)"

definition bump_gen :: "BlobFsMetadata option \<Rightarrow> BlobFsMetadata \<Rightarrow> BlobFsMetadata" where
  "bump_gen old md = (case old of Some o1 \<Rightarrow> md\<lparr>md_Gen := md_Gen o1 + 1\<rparr> | None \<Rightarrow> md)"

lemma meta_fields_good: "fd \<in> set (meta_fields md) \<Longrightarrow> fd_canSet fd \<and> fd_tag fd \<noteq> [] \<and> fd_tag fd \<noteq> ''-''"
  unfolding meta_fields_def by auto

lemma decode_hash: "decode_meta cd ps = hash_meta cd (map_of ps)"
  unfolding decode_meta_def hash_meta_def ToStruct_def
  by (rule arg_cong [where f = fields_meta], rule map_cong [OF refl]) (auto dest: meta_fields_good)

lemma meta_tags: "fd \<in> set (meta_fields md0) \<Longrightarrow> \<exists>v. map_of (meta_pairs nf md) (fd_tag fd) = Some v"
proof -
  assume "fd \<in> set (meta_fields md0)"
  moreover have "map fd_tag (meta_fields md0) = map fd_tag (meta_fields md)" by (simp add: meta_fields_def)
  ultimately have "fd_tag fd \<in> fst ` set (meta_pairs nf md)"
    by (metis (no_types, lifting) image_eqI image_set list.map_comp fst_conv comp_def meta_pairs_def map_eq_conv)
  then show ?thesis by (metis not_None_eq map_of_eq_None_iff)
qed

lemma hash_meta_pairs: "hash_meta cd (h ++ map_of (meta_pairs (cd_num cd) md)) = md"
proof -
  have "hash_meta cd (h ++ map_of (meta_pairs (cd_num cd) md)) = hash_meta cd (map_of (meta_pairs (cd_num cd) md))"
    unfolding hash_meta_def
    by (rule arg_cong [where f = fields_meta], rule map_cong [OF refl])
      (auto simp: map_add_def dest!: meta_tags [where md = md and nf = "cd_num cd"])
  also have "\<dots> = md" unfolding decode_hash [symmetric] decode_meta_def by (rule ToStruct_meta [OF refl])
  finally show ?thesis .
qed

lemma MetadataFsNode_inject [simp]: "MetadataFsNode i = MetadataFsNode j \<longleftrightarrow> i = j"
  by (simp add: MetadataFsNode_def)

lemma MetadataFsNodeChildren_inject [simp]: "MetadataFsNodeChildren i = MetadataFsNodeChildren j \<longleftrightarrow> i = j"
  by (simp add: MetadataFsNodeChildren_def)

lemma tick_fs:
  assumes "tick v v'"
  shows "fs_node cd v' = fs_node cd v" "fs_kids v' = fs_kids v"
  unfolding fs_node_def fs_kids_def tickD(2,3) [OF assms] by (rule refl)+

lemma HSet_fs:
  "fs_node cd (vw_HSet (MetadataFsNode i) (meta_pairs (cd_num cd) md) v) = (fs_node cd v)(i \<mapsto> md)"
  "fs_kids (vw_HSet k ps v) = fs_kids v"
proof -
  have "distinct (map fst (meta_pairs (cd_num cd) md))" using meta_fields_tags by (simp add: meta_pairs_def comp_def)
  then have r: "map_of (rev (meta_pairs (cd_num cd) md)) = map_of (meta_pairs (cd_num cd) md)"
    by (subst map_of_inject_set) (simp_all add: rev_map [symmetric])
  have "meta_pairs (cd_num cd) md \<noteq> []" by (simp add: meta_pairs_def meta_fields_def)
  then have "rv_hash v (MetadataFsNode i) ++ map_of (meta_pairs (cd_num cd) md) \<noteq> Map.empty" by auto
  then show "fs_node cd (vw_HSet (MetadataFsNode i) (meta_pairs (cd_num cd) md) v) = (fs_node cd v)(i \<mapsto> md)"
    by (auto simp: fs_node_def vw_HSet_def hash_meta_pairs r fun_eq_iff Let_def)
  show "fs_kids (vw_HSet k ps v) = fs_kids v" by (simp add: fs_kids_def vw_HSet_def fun_eq_iff)
qed

lemma SAdd_fs:
  "fs_kids (vw_SAdd (MetadataFsNodeChildren p) i v) = (fs_kids v)(p := insert i (fs_kids v p))"
  "fs_node cd (vw_SAdd k i v) = fs_node cd v"
  by (auto simp: fs_node_def fs_kids_def vw_SAdd_def fun_eq_iff)

lemma SRem_fs:
  "fs_kids (vw_SRem (MetadataFsNodeChildren p) i v) = (fs_kids v)(p := fs_kids v p - {i})"
  "fs_node cd (vw_SRem k i v) = fs_node cd v"
  by (auto simp: fs_node_def fs_kids_def vw_SRem_def fun_eq_iff)

lemma performs_cases:
  assumes "performs v f x v'"
  obtains v1 y where "tick v v1" "tick (f v1) v'" "x = Ok y"
  | v1 e where "tick v v1" "tick (f v1) v'" "x = Err e"
  | v1 e where "tick v v1" "tick v1 v'" "x = Err e"
  using assms unfolding performs_def by (cases x) auto

text \<open>The effect of a command on a part of the view that time does not change.\<close>

lemma performs_abs:
  assumes "performs v f (x :: unit res) v'" and "\<And>u u'. tick u u' \<Longrightarrow> g u' = g u" and "\<And>u. g (f u) = F (g u)"
  shows "if x = Ok () then g v' = F (g v) else g v' = g v \<or> g v' = F (g v)"
  using assms(1)
proof (cases rule: performs_cases)
  case (1 v1 y)
  then show ?thesis using assms(2) [of v v1] assms(2) [of "f v1" v'] assms(3) by simp
next
  case (2 v1 e)
  then show ?thesis using assms(2) [of v v1] assms(2) [of "f v1" v'] assms(3) by simp
next
  case (3 v1 e)
  then show ?thesis using assms(2) [of v v1] assms(2) [of v1 v'] by simp
qed

lemma performs_same:
  assumes "performs v f (x :: unit res) v'" and "\<And>u u'. tick u u' \<Longrightarrow> g u' = g u" and "\<And>u. g (f u) = g u"
  shows "g v' = g v"
  using performs_abs [of v f x v' g "\<lambda>a. a", OF assms] by (simp split: if_splits)

lemma performs_no_panic: "performs v f x v' \<Longrightarrow> x \<noteq> Panic"
  by (simp add: performs_def)

text \<open>The laws of the node operations.\<close>

abbreviation mview :: "('r \<Rightarrow> redis_view) \<Rightarrow> 'r BlobCacheMetadata \<Rightarrow> redis_view" where
  "mview vw m \<equiv> vw (mt_rdb m)"

lemma GetFsNode_law:
  assumes "redis_contract D vw" "meta_GetFsNode D cd m i = (m', x)"
  shows "tick (mview vw m) (mview vw m')" "mt_locks m' = mt_locks m" "x \<noteq> Panic"
    and "x = Ok md \<Longrightarrow> fs_node cd (mview vw m) i = Some md"
    and "x = Err (ErrNodeNotFound j) \<Longrightarrow> j = i \<and> fs_node cd (mview vw m) i = None"
proof -
  obtain r y where ry: "rd_HGetAll D (mt_rdb m) (MetadataFsNode i) = (r, y)" by fastforce
  note c = contract_HGetAll [OF assms(1) ry]
  have t: "tick (mview vw m) (vw r)" using reads_tick [OF c] by simp
  have m': "m' = upd_rdb m r" using assms(2) ry by (auto simp: meta_GetFsNode_def split: res.splits)
  show "tick (mview vw m) (mview vw m')" "mt_locks m' = mt_locks m" using t m' by simp_all
  show "x \<noteq> Panic" using assms(2) ry c by (auto simp: meta_GetFsNode_def reads_def split: res.splits if_splits)
  have h: "rv_hash (vw r) = rv_hash (mview vw m)" using tickD(2) [OF t] .
  show "x = Ok md \<Longrightarrow> fs_node cd (mview vw m) i = Some md"
    using assms(2) ry c h
    by (auto simp: meta_GetFsNode_def reads_def fs_node_def decode_hash Let_def split: res.splits if_splits)
  show "x = Err (ErrNodeNotFound j) \<Longrightarrow> j = i \<and> fs_node cd (mview vw m) i = None"
    using assms(2) ry c h
    by (auto simp: meta_GetFsNode_def reads_def fs_node_def redis_err_def Let_def split: res.splits if_splits)
qed

lemma SetFsNode_law:
  assumes "redis_contract D vw" "meta_SetFsNode D cd m i md = (m', x)"
  shows "quiet (mview vw m) (mview vw m') \<and> mt_locks m' = mt_locks m \<and> x \<noteq> Panic \<and>
     fs_kids (mview vw m') = fs_kids (mview vw m) \<and> rv_set (mview vw m') = rv_set (mview vw m) \<and>
     (let new = (fs_node cd (mview vw m))(i \<mapsto> bump_gen (fs_node cd (mview vw m) i) md)
      in if x = Ok () then fs_node cd (mview vw m') = new
         else fs_node cd (mview vw m') = fs_node cd (mview vw m) \<or> fs_node cd (mview vw m') = new)"
proof -
  obtain r y where ry: "rd_HGetAll D (mt_rdb m) (MetadataFsNode i) = (r, y)" by fastforce
  note c = contract_HGetAll [OF assms(1) ry]
  have t: "tick (mview vw m) (vw r)" using reads_tick [OF c] by simp
  note fs = tick_fs [OF t] and set = tickD(3) [OF t]
  show ?thesis
  proof (cases y)
    case (Err e)
    then have "m' = upd_rdb m r" "x = Err e"
      using assms(2) ry c by (auto simp: meta_SetFsNode_def reads_def redis_err_def)
    then show ?thesis using tick_quiet [OF t] fs set by (simp add: Let_def)
  next
    case Panic
    then show ?thesis using c by (simp add: reads_def)
  next
    case (Ok ps)
    have h: "map_of ps = rv_hash (mview vw m) (MetadataFsNode i)" using c Ok tickD(2) [OF t] by (simp add: reads_def)
    define md1 where "md1 = bump_gen (fs_node cd (mview vw m) i) md"
    have md1: "md1 = (if ps = [] then md else md\<lparr>md_Gen := md_Gen (decode_meta cd ps) + 1\<rparr>)"
      using h by (auto simp: md1_def bump_gen_def fs_node_def decode_hash Let_def)
    obtain r2 z where rz: "rd_HSet D r (MetadataFsNode i) (meta_pairs (cd_num cd) md1) = (r2, z)" by fastforce
    note p = contract_HSet [OF assms(1) rz]
    have x: "m' = upd_rdb m r2" "x = Ok () \<longleftrightarrow> z = Ok ()" "x \<noteq> Panic"
      using assms(2) ry Ok rz p md1 by (auto simp: meta_SetFsNode_def ToSlice_meta performs_def split: res.splits if_splits)
    have "quiet (vw r) (vw r2)" using performs_quiet [OF p] by (simp add: vw_HSet_def)
    with tick_quiet [OF t] have q: "quiet (mview vw m) (vw r2)" by (rule quiet_trans)
    note nodes = performs_abs [OF p, of "fs_node cd", OF tick_fs(1) HSet_fs(1)]
    have "rv_set (vw r2) = rv_set (vw r)" "fs_kids (vw r2) = fs_kids (vw r)"
      by (rule performs_same [OF p, of rv_set], auto simp: tickD vw_HSet_def)
        (rule performs_same [OF p, of fs_kids], auto simp: tick_fs HSet_fs)
    with nodes q x fs set show ?thesis by (auto simp: md1_def [symmetric] Let_def split: if_splits)
  qed
qed

lemma child_laws:
  assumes "redis_contract D vw"
  shows AddFsNodeChild_law: "meta_AddFsNodeChild D m pid i = (m', x) \<Longrightarrow>
      quiet (mview vw m) (mview vw m') \<and> mt_locks m' = mt_locks m \<and> x \<noteq> Panic \<and> fs_node cd (mview vw m') = fs_node cd (mview vw m) \<and>
      (let new = (fs_kids (mview vw m))(pid := insert i (fs_kids (mview vw m) pid))
       in if x = Ok () then fs_kids (mview vw m') = new
          else fs_kids (mview vw m') = fs_kids (mview vw m) \<or> fs_kids (mview vw m') = new)"
    and RemoveFsNodeChild_law: "meta_RemoveFsNodeChild D m pid i = (m', x) \<Longrightarrow>
      quiet (mview vw m) (mview vw m') \<and> mt_locks m' = mt_locks m \<and> x \<noteq> Panic \<and> fs_node cd (mview vw m') = fs_node cd (mview vw m) \<and>
      (let new = (fs_kids (mview vw m))(pid := fs_kids (mview vw m) pid - {i})
       in if x = Ok () then fs_kids (mview vw m') = new
          else fs_kids (mview vw m') = fs_kids (mview vw m) \<or> fs_kids (mview vw m') = new)"
proof -
  assume "meta_AddFsNodeChild D m pid i = (m', x)"
  then obtain r where r: "rd_SAdd D (mt_rdb m) (MetadataFsNodeChildren pid) i = (r, x)" and m': "m' = upd_rdb m r"
    by (auto simp: meta_AddFsNodeChild_def split: prod.splits)
  note p = contract_SAdd [OF assms r]
  have "quiet (mview vw m) (vw r)" using performs_quiet [OF p] by (simp add: vw_SAdd_def)
  then show "quiet (mview vw m) (mview vw m') \<and> mt_locks m' = mt_locks m \<and> x \<noteq> Panic \<and> fs_node cd (mview vw m') = fs_node cd (mview vw m) \<and>
      (let new = (fs_kids (mview vw m))(pid := insert i (fs_kids (mview vw m) pid))
       in if x = Ok () then fs_kids (mview vw m') = new
          else fs_kids (mview vw m') = fs_kids (mview vw m) \<or> fs_kids (mview vw m') = new)"
    using performs_abs [OF p, of fs_kids, OF tick_fs(2) SAdd_fs(1)] performs_same [OF p, of "fs_node cd", OF tick_fs(1) SAdd_fs(2)]
      performs_no_panic [OF p] by (simp add: m' Let_def)
next
  assume "meta_RemoveFsNodeChild D m pid i = (m', x)"
  then obtain r where r: "rd_SRem D (mt_rdb m) (MetadataFsNodeChildren pid) i = (r, x)" and m': "m' = upd_rdb m r"
    by (auto simp: meta_RemoveFsNodeChild_def split: prod.splits)
  note p = contract_SRem [OF assms r]
  have "quiet (mview vw m) (vw r)" using performs_quiet [OF p] by (simp add: vw_SRem_def)
  then show "quiet (mview vw m) (mview vw m') \<and> mt_locks m' = mt_locks m \<and> x \<noteq> Panic \<and> fs_node cd (mview vw m') = fs_node cd (mview vw m) \<and>
      (let new = (fs_kids (mview vw m))(pid := fs_kids (mview vw m) pid - {i})
       in if x = Ok () then fs_kids (mview vw m') = new
          else fs_kids (mview vw m') = fs_kids (mview vw m) \<or> fs_kids (mview vw m') = new)"
    using performs_abs [OF p, of fs_kids, OF tick_fs(2) SRem_fs(1)] performs_same [OF p, of "fs_node cd", OF tick_fs(1) SRem_fs(2)]
      performs_no_panic [OF p] by (simp add: m' Let_def)
qed

text \<open>Listing the children of a node gives nodes that are stored, each under the id of a child.\<close>

lemma get_nodes_law:
  assumes "redis_contract D vw"
  shows "get_nodes D cd m is = (m', x) \<Longrightarrow>
    tick (mview vw m) (mview vw m') \<and> mt_locks m' = mt_locks m \<and>
    (\<exists>mds. x = Ok mds \<and> (\<forall>md \<in> set mds. \<exists>i \<in> set is. fs_node cd (mview vw m) i = Some md))"
proof (induction "is" arbitrary: m m' x)
  case Nil
  then show ?case using contract_refl [OF assms] by simp
next
  case (Cons i "is")
  obtain m1 y where y: "meta_GetFsNode D cd m i = (m1, y)" by fastforce
  obtain m2 z where z: "get_nodes D cd m1 is = (m2, z)" by fastforce
  note g = GetFsNode_law [OF assms y]
  from Cons.IH [OF z] obtain mds where mds: "tick (mview vw m1) (mview vw m2)" "mt_locks m2 = mt_locks m1" "z = Ok mds"
    "\<forall>md \<in> set mds. \<exists>j \<in> set is. fs_node cd (mview vw m) j = Some md"
    using tick_fs(1) [OF g(1), of cd] by auto
  have t: "tick (mview vw m) (mview vw m2)" using g(1) mds(1) by (rule tick_trans)
  show ?case
    using Cons.prems y z mds t g by (cases y) auto
qed

lemma GetFsNodeChildren_law:
  assumes "redis_contract D vw" "meta_GetFsNodeChildren D cd m i = (m', x)"
  shows "tick (mview vw m) (mview vw m') \<and> mt_locks m' = mt_locks m \<and> x \<noteq> Panic \<and>
    (\<forall>mds. x = Ok mds \<longrightarrow> (\<forall>md \<in> set mds. \<exists>j \<in> fs_kids (mview vw m) i. fs_node cd (mview vw m) j = Some md))"
proof -
  obtain r y where y: "rd_SMembers D (mt_rdb m) (MetadataFsNodeChildren i) = (r, y)" by fastforce
  note c = contract_SMembers [OF assms(1) y]
  have t: "tick (mview vw m) (vw r)" using reads_tick [OF c] by simp
  show ?thesis
  proof (cases y)
    case (Ok ids)
    have ids: "set ids = fs_kids (mview vw m) i" using c Ok tickD(3) [OF t] by (simp add: reads_def fs_kids_def)
    have "get_nodes D cd (upd_rdb m r) ids = (m', x)" using assms(2) y Ok by (simp add: meta_GetFsNodeChildren_def)
    from get_nodes_law [OF assms(1) this] show ?thesis
      using tick_fs(1) [OF t, of cd] tick_trans [OF t] ids by auto
  qed (use assms(2) y c t in \<open>auto simp: meta_GetFsNodeChildren_def reads_def\<close>)
qed

text \<open>Deleting a node.\<close>

lemma children_key_no_node: "MetadataFsNode i = MetadataFsNodeChildren j \<longleftrightarrow> i = j @ '':children''"
  by (simp add: MetadataFsNode_def MetadataFsNodeChildren_def)

lemma Del_fs:
  "fs_node cd (vw_Del (MetadataFsNode i) v) = (fs_node cd v)(i := None)"
  "(\<And>j. i \<noteq> j @ '':children'') \<Longrightarrow> fs_kids (vw_Del (MetadataFsNode i) v) = fs_kids v"
  using children_key_no_node [of i] by (auto simp: fs_node_def fs_kids_def vw_Del_def fun_eq_iff Let_def dest: sym)

lemma RemoveFsNode_law:
  assumes "redis_contract D vw" "meta_RemoveFsNode D m i = (m', x)" "\<And>j. i \<noteq> j @ '':children''"
  shows "quiet (mview vw m) (mview vw m') \<and> mt_locks m' = mt_locks m \<and> x \<noteq> Panic \<and> fs_kids (mview vw m') = fs_kids (mview vw m) \<and>
      (let new = (fs_node cd (mview vw m))(i := None)
       in if x = Ok () then fs_node cd (mview vw m') = new
          else fs_node cd (mview vw m') = fs_node cd (mview vw m) \<or> fs_node cd (mview vw m') = new)"
proof -
  from assms(2) obtain r where r: "rd_Del D (mt_rdb m) (MetadataFsNode i) = (r, x)" and m': "m' = upd_rdb m r"
    by (auto simp: meta_RemoveFsNode_def split: prod.splits)
  note p = contract_Del [OF assms(1) r]
  have "quiet (mview vw m) (vw r)" using performs_quiet [OF p] by (simp add: vw_Del_def)
  then show ?thesis
    using performs_abs [OF p, of "fs_node cd", OF tick_fs(1) Del_fs(1)] performs_same [OF p, of fs_kids, OF tick_fs(2) Del_fs(2)]
      performs_no_panic [OF p] assms(3) by (simp add: m' Let_def)
qed

subsection \<open>Hosts and their keep-alive\<close>

definition ages :: "redis_view \<Rightarrow> redis_view \<Rightarrow> bool" where
  "ages v v' \<longleftrightarrow> rv_now v \<le> rv_now v' \<and> (\<forall>k. rv_str v' k = alive (rv_now v') (rv_str v k))"

lemma ages_trans: "ages u v \<Longrightarrow> ages v w \<Longrightarrow> ages u w"
  unfolding ages_def by (auto simp: alive_alive)

lemma tick_ages: "tick v v' \<Longrightarrow> ages v v'"
  by (simp add: ages_def tickD)

lemma ages_alive: "ages v v' \<Longrightarrow> rv_str v k = Some (s, d) \<Longrightarrow> rv_now v' < d \<Longrightarrow> rv_str v' k = Some (s, d)"
  by (simp add: ages_def alive_def)

lemma ages_back: "ages v v' \<Longrightarrow> rv_str v' k = Some (s, d) \<Longrightarrow> rv_str v k = Some (s, d) \<and> rv_now v' < d"
  by (auto simp: ages_def alive_def split: option.splits if_splits)

lemma performs_ages:
  assumes "performs v f x v'" and "\<And>u. rv_str (f u) = rv_str u" "\<And>u. rv_now (f u) = rv_now u"
  shows "ages v v'"
proof -
  obtain v1 where v1: "tick v v1" "tick (f v1) v' \<or> tick v1 v'" using assms(1) by (auto simp: performs_def)
  have "ages v1 v'" using v1(2) tick_ages [of "f v1" v'] tick_ages [of v1 v'] by (auto simp: ages_def assms)
  with tick_ages [OF v1(1)] show ?thesis by (rule ages_trans)
qed

definition index_minus :: "redis_view \<Rightarrow> redis_view \<Rightarrow> string \<Rightarrow> (string \<Rightarrow> bool) \<Rightarrow> bool" where
  "index_minus v v' locality gone \<longleftrightarrow>
     (\<forall>i. i \<in> rv_set v (MetadataHostIndex locality) \<longrightarrow> \<not> gone i \<longrightarrow> i \<in> rv_set v' (MetadataHostIndex locality))"

lemma RemoveHost_law:
  assumes "redis_contract D vw" "meta_RemoveHostFromIndex D m locality host = (m', x)"
  shows "quiet (mview vw m) (mview vw m') \<and> ages (mview vw m) (mview vw m') \<and> mt_locks m' = mt_locks m \<and>
    index_minus (mview vw m) (mview vw m') locality (\<lambda>i. i = HostId host)"
proof -
  from assms(2) obtain r where r: "rd_SRem D (mt_rdb m) (MetadataHostIndex locality) (HostId host) = (r, x)"
    and m': "m' = upd_rdb m r"
    by (auto simp: meta_RemoveHostFromIndex_def split: prod.splits)
  note p = contract_SRem [OF assms(1) r]
  have "rv_set (vw_SRem k y v) = (rv_set v)(k := rv_set v k - {y})" for k y v by (simp add: vw_SRem_def)
  from performs_abs [OF p, of rv_set, OF tickD(3) this] show ?thesis
    using performs_quiet [OF p] performs_ages [OF p] by (auto simp: m' vw_SRem_def index_minus_def split: if_splits)
qed

text \<open>The callback both coordinators pass to \<^verbatim>\<open>GetAvailableHosts\<close>.\<close>

definition drop_host :: "'r redis \<Rightarrow> string \<Rightarrow> 'r BlobCacheMetadata \<Rightarrow> BlobCacheHost \<Rightarrow> 'r BlobCacheMetadata" where
  "drop_host D locality m host = fst (meta_RemoveHostFromIndex D m locality host)"

definition reliable :: "'r redis \<Rightarrow> bool" where
  "reliable D \<longleftrightarrow> (\<forall>r k. (\<exists>xs. snd (rd_SMembers D r k) = Ok xs) \<and> ((\<exists>s. snd (rd_Get D r k) = Ok s) \<or> snd (rd_Get D r k) = Err RedisNil))"

definition has_keepalive :: "codec \<Rightarrow> redis_view \<Rightarrow> string \<Rightarrow> string \<Rightarrow> BlobCacheHost \<Rightarrow> int \<Rightarrow> bool" where
  "has_keepalive cd v locality i h d \<longleftrightarrow>
     (\<exists>s. rv_str v (MetadataHostKeepAlive locality i) = Some (s, d) \<and> cd_Unmarshal cd s = Some h)"

lemma keepalive_ages:
  "ages v v' \<Longrightarrow> has_keepalive cd v locality i h d \<Longrightarrow> rv_now v' < d \<Longrightarrow> has_keepalive cd v' locality i h d"
  "ages v v' \<Longrightarrow> has_keepalive cd v' locality i h d \<Longrightarrow> has_keepalive cd v locality i h d \<and> rv_now v' < d"
  unfolding has_keepalive_def by (blast intro: ages_alive dest: ages_back)+

definition hosts_ok :: "'r redis \<Rightarrow> codec \<Rightarrow> ('r \<Rightarrow> redis_view) \<Rightarrow> string \<Rightarrow> 'r BlobCacheMetadata \<Rightarrow> string set \<Rightarrow> 'r BlobCacheMetadata \<Rightarrow> BlobCacheHost list \<Rightarrow> bool" where
  "hosts_ok D cd vw locality m ids m' hosts \<longleftrightarrow>
     quiet (mview vw m) (mview vw m') \<and> ages (mview vw m) (mview vw m') \<and> mt_locks m' = mt_locks m \<and>
     index_minus (mview vw m) (mview vw m') locality
       (\<lambda>i. \<forall>h d. has_keepalive cd (mview vw m) locality i h d \<longrightarrow> d \<le> rv_now (mview vw m')) \<and>
     (\<forall>h \<in> set hosts. \<exists>i \<in> ids. \<exists>d. has_keepalive cd (mview vw m) locality i h d) \<and>
     (reliable D \<longrightarrow>
       (\<forall>i \<in> ids. \<forall>h d. has_keepalive cd (mview vw m) locality i h d \<longrightarrow> rv_now (mview vw m') < d \<longrightarrow> h \<in> set hosts))"

lemma hosts_ok_step:
  assumes "quiet (mview vw m) (mview vw m2)" "ages (mview vw m) (mview vw m2)" "mt_locks m2 = mt_locks m"
    and "index_minus (mview vw m) (mview vw m2) locality G"
    and "\<And>i h d. G i \<Longrightarrow> has_keepalive cd (mview vw m) locality i h d \<Longrightarrow> d \<le> rv_now (mview vw m2)"
    and ok: "hosts_ok D cd vw locality m2 ids m' hosts"
  shows "hosts_ok D cd vw locality m ids m' hosts"
proof -
  let ?v = "mview vw m" and ?v2 = "mview vw m2" and ?v' = "mview vw m'"
  have a: "ages ?v2 ?v'" "quiet ?v2 ?v'" and now: "rv_now ?v2 \<le> rv_now ?v'"
    using ok by (simp_all add: hosts_ok_def ages_def)
  have keep: "has_keepalive cd ?v2 locality i h d" if "has_keepalive cd ?v locality i h d" "rv_now ?v' < d" for i h d
    using keepalive_ages(1) [OF assms(2) that(1)] that(2) now by simp
  have index: "i \<in> rv_set ?v' (MetadataHostIndex locality)"
    if "i \<in> rv_set ?v (MetadataHostIndex locality)" "has_keepalive cd ?v locality i h d" "rv_now ?v' < d" for i h d
  proof -
    have "\<not> G i" using assms(5) [OF _ that(2)] that(3) now by force
    then have "i \<in> rv_set ?v2 (MetadataHostIndex locality)" using that(1) assms(4) by (simp add: index_minus_def)
    with keep [OF that(2,3)] that(3) ok show ?thesis by (force simp: hosts_ok_def index_minus_def)
  qed
  have "\<forall>h \<in> set hosts. \<exists>i \<in> ids. \<exists>d. has_keepalive cd ?v locality i h d"
    using ok keepalive_ages(2) [OF assms(2)] unfolding hosts_ok_def by blast
  moreover have "\<forall>i \<in> ids. \<forall>h d. has_keepalive cd ?v locality i h d \<longrightarrow> rv_now ?v' < d \<longrightarrow> h \<in> set hosts" if "reliable D"
    using ok keep that unfolding hosts_ok_def by blast
  moreover have "index_minus ?v ?v' locality (\<lambda>i. \<forall>h d. has_keepalive cd ?v locality i h d \<longrightarrow> d \<le> rv_now ?v')"
    using index unfolding index_minus_def by (meson not_le)
  moreover have "quiet ?v ?v'" "ages ?v ?v'" using assms(1,2) a by (blast intro: quiet_trans ages_trans)+
  moreover have "mt_locks m' = mt_locks m" using ok assms(3) by (simp add: hosts_ok_def)
  ultimately show ?thesis unfolding hosts_ok_def by blast
qed

lemma hosts_ok_dead:
  assumes "hosts_ok D cd vw locality m ids m' hosts"
    and "\<And>h d. reliable D \<Longrightarrow> has_keepalive cd (mview vw m) locality i h d \<Longrightarrow> d \<le> rv_now (mview vw m')"
  shows "hosts_ok D cd vw locality m (insert i ids) m' hosts"
proof -
  note ok = assms(1) [unfolded hosts_ok_def]
  have "\<forall>h \<in> set hosts. \<exists>j \<in> insert i ids. \<exists>d. has_keepalive cd (mview vw m) locality j h d" using ok by blast
  moreover have "h \<in> set hosts"
    if "reliable D" "j \<in> insert i ids" "has_keepalive cd (mview vw m) locality j h d" "rv_now (mview vw m') < d" for j h d
  proof (cases "j = i")
    case True
    then show ?thesis using assms(2) [OF that(1)] that(3,4) by force
  qed (use ok that in blast)
  ultimately show ?thesis using ok unfolding hosts_ok_def by blast
qed

lemma hosts_ok_live:
  assumes "hosts_ok D cd vw locality m ids m' hosts" "has_keepalive cd (mview vw m) locality i h d"
  shows "hosts_ok D cd vw locality m (insert i ids) m' (h # hosts)"
proof -
  note ok = assms(1) [unfolded hosts_ok_def]
  have "h' = h" if "has_keepalive cd (mview vw m) locality i h' d'" for h' d'
    using that assms(2) by (auto simp: has_keepalive_def)
  then have "h' \<in> set (h # hosts)"
    if "reliable D" "j \<in> insert i ids" "has_keepalive cd (mview vw m) locality j h' d'" "rv_now (mview vw m') < d'" for j h' d'
    using that ok by (cases "j = i") auto
  moreover have "\<forall>h \<in> set (h # hosts). \<exists>j \<in> insert i ids. \<exists>d. has_keepalive cd (mview vw m) locality j h d"
    using ok assms(2) by auto
  ultimately show ?thesis using ok unfolding hosts_ok_def by blast
qed

lemma live_hosts_law:
  assumes c: "redis_contract D vw"
  shows "live_hosts D cd (drop_host D locality) m locality ids = (m', x) \<Longrightarrow>
    \<exists>hosts. x = Ok hosts \<and> hosts_ok D cd vw locality m (set ids) m' hosts"
proof (induction ids arbitrary: m m' x)
  case Nil
  then show ?case
    using contract_refl [OF c, of "mt_rdb m"] by (auto simp: hosts_ok_def index_minus_def intro: tick_quiet tick_ages)
next
  case (Cons i ids)
  obtain r y where y: "rd_Get D (mt_rdb m) (MetadataHostKeepAlive locality i) = (r, y)" by fastforce
  note g = contract_Get [OF c y]
  let ?m1 = "upd_rdb m r"
  have t: "tick (mview vw m) (vw r)" using reads_tick [OF g] by simp
  have step1: "hosts_ok D cd vw locality m I m' hosts" if "hosts_ok D cd vw locality ?m1 I m' hosts" for I hosts
    by (rule hosts_ok_step [where ?m2.0 = ?m1 and G = "\<lambda>_. False", OF _ _ _ _ _ that])
      (use t in \<open>auto simp: index_minus_def tickD(3) intro: tick_quiet tick_ages\<close>)
  show ?case
  proof (cases y)
    case Panic
    then show ?thesis using g by (simp add: reads_def)
  next
    case (Ok s)
    obtain d where d: "rv_str (vw r) (MetadataHostKeepAlive locality i) = Some (s, d)" using g Ok by (auto simp: reads_def)
    obtain m2 z where z: "live_hosts D cd (drop_host D locality) ?m1 locality ids = (m2, z)" by fastforce
    from Cons.IH [OF z] obtain hosts where h: "z = Ok hosts" "hosts_ok D cd vw locality ?m1 (set ids) m2 hosts" by blast
    show ?thesis
    proof (cases "cd_Unmarshal cd s")
      case None
      then have "\<And>h d. \<not> has_keepalive cd (mview vw ?m1) locality i h d" using d by (auto simp: has_keepalive_def)
      then have "hosts_ok D cd vw locality ?m1 (set (i # ids)) m2 hosts" using hosts_ok_dead [OF h(2), of i] by simp
      then show ?thesis using Cons.prems y Ok z h None step1 by auto
    next
      case (Some host)
      then have "has_keepalive cd (mview vw ?m1) locality i host d" using d by (simp add: has_keepalive_def)
      from hosts_ok_live [OF h(2) this] show ?thesis using Cons.prems y Ok z h Some step1 by auto
    qed
  next
    case (Err e)
    define m2 where "m2 = (if e = RedisNil then drop_host D locality (fst (meta_RemoveHostFromIndex D ?m1 locality (bare_host i))) (bare_host i) else ?m1)"
    have eq: "live_hosts D cd (drop_host D locality) m2 locality ids = (m', x)"
      using Cons.prems y Err by (simp add: m2_def Let_def)
    from Cons.IH [OF this] obtain hosts where h: "x = Ok hosts" "hosts_ok D cd vw locality m2 (set ids) m' hosts" by blast
    have gone: "\<not> has_keepalive cd (vw r) locality i h' d" if "e = RedisNil" for h' d
      using g Err that by (auto simp: reads_def has_keepalive_def)
    have ok: "hosts_ok D cd vw locality ?m1 (set ids) m' hosts"
    proof (cases "e = RedisNil")
      case True
      obtain ma xa where a: "meta_RemoveHostFromIndex D ?m1 locality (bare_host i) = (ma, xa)" by fastforce
      obtain mb xb where b: "meta_RemoveHostFromIndex D ma locality (bare_host i) = (mb, xb)" by fastforce
      have m2: "m2 = mb" using True a b by (simp add: m2_def drop_host_def)
      note la = RemoveHost_law [OF c a] and lb = RemoveHost_law [OF c b]
      have ok': "hosts_ok D cd vw locality ma (set ids) m' hosts"
        using lb gone [OF True] la
        by (intro hosts_ok_step [where ?m2.0 = mb and G = "\<lambda>j. j = i", OF _ _ _ _ _ h(2) [unfolded m2]])
          (auto simp: bare_host_def dest: keepalive_ages(2))
      show ?thesis
        using la gone [OF True]
        by (intro hosts_ok_step [where ?m2.0 = ma and G = "\<lambda>j. j = i", OF _ _ _ _ _ ok']) (auto simp: bare_host_def)
    next
      case False
      then show ?thesis using h by (simp add: m2_def)
    qed
    have "hosts_ok D cd vw locality ?m1 (set (i # ids)) m' hosts"
    proof -
      have "e = RedisNil" if "reliable D" using that y Err unfolding reliable_def by (metis snd_conv res.distinct(1) res.inject(2))
      then show ?thesis using hosts_ok_dead [OF ok, of i] gone by auto
    qed
    then show ?thesis using h(1) step1 by blast
  qed
qed

lemma GetAvailableHosts_law:
  assumes "redis_contract D vw" "meta_GetAvailableHosts D cd (drop_host D locality) m locality = (m', x)"
  shows "quiet (mview vw m) (mview vw m') \<and> ages (mview vw m) (mview vw m') \<and> mt_locks m' = mt_locks m \<and> x \<noteq> Panic"
    and "x = Ok hosts \<or> reliable D \<Longrightarrow>
      \<exists>hosts'. hosts_ok D cd vw locality m (rv_set (mview vw m) (MetadataHostIndex locality)) m' hosts' \<and>
        x = (if hosts' = [] then Err (ErrMsg ''no available hosts'') else Ok hosts')"
proof -
  obtain r y where y: "rd_SMembers D (mt_rdb m) (MetadataHostIndex locality) = (r, y)" by fastforce
  note c = contract_SMembers [OF assms(1) y]
  have t: "tick (mview vw m) (vw r)" using reads_tick [OF c] by simp
  let ?goal = "\<exists>hosts'. hosts_ok D cd vw locality m (rv_set (mview vw m) (MetadataHostIndex locality)) m' hosts' \<and>
        x = (if hosts' = [] then Err (ErrMsg ''no available hosts'') else Ok hosts')"
  have main: ?goal if "y = Ok ids" for ids
  proof -
    obtain m2 z where z: "live_hosts D cd (drop_host D locality) (upd_rdb m r) locality ids = (m2, z)" by fastforce
    from live_hosts_law [OF assms(1) z] obtain hosts' where h: "z = Ok hosts'"
      "hosts_ok D cd vw locality (upd_rdb m r) (set ids) m2 hosts'" by blast
    have "hosts_ok D cd vw locality m (set ids) m2 hosts'"
      by (rule hosts_ok_step [where ?m2.0 = "upd_rdb m r" and G = "\<lambda>_. False", OF _ _ _ _ _ h(2)])
        (use t in \<open>auto simp: index_minus_def tickD(3) intro: tick_quiet tick_ages\<close>)
    moreover have "set ids = rv_set (mview vw m) (MetadataHostIndex locality)"
      using c that tickD(3) [OF t] by (simp add: reads_def)
    ultimately show ?thesis using assms(2) y that z h by (auto simp: meta_GetAvailableHosts_def)
  qed
  have other: "m' = upd_rdb m r \<and> x = Err e" if "y = Err e" for e
    using assms(2) y that by (simp add: meta_GetAvailableHosts_def)
  have "y \<noteq> Panic" using c by (simp add: reads_def)
  then show "quiet (mview vw m) (mview vw m') \<and> ages (mview vw m) (mview vw m') \<and> mt_locks m' = mt_locks m \<and> x \<noteq> Panic"
    using main other tick_quiet [OF t] tick_ages [OF t]
    by (cases y) (force simp: hosts_ok_def split: if_splits, auto)
  show ?goal if "x = Ok hosts \<or> reliable D"
  proof -
    have "y \<noteq> Err e" for e
    proof
      assume "y = Err e"
      moreover from this have "\<not> reliable D" using y unfolding reliable_def by (metis snd_conv res.distinct(1))
      ultimately show False using other that by auto
    qed
    then show ?thesis using main \<open>y \<noteq> Panic\<close> by (cases y) auto
  qed
qed

definition published :: "codec \<Rightarrow> redis_view \<Rightarrow> string \<Rightarrow> BlobCacheHost \<Rightarrow> int \<Rightarrow> bool" where
  "published cd v locality host d \<longleftrightarrow>
     HostId host \<in> rv_set v (MetadataHostIndex locality) \<and> has_keepalive cd v locality (HostId host) host d"

lemma AddHost_law:
  assumes "redis_contract D vw" "meta_AddHostToIndex D m locality host = (m', x)"
  shows "quiet (mview vw m) (mview vw m') \<and> ages (mview vw m) (mview vw m') \<and> mt_locks m' = mt_locks m \<and> x \<noteq> Panic \<and>
     (x = Ok () \<longrightarrow> HostId host \<in> rv_set (mview vw m') (MetadataHostIndex locality))"
proof -
  from assms(2) obtain r where r: "rd_SAdd D (mt_rdb m) (MetadataHostIndex locality) (HostId host) = (r, x)"
    and m': "m' = upd_rdb m r"
    by (auto simp: meta_AddHostToIndex_def split: prod.splits)
  note p = contract_SAdd [OF assms(1) r]
  have "rv_set (vw_SAdd k y v) = (rv_set v)(k := insert y (rv_set v k))" for k y v by (simp add: vw_SAdd_def)
  from performs_abs [OF p, of rv_set, OF tickD(3) this] show ?thesis
    using performs_quiet [OF p] performs_ages [OF p] performs_no_panic [OF p] by (auto simp: m' vw_SAdd_def)
qed

definition keepAliveNs :: int where "keepAliveNs = 60000000000"

lemma SetHostKeepAlive_law:
  assumes "redis_contract D vw" "meta_SetHostKeepAlive D cd m locality host = (m', x)"
  shows "rv_set (mview vw m') = rv_set (mview vw m) \<and> mt_locks m' = mt_locks m \<and> x \<noteq> Panic \<and> quiet (mview vw m) (mview vw m')"
    and "x = Ok () \<Longrightarrow> \<exists>s t. cd_Marshal cd host = Some s \<and> rv_now (mview vw m) \<le> t \<and> t \<le> rv_now (mview vw m') \<and>
       rv_str (mview vw m') (MetadataHostKeepAlive locality (HostId host)) = alive (rv_now (mview vw m')) (Some (s, t + keepAliveNs))"
proof -
  have ns: "secs defaultHostKeepAliveTimeoutS = keepAliveNs"
    by (simp add: secs_def defaultHostKeepAliveTimeoutS_def keepAliveNs_def wrap64_def)
  let ?key = "MetadataHostKeepAlive locality (HostId host)"
  have *: "(rv_set (mview vw m') = rv_set (mview vw m) \<and> mt_locks m' = mt_locks m \<and> x \<noteq> Panic \<and> quiet (mview vw m) (mview vw m')) \<and>
     (x = Ok () \<longrightarrow> (\<exists>s t. cd_Marshal cd host = Some s \<and> rv_now (mview vw m) \<le> t \<and> t \<le> rv_now (mview vw m') \<and>
       rv_str (mview vw m') ?key = alive (rv_now (mview vw m')) (Some (s, t + keepAliveNs))))"
  proof (cases "cd_Marshal cd host")
    case None
    then show ?thesis using assms(2) tick_quiet [OF contract_refl [OF assms(1)]] by (auto simp: meta_SetHostKeepAlive_def)
  next
    case (Some s)
    then obtain r where r: "rd_Set D (mt_rdb m) ?key s keepAliveNs = (r, x)" and m': "m' = upd_rdb m r"
      using assms(2) by (auto simp: meta_SetHostKeepAlive_def ns split: prod.splits)
    note p = contract_Set [OF assms(1) r]
    have q: "quiet (mview vw m) (vw r)" using performs_quiet [OF p] by (simp add: vw_Set_def)
    have st: "rv_set (vw r) = rv_set (mview vw m)"
      by (rule performs_same [OF p, of rv_set]) (simp_all add: tickD vw_Set_def)
    have "\<exists>t. rv_now (mview vw m) \<le> t \<and> t \<le> rv_now (vw r) \<and> rv_str (vw r) ?key = alive (rv_now (vw r)) (Some (s, t + keepAliveNs))"
      if "x = Ok ()"
    proof -
      from p that obtain v1 where v1: "tick (mview vw m) v1" "tick (vw_Set ?key s keepAliveNs v1) (vw r)"
        by (auto simp: performs_def)
      show ?thesis
        using tickD(1) [OF v1(1)] tickD(1) [OF v1(2)] tickD(5) [OF v1(2), of ?key]
        by (intro exI [of _ "rv_now v1"]) (simp add: vw_Set_def)
    qed
    then show ?thesis using q st performs_no_panic [OF p] Some by (simp add: m')
  qed
  show "rv_set (mview vw m') = rv_set (mview vw m) \<and> mt_locks m' = mt_locks m \<and> x \<noteq> Panic \<and> quiet (mview vw m) (mview vw m')"
    using * by (rule conjunct1)
  show "\<exists>s t. cd_Marshal cd host = Some s \<and> rv_now (mview vw m) \<le> t \<and> t \<le> rv_now (mview vw m') \<and>
       rv_str (mview vw m') ?key = alive (rv_now (mview vw m')) (Some (s, t + keepAliveNs))" if "x = Ok ()"
    using * that by blast
qed

end
