(* ===== verification/Metadata_Locks.thy ===== *)
theory Metadata_Locks
  imports Metadata_Laws
begin

text \<open>
  Several nodes that share one Redis server, each with its own table of the locks it took (\<^verbatim>\<open>RedisLock.locks\<close> of
  \<^verbatim>\<open>src/pkg/redis.go\<close>), and the properties of \<^verbatim>\<open>src/pkg/metadata.go\<close> over them, with a concrete Redis as their witness.
\<close>

subsection \<open>The system of nodes\<close>

inductive meta_op :: "'r redis \<Rightarrow> codec \<Rightarrow> 'r BlobCacheMetadata \<Rightarrow> 'r BlobCacheMetadata \<Rightarrow> bool" for D cd where
  "meta_SetClientLock D m i h = (m', x1) \<Longrightarrow> meta_op D cd m m'"
| "meta_RemoveClientLock D m i h = (m', x1) \<Longrightarrow> meta_op D cd m m'"
| "meta_SetStoreFromContentLock D m l p = (m', x1) \<Longrightarrow> meta_op D cd m m'"
| "meta_RefreshStoreFromContentLock D m l p = (m', x1) \<Longrightarrow> meta_op D cd m m'"
| "meta_RemoveStoreFromContentLock D m l p = (m', x1) \<Longrightarrow> meta_op D cd m m'"
| "meta_GetFsNode D cd m i = (m', x2) \<Longrightarrow> meta_op D cd m m'"
| "meta_SetFsNode D cd m i md = (m', x1) \<Longrightarrow> meta_op D cd m m'"
| "meta_GetFsNodeChildren D cd m i = (m', x3) \<Longrightarrow> meta_op D cd m m'"
| "meta_AddFsNodeChild D m p i = (m', x1) \<Longrightarrow> meta_op D cd m m'"
| "meta_RemoveFsNode D m i = (m', x1) \<Longrightarrow> meta_op D cd m m'"
| "meta_RemoveFsNodeChild D m p i = (m', x1) \<Longrightarrow> meta_op D cd m m'"
| "meta_AddHostToIndex D m l host = (m', x1) \<Longrightarrow> meta_op D cd m m'"
| "meta_RemoveHostFromIndex D m l host = (m', x1) \<Longrightarrow> meta_op D cd m m'"
| "meta_SetHostKeepAlive D cd m l host = (m', x1) \<Longrightarrow> meta_op D cd m m'"
| "meta_GetHostIndex D m l = (m', x4) \<Longrightarrow> meta_op D cd m m'"
| "meta_GetAvailableHosts D cd (drop_host D l) m l = (m', x4) \<Longrightarrow> meta_op D cd m m'"

type_synonym 'r cluster = "'r \<times> (nat \<Rightarrow> string \<Rightarrow> string option)"

abbreviation node_of :: "'r cluster \<Rightarrow> nat \<Rightarrow> 'r BlobCacheMetadata" where
  "node_of st n \<equiv> \<lparr>mt_rdb = fst st, mt_locks = snd st n\<rparr>"

abbreviation put_node :: "'r cluster \<Rightarrow> nat \<Rightarrow> 'r BlobCacheMetadata \<Rightarrow> 'r cluster" where
  "put_node st n m \<equiv> (mt_rdb m, (snd st)(n := mt_locks m))"

inductive cluster_run :: "'r redis \<Rightarrow> codec \<Rightarrow> 'r cluster \<Rightarrow> bool" for D cd where
  start: "cluster_run D cd (r, \<lambda>_. Map.empty)"
| step: "cluster_run D cd st \<Longrightarrow> meta_op D cd (node_of st n) m' \<Longrightarrow> cluster_run D cd (put_node st n m')"

definition holds_lock :: "('r \<Rightarrow> redis_view) \<Rightarrow> 'r cluster \<Rightarrow> nat \<Rightarrow> string \<Rightarrow> int \<Rightarrow> bool" where
  "holds_lock vw st n k d \<longleftrightarrow> (\<exists>tok. snd st n k = Some tok \<and> rv_lock (vw (fst st)) k = Some (tok, d))"

definition lock_inv :: "('r \<Rightarrow> redis_view) \<Rightarrow> 'r cluster \<Rightarrow> bool" where
  "lock_inv vw st \<longleftrightarrow>
     (\<forall>n k tok. snd st n k = Some tok \<longrightarrow> tok \<in> rv_tokens (vw (fst st))) \<and>
     (\<forall>n n' k k' tok. snd st n k = Some tok \<longrightarrow> snd st n' k' = Some tok \<longrightarrow> n = n' \<and> k = k')"

subsection \<open>What an operation does to the locks\<close>

text \<open>
  The shapes an operation has for the locks: it leaves the table and the live locks alone, it stores one new token, or it works
  on one key under the token the node has for it.
\<close>

inductive lock_effect :: "('r \<Rightarrow> redis_view) \<Rightarrow> 'r BlobCacheMetadata \<Rightarrow> 'r BlobCacheMetadata \<Rightarrow> bool" for vw m m' where
  le_quiet: "quiet (mview vw m) (mview vw m') \<Longrightarrow> mt_locks m' = mt_locks m \<Longrightarrow> lock_effect vw m m'"
| le_obtain: "tick (mview vw m) v1 \<Longrightarrow> rv_lock v1 k = None \<Longrightarrow> tok \<notin> rv_tokens v1 \<Longrightarrow> tick (vw_Obtain k tok ttl v1) (mview vw m') \<Longrightarrow>
    mt_locks m' = (mt_locks m)(k \<mapsto> tok) \<or> mt_locks m' = mt_locks m \<Longrightarrow> lock_effect vw m m'"
| le_release: "mt_locks m k = Some tok \<Longrightarrow> performs (mview vw m) (vw_Release k tok) (x :: unit res) (mview vw m') \<Longrightarrow>
    mt_locks m' = (mt_locks m)(k := None) \<Longrightarrow> lock_effect vw m m'"
| le_refresh: "mt_locks m k = Some tok \<Longrightarrow> performs (mview vw m) (vw_Refresh k tok ttl) (x :: unit res) (mview vw m') \<Longrightarrow>
    mt_locks m' = mt_locks m \<Longrightarrow> lock_effect vw m m'"

lemma Acquire_effect:
  assumes "redis_contract D vw" "lock_Acquire D m k ttl n = (m', x)"
  shows "lock_effect vw m m' \<and> x \<noteq> Panic"
    and "x = Ok () \<Longrightarrow> \<exists>v1. tick (mview vw m) v1 \<and> rv_lock v1 k = None \<and> rv_now v1 \<le> rv_now (mview vw m')"
proof -
  let ?n = "if n > 0 then n else 0"
  obtain r y where y: "rl_Obtain D (mt_rdb m) k (secs ttl) ?n = (r, y)" by fastforce
  have m': "mt_rdb m' = r" using assms(2) y by (auto simp: lock_Acquire_def split: res.splits)
  have e: "mt_locks m' = mt_locks m \<and> x = Err e" if "y = Err e" for e using that assms(2) y by (auto simp: lock_Acquire_def)
  have o: "mt_locks m' = (mt_locks m)(k \<mapsto> tok) \<and> x = Ok ()" if "y = Ok tok" for tok
    using that assms(2) y by (auto simp: lock_Acquire_def)
  have "(lock_effect vw m m' \<and> x \<noteq> Panic) \<and> (x = Ok () \<longrightarrow> (\<exists>v1. tick (mview vw m) v1 \<and> rv_lock v1 k = None \<and> rv_now v1 \<le> rv_now (mview vw m')))"
    using contract_Obtain [OF assms(1) y]
  proof cases
    case (1 v1)
    then have "quiet (mview vw m) (mview vw m')" using m' tick_trans tick_quiet by blast
    then show ?thesis using 1(3) e by (auto intro: le_quiet)
  next
    case (2 v1 tok)
    from 2(4) have "mt_locks m' = (mt_locks m)(k \<mapsto> tok) \<or> mt_locks m' = mt_locks m" and "x \<noteq> Panic" using e o by auto
    moreover have "rv_now v1 \<le> rv_now (mview vw m')" using tickD(1) [OF 2(5)] m' by (simp add: vw_Obtain_def)
    ultimately show ?thesis using le_obtain [where vw = vw and m = m and m' = m' and k = k and tok = tok, OF 2(1-3)] 2 m' by blast
  qed
  then show "lock_effect vw m m' \<and> x \<noteq> Panic" and "x = Ok () \<Longrightarrow> \<exists>v1. tick (mview vw m) v1 \<and> rv_lock v1 k = None \<and> rv_now v1 \<le> rv_now (mview vw m')"
    by blast+
qed

lemma Release_effect:
  assumes "redis_contract D vw" "lock_Release D m k = (m', x)"
  shows "lock_effect vw m m'"
proof (cases "mt_locks m k")
  case None
  then show ?thesis
    using assms(2) tick_quiet [OF contract_refl [OF assms(1)]] by (auto simp: lock_Release_def intro!: le_quiet)
next
  case (Some tok)
  then obtain r y where "rl_Release D (mt_rdb m) k tok = (r, y)" "m' = m\<lparr>mt_rdb := r, mt_locks := (mt_locks m)(k := None)\<rparr>"
    using assms(2) by (auto simp: lock_Release_def split: prod.splits)
  then show ?thesis using contract_Release [OF assms(1)] Some by (intro le_release) auto
qed

lemma Refresh_effect:
  assumes "redis_contract D vw" "lock_Refresh D m k ttl n = (m', x)"
  shows "lock_effect vw m m'"
proof (cases "mt_locks m k")
  case None
  then show ?thesis
    using assms(2) tick_quiet [OF contract_refl [OF assms(1)]] by (auto simp: lock_Refresh_def intro!: le_quiet)
next
  case (Some tok)
  then obtain r y where "rl_Refresh D (mt_rdb m) k tok (secs ttl) n = (r, y)" "m' = m\<lparr>mt_rdb := r\<rparr>"
    using assms(2) by (auto simp: lock_Refresh_def split: prod.splits)
  then show ?thesis using contract_Refresh [OF assms(1)] Some by (intro le_refresh) auto
qed

lemma GetHostIndex_quiet:
  assumes "redis_contract D vw" "meta_GetHostIndex D m locality = (m', x)"
  shows "tick (mview vw m) (mview vw m') \<and> mt_locks m' = mt_locks m"
proof -
  obtain r y where y: "rd_SMembers D (mt_rdb m) (MetadataHostIndex locality) = (r, y)" by fastforce
  have "m' = upd_rdb m r" using assms(2) y by (auto simp: meta_GetHostIndex_def split: res.splits)
  then show ?thesis using reads_tick [OF contract_SMembers [OF assms(1) y]] by simp
qed

lemma Del_quiet:
  assumes "redis_contract D vw" "meta_RemoveFsNode D m i = (m', x)"
  shows "quiet (mview vw m) (mview vw m') \<and> mt_locks m' = mt_locks m"
proof -
  from assms(2) obtain r where r: "rd_Del D (mt_rdb m) (MetadataFsNode i) = (r, x)" and m': "m' = upd_rdb m r"
    by (auto simp: meta_RemoveFsNode_def split: prod.splits)
  show ?thesis using performs_quiet [OF contract_Del [OF assms(1) r]] by (simp add: m' vw_Del_def)
qed

lemma meta_op_effect:
  assumes "redis_contract D vw" "meta_op D cd m m'"
  shows "lock_effect vw m m'"
  using assms(2)
proof cases
  case 1 then show ?thesis using Acquire_effect(1) [OF assms(1)] by (simp add: meta_SetClientLock_def)
next
  case 2 then show ?thesis using Release_effect [OF assms(1)] by (simp add: meta_RemoveClientLock_def)
next
  case 3 then show ?thesis using Acquire_effect(1) [OF assms(1)] by (simp add: meta_SetStoreFromContentLock_def)
next
  case 4 then show ?thesis using Refresh_effect [OF assms(1)] by (simp add: meta_RefreshStoreFromContentLock_def)
next
  case 5 then show ?thesis using Release_effect [OF assms(1)] by (simp add: meta_RemoveStoreFromContentLock_def)
next
  case 6 then show ?thesis using GetFsNode_law(1,2) [OF assms(1)] by (blast intro: le_quiet tick_quiet)
next
  case 7 then show ?thesis using SetFsNode_law [OF assms(1)] by (blast intro: le_quiet)
next
  case 8 then show ?thesis using GetFsNodeChildren_law [OF assms(1)] by (blast intro: le_quiet tick_quiet)
next
  case 9 then show ?thesis using AddFsNodeChild_law [OF assms(1)] by (blast intro: le_quiet)
next
  case 10 then show ?thesis using Del_quiet [OF assms(1)] by (blast intro: le_quiet)
next
  case 11 then show ?thesis using RemoveFsNodeChild_law [OF assms(1)] by (blast intro: le_quiet)
next
  case 12 then show ?thesis using AddHost_law [OF assms(1)] by (blast intro: le_quiet)
next
  case 13 then show ?thesis using RemoveHost_law [OF assms(1)] by (blast intro: le_quiet)
next
  case 14 then show ?thesis using SetHostKeepAlive_law(1) [OF assms(1)] by (blast intro: le_quiet)
next
  case 15 then show ?thesis using GetHostIndex_quiet [OF assms(1)] by (blast intro: le_quiet tick_quiet)
next
  case 16 then show ?thesis using GetAvailableHosts_law(1) [OF assms(1)] by (blast intro: le_quiet)
qed

subsection \<open>One live holder\<close>

lemma alive_None [simp]: "alive t None = None"
  by (simp add: alive_def)

lemma alive_eq: "alive t x = Some (v, d) \<longleftrightarrow> x = Some (v, d) \<and> t < d"
  by (auto simp: alive_def split: option.splits if_splits)

lemma effect_inv:
  assumes "lock_inv vw st" "lock_effect vw (node_of st n) m'"
  shows "lock_inv vw (put_node st n m')"
  using assms(2)
proof cases
  case le_quiet
  then show ?thesis using assms(1) by (auto simp: lock_inv_def quiet_def)
next
  case (le_obtain v1 k tok ttl)
  have tk: "rv_tokens (mview vw m') = insert tok (rv_tokens (vw (fst st)))" "tok \<notin> rv_tokens (vw (fst st))"
    using le_obtain tickD(4) [OF le_obtain(1)] tickD(4) [OF le_obtain(4)] by (auto simp: vw_Obtain_def)
  then have fresh: "snd st a b \<noteq> Some tok" for a b using assms(1) by (auto simp: lock_inv_def)
  have new: "snd st a b = Some t \<or> a = n \<and> b = k \<and> t = tok" if "((snd st)(n := mt_locks m')) a b = Some t" for a b t
    using that le_obtain(5) by (auto split: if_splits)
  have "t \<in> rv_tokens (mview vw m')" if "((snd st)(n := mt_locks m')) a b = Some t" for a b t
    using new [OF that] tk(1) assms(1) by (auto simp: lock_inv_def)
  moreover have "a = a' \<and> b = b'"
    if "((snd st)(n := mt_locks m')) a b = Some t" "((snd st)(n := mt_locks m')) a' b' = Some t" for a a' b b' t
    using new [OF that(1)] new [OF that(2)] fresh assms(1) unfolding lock_inv_def by metis
  ultimately show ?thesis unfolding lock_inv_def fst_conv snd_conv by blast
next
  case (le_release k tok x)
  have "rv_tokens (mview vw m') = rv_tokens (vw (fst st))"
    using performs_same [OF le_release(2), of rv_tokens] by (simp add: tickD vw_Release_def)
  then show ?thesis using assms(1) le_release(3) unfolding lock_inv_def by (auto split: if_splits)
next
  case (le_refresh k tok ttl x)
  have "rv_tokens (mview vw m') = rv_tokens (vw (fst st))"
    using performs_same [OF le_refresh(2), of rv_tokens] by (simp add: tickD vw_Refresh_def)
  then show ?thesis using assms(1) le_refresh(3) unfolding lock_inv_def by (auto split: if_splits)
qed

lemma run_inv:
  assumes "redis_contract D vw" "cluster_run D cd st"
  shows "lock_inv vw st"
  using assms(2)
proof induction
  case (start r)
  then show ?case by (simp add: lock_inv_def)
next
  case (step st n m')
  then show ?case using effect_inv meta_op_effect [OF assms(1)] by blast
qed

lemma lock_survives:
  assumes "performs v f x v'" "rv_lock v k = Some (tok, d)" "rv_now v' < d"
    and "\<And>u. rv_lock u k = Some (tok, d) \<Longrightarrow> rv_lock (f u) k = Some (tok, d)" "\<And>u. rv_now (f u) = rv_now u"
  shows "rv_lock v' k = Some (tok, d)"
proof -
  obtain v1 where v1: "tick v v1" "tick (f v1) v' \<or> tick v1 v'" using assms(1) by (auto simp: performs_def)
  then have "rv_now v1 \<le> rv_now v'" using tickD(1) [of "f v1" v'] tickD(1) [of v1 v'] assms(5) by auto
  then have "rv_lock v1 k = Some (tok, d)" using tickD(6) [OF v1(1), of k] assms(2,3) by (simp add: alive_eq)
  then show ?thesis
    using v1(2) tickD(6) [of "f v1" v' k] tickD(6) [of v1 v' k] assms(3,4) by (auto simp: alive_eq)
qed

lemma effect_keeps:
  assumes "lock_inv vw st" "lock_effect vw (node_of st j) m'" "holds_lock vw st i k d" "i \<noteq> j" "rv_now (mview vw m') < d"
  shows "holds_lock vw (put_node st j m') i k d"
proof -
  obtain tok where tok: "snd st i k = Some tok" "rv_lock (vw (fst st)) k = Some (tok, d)"
    using assms(3) by (auto simp: holds_lock_def)
  have other: "tok' \<noteq> tok" if "snd st j k' = Some tok'" for k' tok'
    using that tok(1) assms(1,4) by (auto simp: lock_inv_def)
  have "rv_lock (mview vw m') k = Some (tok, d)"
    using assms(2)
  proof cases
    case le_quiet
    then show ?thesis using tok(2) assms(5) by (simp add: quiet_def alive_eq)
  next
    case (le_obtain v1 k' tok' ttl)
    have "rv_now v1 \<le> rv_now (mview vw m')" using tickD(1) [OF le_obtain(4)] by (simp add: vw_Obtain_def)
    then have "rv_lock v1 k = Some (tok, d)" using tickD(6) [OF le_obtain(1), of k] tok(2) assms(5) by (simp add: alive_eq)
    then show ?thesis using tickD(6) [OF le_obtain(4), of k] le_obtain(2) assms(5) by (auto simp: vw_Obtain_def alive_eq)
  next
    case (le_release k' tok' x)
    then have "tok' \<noteq> tok" by (intro other) simp
    then show ?thesis
      using tok(2) assms(5) by (intro lock_survives [OF le_release(2)]) (auto simp: vw_Release_def)
  next
    case (le_refresh k' tok' ttl x)
    then have "tok' \<noteq> tok" by (intro other) simp
    then show ?thesis
      using tok(2) assms(5) by (intro lock_survives [OF le_refresh(2)]) (auto simp: vw_Refresh_def)
  qed
  then show ?thesis using tok(1) assms(4) by (simp add: holds_lock_def)
qed

lemma one_holder: "lock_inv vw st \<Longrightarrow> holds_lock vw st i k d \<Longrightarrow> holds_lock vw st j k d' \<Longrightarrow> i = j"
  by (auto simp: lock_inv_def holds_lock_def)

subsection \<open>A concrete Redis\<close>

text \<open>A Redis whose clock stands still, which numbers the tokens it issues.\<close>

record ref_state =
  rs_hash :: "string \<Rightarrow> (string \<times> string) list"
  rs_set :: "string \<Rightarrow> string list"
  rs_str :: "string \<Rightarrow> (string \<times> int) option"
  rs_lock :: "string \<Rightarrow> (string \<times> int) option"
  rs_issued :: nat

definition ref_empty :: ref_state where
  "ref_empty = \<lparr>rs_hash = (\<lambda>_. []), rs_set = (\<lambda>_. []), rs_str = Map.empty, rs_lock = Map.empty, rs_issued = 0\<rparr>"

definition ref_view :: "ref_state \<Rightarrow> redis_view" where
  "ref_view r = \<lparr>rv_now = 0, rv_hash = (\<lambda>k. map_of (rs_hash r k)), rv_set = (\<lambda>k. set (rs_set r k)),
     rv_str = (\<lambda>k. alive 0 (rs_str r k)), rv_lock = (\<lambda>k. alive 0 (rs_lock r k)),
     rv_tokens = show_nat ` {..<rs_issued r}\<rparr>"

definition ref_redis :: "ref_state redis" where
  "ref_redis = \<lparr>
     rd_HGetAll = (\<lambda>r k. (r, Ok (rs_hash r k))),
     rd_HSet = (\<lambda>r k ps. (r\<lparr>rs_hash := (rs_hash r)(k := rev ps @ rs_hash r k)\<rparr>, Ok ())),
     rd_SMembers = (\<lambda>r k. (r, Ok (rs_set r k))),
     rd_SAdd = (\<lambda>r k x. (r\<lparr>rs_set := (rs_set r)(k := List.insert x (rs_set r k))\<rparr>, Ok ())),
     rd_SRem = (\<lambda>r k x. (r\<lparr>rs_set := (rs_set r)(k := removeAll x (rs_set r k))\<rparr>, Ok ())),
     rd_Get = (\<lambda>r k. (r, case alive 0 (rs_str r k) of Some (s, _) \<Rightarrow> Ok s | None \<Rightarrow> Err RedisNil)),
     rd_Set = (\<lambda>r k s ttl. (r\<lparr>rs_str := (rs_str r)(k \<mapsto> (s, ttl))\<rparr>, Ok ())),
     rd_Del = (\<lambda>r k. (r\<lparr>rs_hash := (rs_hash r)(k := []), rs_set := (rs_set r)(k := []), rs_str := (rs_str r)(k := None)\<rparr>, Ok ())),
     rl_Obtain = (\<lambda>r k ttl n.
       case alive 0 (rs_lock r k) of
         Some _ \<Rightarrow> (r, Err ErrNotObtained)
       | None \<Rightarrow> (r\<lparr>rs_lock := (rs_lock r)(k \<mapsto> (show_nat (rs_issued r), ttl)), rs_issued := rs_issued r + 1\<rparr>, Ok (show_nat (rs_issued r)))),
     rl_Release = (\<lambda>r k tok.
       case alive 0 (rs_lock r k) of
         Some (t, _) \<Rightarrow> if t = tok then (r\<lparr>rs_lock := (rs_lock r)(k := None)\<rparr>, Ok ()) else (r, Err ErrLockNotHeld)
       | None \<Rightarrow> (r, Err ErrLockNotHeld)),
     rl_Refresh = (\<lambda>r k tok ttl n.
       case alive 0 (rs_lock r k) of
         Some (t, _) \<Rightarrow> if t = tok then (r\<lparr>rs_lock := (rs_lock r)(k \<mapsto> (tok, ttl))\<rparr>, Ok ()) else (r, Err ErrNotObtained)
       | None \<Rightarrow> (r, Err ErrNotObtained))\<rparr>"

lemma expire_ref: "expire 0 (ref_view r) = ref_view r"
  by (simp add: expire_def ref_view_def alive_alive)

lemma tick_ref: "rv_now v = 0 \<Longrightarrow> expire 0 v = ref_view r \<Longrightarrow> tick v (ref_view r)"
  by (simp add: tick_def ref_view_def)

lemma tick_ref_refl: "tick (ref_view r) (ref_view r)"
  by (rule tick_ref) (simp add: ref_view_def, rule expire_ref)

lemma performs_ref:
  "x \<noteq> Panic \<Longrightarrow> rv_now (f (ref_view r)) = 0 \<Longrightarrow> expire 0 (f (ref_view r)) = ref_view r' \<Longrightarrow> performs (ref_view r) f x (ref_view r')"
  unfolding performs_def using tick_ref_refl [of r] tick_ref [of "f (ref_view r)" r'] by blast

lemma ref_obtain:
  "\<exists>v1 tok. tick (ref_view r) v1 \<and>
     (tick v1 (ref_view (fst (rl_Obtain ref_redis r k ttl n))) \<and> (\<exists>e. snd (rl_Obtain ref_redis r k ttl n) = Err e) \<or>
      rv_lock v1 k = None \<and> tok \<notin> rv_tokens v1 \<and> snd (rl_Obtain ref_redis r k ttl n) \<in> {Ok tok} \<union> range Err \<and>
      tick (vw_Obtain k tok ttl v1) (ref_view (fst (rl_Obtain ref_redis r k ttl n))))"
proof (cases "alive 0 (rs_lock r k)")
  case (Some z)
  then show ?thesis using tick_ref_refl [of r] by (intro exI [of _ "ref_view r"]) (auto simp: ref_redis_def)
next
  case None
  let ?r' = "fst (rl_Obtain ref_redis r k ttl n)" and ?tok = "show_nat (rs_issued r)"
  have inj: "inj show_nat" by (metis injI option.inject parse_show_nat)
  have "tick (vw_Obtain k ?tok ttl (ref_view r)) (ref_view ?r')"
    using None by (intro tick_ref) (auto simp: ref_redis_def ref_view_def vw_Obtain_def expire_def lessThan_Suc alive_alive fun_eq_iff)
  moreover have "?tok \<notin> rv_tokens (ref_view r)" using inj by (auto simp: ref_view_def dest: injD)
  ultimately show ?thesis
    using None tick_ref_refl [of r] by (intro exI [of _ "ref_view r"] exI [of _ ?tok]) (simp add: ref_redis_def ref_view_def)
qed

lemma ref_redis_contract: "redis_contract ref_redis ref_view"
  unfolding redis_contract_def
proof (intro conjI allI ref_obtain tick_ref_refl)
  fix r k ps e s x ttl n tok
  show "reads ref_view r (rd_HGetAll ref_redis r k) (\<lambda>v x. (\<forall>ps. x = Ok ps \<longrightarrow> map_of ps = rv_hash v k) \<and> (\<forall>e. x = Err e \<longrightarrow> redis_err e))"
    "reads ref_view r (rd_SMembers ref_redis r k) (\<lambda>v x. \<forall>xs. x = Ok xs \<longrightarrow> set xs = rv_set v k)"
    using tick_ref_refl by (simp_all add: reads_def ref_redis_def ref_view_def)
  show "reads ref_view r (rd_Get ref_redis r k)
      (\<lambda>v x. (\<forall>s. x = Ok s \<longrightarrow> map_option fst (rv_str v k) = Some s) \<and> (x = Err RedisNil \<longrightarrow> rv_str v k = None))"
    using tick_ref_refl by (auto simp: reads_def ref_redis_def ref_view_def split: option.splits)
  show "performs (ref_view r) (vw_HSet k ps) (snd (rd_HSet ref_redis r k ps)) (ref_view (fst (rd_HSet ref_redis r k ps)))"
    by (rule performs_ref) (auto simp: ref_redis_def ref_view_def vw_HSet_def expire_def alive_alive fun_eq_iff)
  show "performs (ref_view r) (vw_SAdd k x) (snd (rd_SAdd ref_redis r k x)) (ref_view (fst (rd_SAdd ref_redis r k x)))"
    by (rule performs_ref) (auto simp: ref_redis_def ref_view_def vw_SAdd_def expire_def alive_alive fun_eq_iff)
  show "performs (ref_view r) (vw_SRem k x) (snd (rd_SRem ref_redis r k x)) (ref_view (fst (rd_SRem ref_redis r k x)))"
    by (rule performs_ref) (auto simp: ref_redis_def ref_view_def vw_SRem_def expire_def alive_alive fun_eq_iff)
  show "performs (ref_view r) (vw_Set k x ttl) (snd (rd_Set ref_redis r k x ttl)) (ref_view (fst (rd_Set ref_redis r k x ttl)))"
    by (rule performs_ref) (auto simp: ref_redis_def ref_view_def vw_Set_def expire_def alive_alive fun_eq_iff)
  show "performs (ref_view r) (vw_Del k) (snd (rd_Del ref_redis r k)) (ref_view (fst (rd_Del ref_redis r k)))"
    by (rule performs_ref) (auto simp: ref_redis_def ref_view_def vw_Del_def expire_def alive_alive fun_eq_iff)
  show "snd (rl_Obtain ref_redis r k ttl n) \<noteq> Panic" by (auto simp: ref_redis_def split: option.splits)
  show "performs (ref_view r) (vw_Release k tok) (snd (rl_Release ref_redis r k tok)) (ref_view (fst (rl_Release ref_redis r k tok)))"
    by (rule performs_ref)
      (auto simp: ref_redis_def ref_view_def vw_Release_def expire_def alive_alive fun_eq_iff split: option.splits)
  show "performs (ref_view r) (vw_Refresh k tok ttl) (snd (rl_Refresh ref_redis r k tok ttl n)) (ref_view (fst (rl_Refresh ref_redis r k tok ttl n)))"
    by (rule performs_ref)
      (auto simp: ref_redis_def ref_view_def vw_Refresh_def expire_def alive_alive fun_eq_iff split: option.splits)
qed

text \<open>
  C3: Mutual exclusion across nodes that share a Redis server. While a lock has not reached its deadline, nothing another node does
  takes it away from the node that obtained it, not even releasing or refreshing a lock on the same key that it lost, and no
  other node comes to hold it.
\<close>

theorem lock_exclusive:
  assumes "redis_contract D vw" "cluster_run D cd st" "holds_lock vw st i k d"
    and "meta_op D cd (node_of st j) m'" "i \<noteq> j" "rv_now (mview vw m') < d"
  shows "holds_lock vw (put_node st j m') i k d \<and> (\<forall>d'. \<not> holds_lock vw (put_node st j m') j k d')"
proof -
  note inv = run_inv [OF assms(1,2)] and eff = meta_op_effect [OF assms(1,4)]
  have h: "holds_lock vw (put_node st j m') i k d" using effect_keeps [OF inv eff assms(3,5,6)] .
  show ?thesis using h one_holder [OF effect_inv [OF inv eff] h] assms(5) by blast
qed

definition ref_codec :: codec where
  "ref_codec = \<lparr>cd_num = no_floats, cd_Marshal = (\<lambda>h. Some (HostId h)), cd_Unmarshal = (\<lambda>s. Some (bare_host s))\<rparr>"

definition ref_locked :: "ref_state BlobCacheMetadata" where
  "ref_locked = fst (meta_SetStoreFromContentLock ref_redis \<lparr>mt_rdb = ref_empty, mt_locks = Map.empty\<rparr> ''us'' ''/models/a'')"

abbreviation ref_cluster :: "ref_state cluster" where
  "ref_cluster \<equiv> put_node (ref_empty, \<lambda>_. Map.empty) 0 ref_locked"

lemma ref_locked_simps:
  "ref_locked = \<lparr>mt_rdb = ref_empty\<lparr>rs_lock := [MetadataStoreFromContentLock ''us'' ''/models/a'' \<mapsto> (show_nat 0, 5000000000)], rs_issued := 1\<rparr>,
     mt_locks = [MetadataStoreFromContentLock ''us'' ''/models/a'' \<mapsto> show_nat 0]\<rparr>"
  by (simp add: ref_locked_def meta_SetStoreFromContentLock_def lock_Acquire_def ref_redis_def ref_empty_def
      storeFromContentLockTtlS_def secs_def wrap64_def)

lemma ref_cluster_run: "cluster_run ref_redis ref_codec ref_cluster"
proof (rule cluster_run.step [OF cluster_run.start])
  show "meta_op ref_redis ref_codec (node_of (ref_empty, \<lambda>_. Map.empty) 0) ref_locked"
    by (rule meta_op.intros(3) [of _ _ "''us''" "''/models/a''"]) (auto simp: ref_locked_def intro!: prod.collapse [symmetric])
qed

lemma ref_cluster_holds: "holds_lock ref_view ref_cluster 0 (MetadataStoreFromContentLock ''us'' ''/models/a'') 5000000000"
  by (simp add: holds_lock_def ref_locked_simps ref_view_def alive_def)

theorem lock_exclusive_witness:
  "holds_lock ref_view (put_node ref_cluster 1 (fst (meta_SetStoreFromContentLock ref_redis (node_of ref_cluster 1) ''us'' ''/models/a'')))
     0 (MetadataStoreFromContentLock ''us'' ''/models/a'') 5000000000"
proof -
  let ?z = "meta_SetStoreFromContentLock ref_redis (node_of ref_cluster 1) ''us'' ''/models/a''"
  have "meta_op ref_redis ref_codec (node_of ref_cluster 1) (fst ?z)"
    by (rule meta_op.intros(3) [of _ _ "''us''" "''/models/a''" _ "snd ?z"]) simp
  from lock_exclusive [OF ref_redis_contract ref_cluster_run ref_cluster_holds this] show ?thesis
    by (simp add: ref_view_def)
qed

text \<open>
  C16: A second attempt to take the lock for storing a source path, by any node and also by the holder itself, is refused with an error
  as long as the lock is live.
\<close>

theorem store_lock_refused:
  assumes "redis_contract D vw" "holds_lock vw st i (MetadataStoreFromContentLock locality sourcePath) d"
    and "meta_SetStoreFromContentLock D (node_of st j) locality sourcePath = (m', x)" "rv_now (mview vw m') < d"
  shows "\<exists>e. x = Err e \<and> mt_locks m' = snd st j"
proof -
  let ?k = "MetadataStoreFromContentLock locality sourcePath"
  note acq = assms(3) [unfolded meta_SetStoreFromContentLock_def]
  obtain tok where tok: "rv_lock (vw (fst st)) ?k = Some (tok, d)" using assms(2) by (auto simp: holds_lock_def)
  have "x \<noteq> Ok ()"
  proof
    assume "x = Ok ()"
    from Acquire_effect(2) [OF assms(1) acq this] obtain v1
      where v1: "tick (vw (fst st)) v1" "rv_lock v1 ?k = None" "rv_now v1 \<le> rv_now (mview vw m')" by auto
    have "rv_lock v1 ?k = Some (tok, d)" using tickD(6) [OF v1(1), of ?k] tok v1(3) assms(4) by (simp add: alive_eq)
    with v1(2) show False by simp
  qed
  moreover have "x \<noteq> Panic" using Acquire_effect(1) [OF assms(1) acq] by blast
  ultimately show ?thesis using acq by (cases x) (auto simp: lock_Acquire_def split: res.splits prod.splits if_splits)
qed

theorem store_lock_refused_witness:
  "\<exists>e. snd (meta_SetStoreFromContentLock ref_redis (node_of ref_cluster 1) ''us'' ''/models/a'') = Err e"
proof -
  obtain m' x where z: "meta_SetStoreFromContentLock ref_redis (node_of ref_cluster 1) ''us'' ''/models/a'' = (m', x)" by fastforce
  have "rv_now (mview ref_view m') < 5000000000" by (simp add: ref_view_def)
  from store_lock_refused [OF ref_redis_contract ref_cluster_holds z this] show ?thesis unfolding z by auto
qed

subsection \<open>Nodes and hosts\<close>

text \<open>
  C9: Writing a node and reading any node back. The written node is returned with every field, its generation one above that of the
  node it replaced (counted modulo \<open>2^64\<close>), and every other node is unchanged; reading reports a missing node only for an id that has none.
\<close>

theorem fs_node_write_read:
  assumes "redis_contract D vw" "meta_SetFsNode D cd m i md = (m1, Ok ())" "meta_GetFsNode D cd m1 j = (m2, x)"
  shows "case x of
      Ok md' \<Rightarrow> ((fs_node cd (mview vw m))(i \<mapsto> bump_gen (fs_node cd (mview vw m) i) md)) j = Some md'
    | Err e \<Rightarrow> (\<forall>n. e = ErrNodeNotFound n \<longrightarrow> n = j \<and> j \<noteq> i \<and> fs_node cd (mview vw m) j = None)
    | Panic \<Rightarrow> False"
proof -
  have n: "fs_node cd (mview vw m1) = (fs_node cd (mview vw m))(i \<mapsto> bump_gen (fs_node cd (mview vw m) i) md)"
    using SetFsNode_law [OF assms(1,2)] by (simp add: Let_def)
  show ?thesis
  proof (cases x)
    case (Ok md')
    then show ?thesis using GetFsNode_law(4) [OF assms(1,3), of md'] n by simp
  next
    case (Err e)
    have "n' = j \<and> j \<noteq> i \<and> fs_node cd (mview vw m) j = None" if "e = ErrNodeNotFound n'" for n'
    proof -
      have "n' = j \<and> fs_node cd (mview vw m1) j = None" using GetFsNode_law(5) [OF assms(1,3), of n'] Err that by blast
      then show ?thesis unfolding n by (auto split: if_splits)
    qed
    then show ?thesis unfolding Err res.case by blast
  next
    case Panic
    then show ?thesis using GetFsNode_law(3) [OF assms(1,3)] by simp
  qed
qed

definition sample_node :: BlobFsMetadata where
  "sample_node = zero_BlobFsMetadata\<lparr>md_ID := ''n1'', md_Name := ''a'', md_Size := 7\<rparr>"

theorem fs_node_write_read_witness:
  "let m0 = \<lparr>mt_rdb = ref_empty, mt_locks = Map.empty\<rparr>;
       m1 = fst (meta_SetFsNode ref_redis ref_codec m0 ''n1'' sample_node)
   in snd (meta_GetFsNode ref_redis ref_codec m1 ''n1'') = Ok sample_node"
proof -
  let ?m0 = "\<lparr>mt_rdb = ref_empty, mt_locks = Map.empty\<rparr>"
  obtain m1 where m1: "meta_SetFsNode ref_redis ref_codec ?m0 ''n1'' sample_node = (m1, Ok ())"
    by (simp add: meta_SetFsNode_def ref_redis_def ref_empty_def ToSlice_meta)
  obtain m2 x where m2: "meta_GetFsNode ref_redis ref_codec m1 ''n1'' = (m2, x)" by fastforce
  have "fs_node ref_codec (mview ref_view ?m0) ''n1'' = None" by (simp add: fs_node_def ref_view_def ref_empty_def)
  moreover have "\<nexists>e. x = Err e \<and> (\<forall>n. e \<noteq> ErrNodeNotFound n)"
    using m2 by (auto simp: meta_GetFsNode_def ref_redis_def split: if_splits)
  ultimately have "x = Ok sample_node"
    using fs_node_write_read [OF ref_redis_contract m1 m2] by (cases x) (auto simp: bump_gen_def)
  then show ?thesis by (simp add: m1 m2)
qed



text \<open>
  C12: Every host that \<^verbatim>\<open>GetAvailableHosts\<close> returns is one whose id is in the index and whose keep-alive had not expired when the call
  began, and the list is never empty.
\<close>

theorem listed_hosts_alive:
  assumes "redis_contract D vw" "meta_GetAvailableHosts D cd (drop_host D locality) m locality = (m', Ok hosts)"
  shows "hosts \<noteq> [] \<and> (\<forall>h \<in> set hosts. \<exists>i d. i \<in> rv_set (mview vw m) (MetadataHostIndex locality) \<and>
    has_keepalive cd (mview vw m) locality i h d)"
proof -
  from GetAvailableHosts_law(2) [OF assms, of hosts] obtain hosts'
    where "hosts_ok D cd vw locality m (rv_set (mview vw m) (MetadataHostIndex locality)) m' hosts'"
      "Ok hosts = (if hosts' = [] then Err (ErrMsg ''no available hosts'') else Ok hosts')" by blast
  moreover from this have "hosts' = hosts" "hosts' \<noteq> []" by (auto split: if_splits)
  ultimately show ?thesis unfolding hosts_ok_def by blast
qed

theorem listed_hosts_alive_witness:
  "let m1 = fst (meta_AddHostToIndex ref_redis \<lparr>mt_rdb = ref_empty, mt_locks = Map.empty\<rparr> ''us'' (bare_host ''h''));
       m2 = fst (meta_SetHostKeepAlive ref_redis ref_codec m1 ''us'' (bare_host ''h''))
   in \<exists>d. has_keepalive ref_codec (mview ref_view m2) ''us'' ''h'' (bare_host ''h'') d"
proof -
  define m1 where "m1 = fst (meta_AddHostToIndex ref_redis \<lparr>mt_rdb = ref_empty, mt_locks = Map.empty\<rparr> ''us'' (bare_host ''h''))"
  define m2 where "m2 = fst (meta_SetHostKeepAlive ref_redis ref_codec m1 ''us'' (bare_host ''h''))"
  have "snd (meta_GetAvailableHosts ref_redis ref_codec (drop_host ref_redis ''us'') m2 ''us'') = Ok [bare_host ''h'']"
    "rs_set (mt_rdb m2) (MetadataHostIndex ''us'') = [''h'']"
    unfolding m2_def m1_def by code_simp+
  moreover from this obtain m3 where "meta_GetAvailableHosts ref_redis ref_codec (drop_host ref_redis ''us'') m2 ''us'' = (m3, Ok [bare_host ''h''])"
    by (metis prod.collapse)
  from listed_hosts_alive [OF ref_redis_contract this] have "\<exists>i d. i \<in> rv_set (mview ref_view m2) (MetadataHostIndex ''us'') \<and>
      has_keepalive ref_codec (mview ref_view m2) ''us'' i (bare_host ''h'') d" by simp
  moreover have "rv_set (mview ref_view m2) k = set (rs_set (mt_rdb m2) k)" for k by (simp add: ref_view_def)
  ultimately show ?thesis unfolding m1_def [symmetric] m2_def [symmetric] Let_def by auto
qed

end
