(* ===== verification/Coordinator.thy ===== *)
theory Coordinator
  imports Metadata_Locks "HOL-Library.AList"
begin

text \<open>
  The coordinator interface of \<^verbatim>\<open>src/pkg/coordinator_local.go\<close> and its three implementations: the local one over Redis, the in-memory
  one of \<^verbatim>\<open>src/pkg/coordinator_mock.go\<close>, and the remote one of \<^verbatim>\<open>src/pkg/coordinator_remote.go\<close>, which calls the handlers of
  \<^verbatim>\<open>src/pkg/server_coordinator.go\<close> over a network that may lose a request or a response.
\<close>

subsection \<open>The interface\<close>

record 's coordinator =
  co_AddHostToIndex :: "'s \<Rightarrow> string \<Rightarrow> BlobCacheHost \<Rightarrow> 's \<times> unit res"
  co_SetHostKeepAlive :: "'s \<Rightarrow> string \<Rightarrow> BlobCacheHost \<Rightarrow> 's \<times> unit res"
  co_GetAvailableHosts :: "'s \<Rightarrow> string \<Rightarrow> 's \<times> BlobCacheHost list res"
  co_GetRegionConfig :: "'s \<Rightarrow> string \<Rightarrow> 's \<times> BlobCacheServerConfig res"
  co_SetClientLock :: "'s \<Rightarrow> string \<Rightarrow> string \<Rightarrow> 's \<times> unit res"
  co_RemoveClientLock :: "'s \<Rightarrow> string \<Rightarrow> string \<Rightarrow> 's \<times> unit res"
  co_SetStoreFromContentLock :: "'s \<Rightarrow> string \<Rightarrow> string \<Rightarrow> 's \<times> unit res"
  co_RemoveStoreFromContentLock :: "'s \<Rightarrow> string \<Rightarrow> string \<Rightarrow> 's \<times> unit res"
  co_RefreshStoreFromContentLock :: "'s \<Rightarrow> string \<Rightarrow> string \<Rightarrow> 's \<times> unit res"
  co_SetFsNode :: "'s \<Rightarrow> string \<Rightarrow> BlobFsMetadata \<Rightarrow> 's \<times> unit res"
  co_GetFsNode :: "'s \<Rightarrow> string \<Rightarrow> 's \<times> BlobFsMetadata res"
  co_RemoveFsNode :: "'s \<Rightarrow> string \<Rightarrow> 's \<times> unit res"
  co_RemoveFsNodeChild :: "'s \<Rightarrow> string \<Rightarrow> string \<Rightarrow> 's \<times> unit res"
  co_GetFsNodeChildren :: "'s \<Rightarrow> string \<Rightarrow> 's \<times> BlobFsMetadata list res"
  co_AddFsNodeChild :: "'s \<Rightarrow> string \<Rightarrow> string \<Rightarrow> 's \<times> unit res"

subsection \<open>The local coordinator\<close>

record 'r CoordinatorClientLocal =
  lc_globalConfig :: BlobCacheGlobalConfig
  lc_serverConfig :: BlobCacheServerConfig
  lc_metadata :: "'r BlobCacheMetadata"

definition on_metadata :: "'r CoordinatorClientLocal \<Rightarrow> 'r BlobCacheMetadata \<times> 'a \<Rightarrow> 'r CoordinatorClientLocal \<times> 'a" where
  "on_metadata c z = (c\<lparr>lc_metadata := fst z\<rparr>, snd z)"

definition NewCoordinatorClientLocal :: "(MetadataConfig \<Rightarrow> 'r BlobCacheMetadata res) \<Rightarrow> BlobCacheGlobalConfig \<Rightarrow> BlobCacheServerConfig
    \<Rightarrow> 'r CoordinatorClientLocal res" where
  "NewCoordinatorClientLocal newMetadata globalConfig serverConfig =
     (case newMetadata (sc_Metadata serverConfig) of
        Ok metadata \<Rightarrow> Ok \<lparr>lc_globalConfig = globalConfig, lc_serverConfig = serverConfig, lc_metadata = metadata\<rparr>
      | Err e \<Rightarrow> Err e
      | Panic \<Rightarrow> Panic)"

definition local_coordinator :: "'r redis \<Rightarrow> codec \<Rightarrow> 'r CoordinatorClientLocal coordinator" where
  "local_coordinator D cd = \<lparr>
     co_AddHostToIndex = (\<lambda>c locality host. on_metadata c (meta_AddHostToIndex D (lc_metadata c) locality host)),
     co_SetHostKeepAlive = (\<lambda>c locality host. on_metadata c (meta_SetHostKeepAlive D cd (lc_metadata c) locality host)),
     co_GetAvailableHosts = (\<lambda>c locality. on_metadata c (meta_GetAvailableHosts D cd (drop_host D locality) (lc_metadata c) locality)),
     co_GetRegionConfig = (\<lambda>c locality. (c, Ok (lc_serverConfig c))),
     co_SetClientLock = (\<lambda>c hash host. on_metadata c (meta_SetClientLock D (lc_metadata c) hash host)),
     co_RemoveClientLock = (\<lambda>c hash host. on_metadata c (meta_RemoveClientLock D (lc_metadata c) hash host)),
     co_SetStoreFromContentLock = (\<lambda>c locality path. on_metadata c (meta_SetStoreFromContentLock D (lc_metadata c) locality path)),
     co_RemoveStoreFromContentLock = (\<lambda>c locality path. on_metadata c (meta_RemoveStoreFromContentLock D (lc_metadata c) locality path)),
     co_RefreshStoreFromContentLock = (\<lambda>c locality path. on_metadata c (meta_RefreshStoreFromContentLock D (lc_metadata c) locality path)),
     co_SetFsNode = (\<lambda>c i md. on_metadata c (meta_SetFsNode D cd (lc_metadata c) i md)),
     co_GetFsNode = (\<lambda>c i. on_metadata c (meta_GetFsNode D cd (lc_metadata c) i)),
     co_RemoveFsNode = (\<lambda>c i. on_metadata c (meta_RemoveFsNode D (lc_metadata c) i)),
     co_RemoveFsNodeChild = (\<lambda>c pid i. on_metadata c (meta_RemoveFsNodeChild D (lc_metadata c) pid i)),
     co_GetFsNodeChildren = (\<lambda>c i. on_metadata c (meta_GetFsNodeChildren D cd (lc_metadata c) i)),
     co_AddFsNodeChild = (\<lambda>c pid i. on_metadata c (meta_AddFsNodeChild D (lc_metadata c) pid i))\<rparr>"

subsection \<open>The in-memory coordinator\<close>

record MockCoordinator =
  mk_hosts :: "string \<Rightarrow> (string \<times> BlobCacheHost) list option"
  mk_fsNodes :: "string \<Rightarrow> BlobFsMetadata option"
  mk_fsChildren :: "string \<Rightarrow> string list option"
  mk_locks :: "string \<Rightarrow> bool"

definition NewMockCoordinator :: MockCoordinator where
  "NewMockCoordinator = \<lparr>mk_hosts = Map.empty, mk_fsNodes = Map.empty, mk_fsChildren = Map.empty, mk_locks = (\<lambda>_. False)\<rparr>"

definition mock_AddHostToIndex :: "MockCoordinator \<Rightarrow> string \<Rightarrow> BlobCacheHost \<Rightarrow> MockCoordinator \<times> unit res" where
  "mock_AddHostToIndex m locality host =
     (let hs = (case mk_hosts m locality of None \<Rightarrow> [] | Some hs \<Rightarrow> hs)
      in (m\<lparr>mk_hosts := (mk_hosts m)(locality \<mapsto> AList.update (HostId host) host hs)\<rparr>, Ok ()))"

text \<open>The order in which Go ranges over a map is an argument.\<close>

definition mock_GetAvailableHosts :: "((string \<times> BlobCacheHost) list \<Rightarrow> (string \<times> BlobCacheHost) list)
    \<Rightarrow> MockCoordinator \<Rightarrow> string \<Rightarrow> MockCoordinator \<times> BlobCacheHost list res" where
  "mock_GetAvailableHosts order m locality =
     (m, Ok (case mk_hosts m locality of Some hs \<Rightarrow> map snd (order hs) | None \<Rightarrow> []))"

definition mock_SetLock :: "string \<Rightarrow> MockCoordinator \<Rightarrow> MockCoordinator \<times> unit res" where
  "mock_SetLock key m =
     (if mk_locks m key then (m, Err (ErrMsg ''lock already held''))
      else (m\<lparr>mk_locks := (mk_locks m)(key := True)\<rparr>, Ok ()))"

definition mock_RemoveLock :: "string \<Rightarrow> MockCoordinator \<Rightarrow> MockCoordinator \<times> unit res" where
  "mock_RemoveLock key m = (m\<lparr>mk_locks := (mk_locks m)(key := False)\<rparr>, Ok ())"

definition mock_client_key :: "string \<Rightarrow> string" where "mock_client_key hash = ''client-lock:'' @ hash"

definition mock_store_key :: "string \<Rightarrow> string \<Rightarrow> string" where
  "mock_store_key locality path = ''store-lock:'' @ locality @ '':'' @ path"

definition mock_SetFsNode :: "MockCoordinator \<Rightarrow> string \<Rightarrow> BlobFsMetadata \<Rightarrow> MockCoordinator \<times> unit res" where
  "mock_SetFsNode m i md = (m\<lparr>mk_fsNodes := (mk_fsNodes m)(i \<mapsto> md)\<rparr>, Ok ())"

definition mock_GetFsNode :: "MockCoordinator \<Rightarrow> string \<Rightarrow> MockCoordinator \<times> BlobFsMetadata res" where
  "mock_GetFsNode m i =
     (case mk_fsNodes m i of None \<Rightarrow> (m, Err (ErrMsg ''fs node not found'')) | Some md \<Rightarrow> (m, Ok md))"

definition mock_RemoveFsNode :: "MockCoordinator \<Rightarrow> string \<Rightarrow> MockCoordinator \<times> unit res" where
  "mock_RemoveFsNode m i = (m\<lparr>mk_fsNodes := (mk_fsNodes m)(i := None)\<rparr>, Ok ())"

definition mock_RemoveFsNodeChild :: "MockCoordinator \<Rightarrow> string \<Rightarrow> string \<Rightarrow> MockCoordinator \<times> unit res" where
  "mock_RemoveFsNodeChild m pid i =
     (case mk_fsChildren m pid of
        Some children \<Rightarrow> (m\<lparr>mk_fsChildren := (mk_fsChildren m)(pid \<mapsto> filter (\<lambda>c. c \<noteq> i) children)\<rparr>, Ok ())
      | None \<Rightarrow> (m, Ok ()))"

definition mock_GetFsNodeChildren :: "MockCoordinator \<Rightarrow> string \<Rightarrow> MockCoordinator \<times> BlobFsMetadata list res" where
  "mock_GetFsNodeChildren m i =
     (case mk_fsChildren m i of
        None \<Rightarrow> (m, Ok [])
      | Some childIds \<Rightarrow> (m, Ok (List.map_filter (mk_fsNodes m) childIds)))"

definition mock_AddFsNodeChild :: "MockCoordinator \<Rightarrow> string \<Rightarrow> string \<Rightarrow> MockCoordinator \<times> unit res" where
  "mock_AddFsNodeChild m pid i =
     (let children = (case mk_fsChildren m pid of None \<Rightarrow> [] | Some cs \<Rightarrow> cs)
      in (m\<lparr>mk_fsChildren := (mk_fsChildren m)(pid \<mapsto> (if i \<in> set children then children else children @ [i]))\<rparr>, Ok ()))"

definition mock_coordinator :: "((string \<times> BlobCacheHost) list \<Rightarrow> (string \<times> BlobCacheHost) list) \<Rightarrow> MockCoordinator coordinator" where
  "mock_coordinator order = \<lparr>
     co_AddHostToIndex = mock_AddHostToIndex,
     co_SetHostKeepAlive = mock_AddHostToIndex,
     co_GetAvailableHosts = mock_GetAvailableHosts order,
     co_GetRegionConfig = (\<lambda>m locality. (m, Err (ErrMsg ''region config not found''))),
     co_SetClientLock = (\<lambda>m hash host. mock_SetLock (mock_client_key hash) m),
     co_RemoveClientLock = (\<lambda>m hash host. mock_RemoveLock (mock_client_key hash) m),
     co_SetStoreFromContentLock = (\<lambda>m locality path. mock_SetLock (mock_store_key locality path) m),
     co_RemoveStoreFromContentLock = (\<lambda>m locality path. mock_RemoveLock (mock_store_key locality path) m),
     co_RefreshStoreFromContentLock = (\<lambda>m locality path. (m, Ok ())),
     co_SetFsNode = mock_SetFsNode,
     co_GetFsNode = mock_GetFsNode,
     co_RemoveFsNode = mock_RemoveFsNode,
     co_RemoveFsNodeChild = mock_RemoveFsNodeChild,
     co_GetFsNodeChildren = mock_GetFsNodeChildren,
     co_AddFsNodeChild = mock_AddFsNodeChild\<rparr>"

subsection \<open>The handlers of the coordinator service\<close>

text \<open>A response is its \<^verbatim>\<open>Ok\<close> flag and its payload; the handlers never return an error to the transport.\<close>

fun ok_response :: "'s \<times> 'a res \<Rightarrow> 's \<times> bool res" where
  "ok_response (s, Ok _) = (s, Ok True)"
| "ok_response (s, Err e) = (s, Ok False)"
| "ok_response (s, Panic) = (s, Panic)"

definition wire_host :: "BlobCacheHost \<Rightarrow> pb_BlobCacheHost" where
  "wire_host host = \<lparr>ph_HostId = HostId host, ph_Addr = Addr host, ph_PrivateIpAddr = PrivateAddr host, ph_CapacityUsagePct = 0\<rparr>"

definition unwire_host :: "pb_BlobCacheHost \<Rightarrow> BlobCacheHost" where
  "unwire_host h = \<lparr>RTT = 0, HostId = ph_HostId h, Addr = ph_Addr h, PrivateAddr = ph_PrivateIpAddr h, CapacityUsagePct = 0\<rparr>"

definition srv_GetAvailableHosts :: "'s coordinator \<Rightarrow> 's \<Rightarrow> string \<Rightarrow> 's \<times> (bool \<times> pb_BlobCacheHost list) res" where
  "srv_GetAvailableHosts C s locality =
     (case co_GetAvailableHosts C s locality of
        (s', Ok hosts) \<Rightarrow> (s', Ok (True, map wire_host hosts))
      | (s', Err e) \<Rightarrow> (s', Ok (False, []))
      | (s', Panic) \<Rightarrow> (s', Panic))"

definition srv_GetRegionConfig :: "(rat \<Rightarrow> rat) \<Rightarrow> BlobCacheServerConfig \<Rightarrow> 's \<Rightarrow> string \<Rightarrow> 's \<times> (bool \<times> pb_BlobCacheServerConfig option) res" where
  "srv_GetRegionConfig f32 serverConfig s locality =
     (case map_of (sc_Regions serverConfig) locality of
        None \<Rightarrow> (s, Ok (False, None))
      | Some config \<Rightarrow> (s, Ok (True, Some (ServerConfig_ToProto f32 (rc_ServerConfig config)))))"

definition srv_SetClientLock where
  "srv_SetClientLock C s req = (case req of (hash, hostId) \<Rightarrow> ok_response (co_SetClientLock C s hash hostId))"
definition srv_RemoveClientLock where
  "srv_RemoveClientLock C s req = (case req of (hash, hostId) \<Rightarrow> ok_response (co_RemoveClientLock C s hash hostId))"
definition srv_SetStoreFromContentLock where
  "srv_SetStoreFromContentLock C s req = (case req of (locality, path) \<Rightarrow> ok_response (co_SetStoreFromContentLock C s locality path))"
definition srv_RemoveStoreFromContentLock where
  "srv_RemoveStoreFromContentLock C s req = (case req of (locality, path) \<Rightarrow> ok_response (co_RemoveStoreFromContentLock C s locality path))"
definition srv_RefreshStoreFromContentLock where
  "srv_RefreshStoreFromContentLock C s req = (case req of (locality, path) \<Rightarrow> ok_response (co_RefreshStoreFromContentLock C s locality path))"

text \<open>The node a request carries, as the handler rebuilds it: every field but the inode number.\<close>

definition srv_request_node :: "pb_BlobFsMetadata \<Rightarrow> BlobFsMetadata" where
  "srv_request_node p = zero_BlobFsMetadata
    \<lparr>md_ID := pf_Id p, md_PID := pf_Pid p, md_Name := pf_Name p, md_Hash := pf_Hash p, md_Path := pf_Path p,
     md_Size := pf_Size p, md_Blocks := pf_Blocks p, md_Atime := pf_Atime p, md_Mtime := pf_Mtime p,
     md_Ctime := pf_Ctime p, md_Atimensec := pf_Atimensec p, md_Mtimensec := pf_Mtimensec p,
     md_Ctimensec := pf_Ctimensec p, md_Mode := pf_Mode p, md_Nlink := pf_Nlink p, md_Rdev := pf_Rdev p,
     md_Blksize := pf_Blksize p, md_Padding := pf_Padding p, md_Uid := pf_Uid p, md_Gid := pf_Gid p,
     md_Gen := pf_Gen p\<rparr>"

definition srv_SetFsNode :: "'s coordinator \<Rightarrow> 's \<Rightarrow> string \<times> pb_BlobFsMetadata \<Rightarrow> 's \<times> bool res" where
  "srv_SetFsNode C s req = (case req of (i, p) \<Rightarrow> ok_response (co_SetFsNode C s i (srv_request_node p)))"

definition srv_GetFsNode :: "'s coordinator \<Rightarrow> 's \<Rightarrow> string \<Rightarrow> 's \<times> (bool \<times> pb_BlobFsMetadata option) res" where
  "srv_GetFsNode C s i =
     (case co_GetFsNode C s i of
        (s', Ok md) \<Rightarrow> (s', Ok (True, Some (meta_ToProto md)))
      | (s', Err e) \<Rightarrow> (s', Ok (False, None))
      | (s', Panic) \<Rightarrow> (s', Panic))"

definition srv_RemoveFsNode where
  "srv_RemoveFsNode C s i = ok_response (co_RemoveFsNode C s i)"
definition srv_RemoveFsNodeChild where
  "srv_RemoveFsNodeChild C s req = (case req of (pid, i) \<Rightarrow> ok_response (co_RemoveFsNodeChild C s pid i))"

definition srv_GetFsNodeChildren :: "'s coordinator \<Rightarrow> 's \<Rightarrow> string \<Rightarrow> 's \<times> (bool \<times> pb_BlobFsMetadata list) res" where
  "srv_GetFsNodeChildren C s i =
     (case co_GetFsNodeChildren C s i of
        (s', Ok children) \<Rightarrow> (s', Ok (True, map meta_ToProto children))
      | (s', Err e) \<Rightarrow> (s', Ok (False, []))
      | (s', Panic) \<Rightarrow> (s', Panic))"

definition srv_AddFsNodeChild where
  "srv_AddFsNodeChild C s req = (case req of (pid, i) \<Rightarrow> ok_response (co_AddFsNodeChild C s pid i))"
definition srv_AddHostToIndex where
  "srv_AddHostToIndex C s req = (case req of (locality, h) \<Rightarrow> ok_response (co_AddHostToIndex C s locality (unwire_host h)))"
definition srv_SetHostKeepAlive where
  "srv_SetHostKeepAlive C s req = (case req of (locality, h) \<Rightarrow> ok_response (co_SetHostKeepAlive C s locality (unwire_host h)))"

subsection \<open>The remote coordinator\<close>

text \<open>
  What happens to a call: it is carried out and answered, it is lost before it reaches the server, or the server carries it out and
  the answer is lost. The fates of the coming calls are part of the network's state; calls beyond the list are delivered.
\<close>

datatype fate = Deliver | LostRequest | LostResponse

record 's net =
  nt_server :: 's
  nt_fates :: "fate list"

definition ErrUnavailable :: goerr where "ErrUnavailable = ErrMsg ''rpc error: code = Unavailable''"

definition rpc :: "('s \<Rightarrow> 'q \<Rightarrow> 's \<times> 'p res) \<Rightarrow> 's net \<Rightarrow> 'q \<Rightarrow> 's net \<times> 'p res" where
  "rpc handler n req =
     (case nt_fates n of
        LostRequest # fs \<Rightarrow> (n\<lparr>nt_fates := fs\<rparr>, Err ErrUnavailable)
      | LostResponse # fs \<Rightarrow>
          (let (s, r) = handler (nt_server n) req
           in (n\<lparr>nt_server := s, nt_fates := fs\<rparr>, if r = Panic then Panic else Err ErrUnavailable))
      | _ \<Rightarrow> (let (s, r) = handler (nt_server n) req in (n\<lparr>nt_server := s, nt_fates := tl (nt_fates n)\<rparr>, r)))"

text \<open>A call whose response only has the flag: the methods differ in the message of the error.\<close>

definition rpc_ok :: "string \<Rightarrow> ('s \<Rightarrow> 'q \<Rightarrow> 's \<times> bool res) \<Rightarrow> 's net \<Rightarrow> 'q \<Rightarrow> 's net \<times> unit res" where
  "rpc_ok msg handler n req =
     (case rpc handler n req of
        (n', Err e) \<Rightarrow> (n', Err e)
      | (n', Panic) \<Rightarrow> (n', Panic)
      | (n', Ok flag) \<Rightarrow> (n', if \<not> flag then Err (ErrMsg msg) else Ok ()))"

definition rem_AddHostToIndex where
  "rem_AddHostToIndex C n locality host = rpc_ok ''failed to add host to index'' (srv_AddHostToIndex C) n (locality, wire_host host)"
definition rem_SetHostKeepAlive where
  "rem_SetHostKeepAlive C n locality host = rpc_ok ''failed to set host keep alive'' (srv_SetHostKeepAlive C) n (locality, wire_host host)"
definition rem_SetStoreFromContentLock where
  "rem_SetStoreFromContentLock C n locality path =
     rpc_ok ''failed to set store from content lock'' (srv_SetStoreFromContentLock C) n (locality, path)"
definition rem_RemoveStoreFromContentLock where
  "rem_RemoveStoreFromContentLock C n locality path =
     rpc_ok ''failed to remove store from content lock'' (srv_RemoveStoreFromContentLock C) n (locality, path)"
definition rem_RefreshStoreFromContentLock where
  "rem_RefreshStoreFromContentLock C n locality path =
     rpc_ok ''failed to refresh store from content lock'' (srv_RefreshStoreFromContentLock C) n (locality, path)"

text \<open>The flag of this response is not looked at.\<close>

definition rem_GetAvailableHosts :: "'s coordinator \<Rightarrow> 's net \<Rightarrow> string \<Rightarrow> 's net \<times> BlobCacheHost list res" where
  "rem_GetAvailableHosts C n locality =
     (case rpc (srv_GetAvailableHosts C) n locality of
        (n', Err e) \<Rightarrow> (n', Err e)
      | (n', Panic) \<Rightarrow> (n', Panic)
      | (n', Ok (flag, hosts)) \<Rightarrow> (n', Ok (map unwire_host hosts)))"

definition rem_GetRegionConfig :: "(rat \<Rightarrow> rat) \<Rightarrow> BlobCacheServerConfig \<Rightarrow> 's net \<Rightarrow> string \<Rightarrow> 's net \<times> BlobCacheServerConfig res" where
  "rem_GetRegionConfig f32 serverConfig n locality =
     (case rpc (srv_GetRegionConfig f32 serverConfig) n locality of
        (n', Err e) \<Rightarrow> (n', Err e)
      | (n', Panic) \<Rightarrow> (n', Panic)
      | (n', Ok (flag, cfg)) \<Rightarrow>
          if \<not> flag then (n', Err (ErrMsg ''failed to get region config''))
          else (case cfg of None \<Rightarrow> (n', Panic) | Some p \<Rightarrow> (n', BlobCacheServerConfigFromProto p)))"

definition rem_SetClientLock where
  "rem_SetClientLock C n hash hostId = rpc_ok ''failed to set client lock'' (srv_SetClientLock C) n (hash, hostId)"
definition rem_RemoveClientLock where
  "rem_RemoveClientLock C n hash hostId = rpc_ok ''failed to remove client lock'' (srv_RemoveClientLock C) n (hash, hostId)"

definition zero_pb_BlobFsMetadata :: pb_BlobFsMetadata where
  "zero_pb_BlobFsMetadata = meta_ToProto zero_BlobFsMetadata"

definition rem_request_node :: "BlobFsMetadata \<Rightarrow> pb_BlobFsMetadata" where
  "rem_request_node md = zero_pb_BlobFsMetadata
    \<lparr>pf_Id := md_ID md, pf_Pid := md_PID md, pf_Name := md_Name md, pf_Path := md_Path md, pf_Hash := md_Hash md,
     pf_Size := md_Size md, pf_Blocks := md_Blocks md, pf_Atime := md_Atime md, pf_Mtime := md_Mtime md,
     pf_Ctime := md_Ctime md, pf_Atimensec := md_Atimensec md, pf_Mtimensec := md_Mtimensec md,
     pf_Ctimensec := md_Ctimensec md, pf_Mode := md_Mode md, pf_Nlink := md_Nlink md, pf_Rdev := md_Rdev md,
     pf_Blksize := md_Blksize md, pf_Padding := md_Padding md, pf_Uid := md_Uid md, pf_Gid := md_Gid md,
     pf_Gen := md_Gen md\<rparr>"

definition rem_SetFsNode where
  "rem_SetFsNode C n i md = rpc_ok ''failed to set fs node'' (srv_SetFsNode C) n (i, rem_request_node md)"

definition rem_response_node :: "pb_BlobFsMetadata \<Rightarrow> BlobFsMetadata" where
  "rem_response_node p = zero_BlobFsMetadata
    \<lparr>md_ID := pf_Id p, md_PID := pf_Pid p, md_Name := pf_Name p, md_Path := pf_Path p, md_Hash := pf_Hash p,
     md_Size := pf_Size p, md_Blocks := pf_Blocks p, md_Atime := pf_Atime p, md_Mtime := pf_Mtime p,
     md_Ctime := pf_Ctime p, md_Atimensec := pf_Atimensec p, md_Mtimensec := pf_Mtimensec p,
     md_Ctimensec := pf_Ctimensec p, md_Mode := pf_Mode p, md_Nlink := pf_Nlink p, md_Rdev := pf_Rdev p,
     md_Blksize := pf_Blksize p, md_Padding := pf_Padding p, md_Uid := pf_Uid p, md_Gid := pf_Gid p,
     md_Gen := pf_Gen p\<rparr>"

definition rem_GetFsNode :: "'s coordinator \<Rightarrow> 's net \<Rightarrow> string \<Rightarrow> 's net \<times> BlobFsMetadata res" where
  "rem_GetFsNode C n i =
     (case rpc (srv_GetFsNode C) n i of
        (n', Err e) \<Rightarrow> (n', Err e)
      | (n', Panic) \<Rightarrow> (n', Panic)
      | (n', Ok (flag, md)) \<Rightarrow>
          if \<not> flag then (n', Err (ErrMsg ''failed to get fs node''))
          else (case md of None \<Rightarrow> (n', Panic) | Some p \<Rightarrow> (n', Ok (rem_response_node p))))"

definition rem_AddFsNodeChild where
  "rem_AddFsNodeChild C n pid i = rpc_ok ''failed to add fs node child'' (srv_AddFsNodeChild C) n (pid, i)"
definition rem_RemoveFsNode where
  "rem_RemoveFsNode C n i = rpc_ok ''failed to remove fs node'' (srv_RemoveFsNode C) n i"
definition rem_RemoveFsNodeChild where
  "rem_RemoveFsNodeChild C n pid i = rpc_ok ''failed to remove fs node child'' (srv_RemoveFsNodeChild C) n (pid, i)"

definition rem_child_node :: "pb_BlobFsMetadata \<Rightarrow> BlobFsMetadata" where
  "rem_child_node p = zero_BlobFsMetadata
    \<lparr>md_ID := pf_Id p, md_PID := pf_Pid p, md_Name := pf_Name p, md_Path := pf_Path p, md_Hash := pf_Hash p,
     md_Size := pf_Size p, md_Blocks := pf_Blocks p, md_Atime := pf_Atime p, md_Mtime := pf_Mtime p,
     md_Ctime := pf_Ctime p, md_Atimensec := pf_Atimensec p, md_Mtimensec := pf_Mtimensec p,
     md_Ctimensec := pf_Ctimensec p, md_Mode := pf_Mode p, md_Nlink := pf_Nlink p, md_Rdev := pf_Rdev p,
     md_Blksize := pf_Blksize p, md_Padding := pf_Padding p, md_Uid := pf_Uid p, md_Gid := pf_Gid p,
     md_Gen := pf_Gen p\<rparr>"

definition rem_GetFsNodeChildren :: "'s coordinator \<Rightarrow> 's net \<Rightarrow> string \<Rightarrow> 's net \<times> BlobFsMetadata list res" where
  "rem_GetFsNodeChildren C n i =
     (case rpc (srv_GetFsNodeChildren C) n i of
        (n', Err e) \<Rightarrow> (n', Err e)
      | (n', Panic) \<Rightarrow> (n', Panic)
      | (n', Ok (flag, children)) \<Rightarrow>
          if \<not> flag then (n', Err (ErrMsg ''failed to get fs node children''))
          else (n', Ok (map rem_child_node children)))"

definition remote_coordinator :: "(rat \<Rightarrow> rat) \<Rightarrow> BlobCacheServerConfig \<Rightarrow> 's coordinator \<Rightarrow> 's net coordinator" where
  "remote_coordinator f32 serverConfig C = \<lparr>
     co_AddHostToIndex = rem_AddHostToIndex C,
     co_SetHostKeepAlive = rem_SetHostKeepAlive C,
     co_GetAvailableHosts = rem_GetAvailableHosts C,
     co_GetRegionConfig = rem_GetRegionConfig f32 serverConfig,
     co_SetClientLock = rem_SetClientLock C,
     co_RemoveClientLock = rem_RemoveClientLock C,
     co_SetStoreFromContentLock = rem_SetStoreFromContentLock C,
     co_RemoveStoreFromContentLock = rem_RemoveStoreFromContentLock C,
     co_RefreshStoreFromContentLock = rem_RefreshStoreFromContentLock C,
     co_SetFsNode = rem_SetFsNode C,
     co_GetFsNode = rem_GetFsNode C,
     co_RemoveFsNode = rem_RemoveFsNode C,
     co_RemoveFsNodeChild = rem_RemoveFsNodeChild C,
     co_GetFsNodeChildren = rem_GetFsNodeChildren C,
     co_AddFsNodeChild = rem_AddFsNodeChild C\<rparr>"

end
