(* ===== verification/Network.thy ===== *)
theory Network
  imports Go_Os Blob_Types
begin

text \<open>
  The addresses of \<^verbatim>\<open>src/pkg/network.go\<close>: the default interface and its private address, and which addresses are dialled with TLS; and the
  options with which the program opens its gRPC connections.
\<close>

subsection \<open>Text\<close>

text \<open>\<^verbatim>\<open>strings.Fields\<close> on ASCII text, and the lines of a \<^verbatim>\<open>bufio.Scanner\<close>, which gives up at a line of 64 KB.\<close>

definition is_blank :: "char \<Rightarrow> bool" where
  "is_blank c \<longleftrightarrow> of_char c \<in> {9, 10, 11, 12, 13, 32 :: nat}"

fun fields_from :: "string \<Rightarrow> string \<Rightarrow> string list" where
  "fields_from w [] = (if w = [] then [] else [w])"
| "fields_from w (c # cs) =
     (if is_blank c then (if w = [] then fields_from [] cs else w # fields_from [] cs) else fields_from (w @ [c]) cs)"

definition strings_Fields :: "string \<Rightarrow> string list" where
  "strings_Fields s = fields_from [] s"

definition drop_cr :: "string \<Rightarrow> string" where
  "drop_cr l = (if l \<noteq> [] \<and> last l = CHR 0x0D then butlast l else l)"

definition scan_lines :: "string \<Rightarrow> string list" where
  "scan_lines s =
     (let ls = split_on CHR 0x0A s;
          ls = (if last ls = [] then butlast ls else ls)
      in map drop_cr (takeWhile (\<lambda>l. length l < 65536) ls))"

subsection \<open>The default interface\<close>

fun default_route :: "string list \<Rightarrow> string res" where
  "default_route [] = Err (ErrMsg ''default route not found'')"
| "default_route (l # ls) =
     (let fields = strings_Fields l
      in if length fields < 2 then Panic
         else if fields ! 1 = ''00000000'' then Ok (fields ! 0)
         else default_route ls)"

definition getDefaultInterface :: "string option \<Rightarrow> string res" where
  "getDefaultInterface routes =
     (case routes of
        None \<Rightarrow> Err (ErrMsg ''open /proc/net/route'')
      | Some text \<Rightarrow> default_route (scan_lines text))"

subsection \<open>Addresses\<close>

text \<open>\<^verbatim>\<open>net.SplitHostPort\<close>.\<close>

definition index_of :: "char \<Rightarrow> string \<Rightarrow> nat option" where
  "index_of c s = (let n = length (takeWhile (\<lambda>x. x \<noteq> c) s) in if n < length s then Some n else None)"

definition last_index_of :: "char \<Rightarrow> string \<Rightarrow> nat option" where
  "last_index_of c s = map_option (\<lambda>n. length s - Suc n) (index_of c (rev s))"

definition net_SplitHostPort :: "string \<Rightarrow> (string \<times> string) option" where
  "net_SplitHostPort hostport =
     (case last_index_of CHR '':'' hostport of
        None \<Rightarrow> None
      | Some i \<Rightarrow>
          (let port = drop (Suc i) hostport
           in if hd hostport = CHR ''['' then
                (case index_of CHR '']'' hostport of
                   None \<Rightarrow> None
                 | Some e \<Rightarrow>
                     if Suc e \<noteq> i \<or> CHR ''['' \<in> set (drop 1 hostport) \<or> CHR '']'' \<in> set (drop (Suc e) hostport) then None
                     else Some (take (e - 1) (drop 1 hostport), port))
              else if CHR '':'' \<in> set (take i hostport) \<or> CHR ''['' \<in> set hostport \<or> CHR '']'' \<in> set hostport then None
              else Some (take i hostport, port)))"

definition isTLSEnabled :: "string \<Rightarrow> bool" where
  "isTLSEnabled addr = (case net_SplitHostPort addr of None \<Rightarrow> False | Some (_, port) \<Rightarrow> port = ''443'')"

text \<open>A \<^verbatim>\<open>net.IP\<close> is its bytes, four or sixteen of them; a nil address has none.\<close>

definition v4_prefix :: bytes where
  "v4_prefix = replicate 10 0 @ [0xFF, 0xFF]"

definition ip_To4 :: "bytes \<Rightarrow> bytes option" where
  "ip_To4 ip =
     (if length ip = 4 then Some ip
      else if length ip = 16 \<and> take 12 ip = v4_prefix then Some (drop 12 ip)
      else None)"

definition ip_IsLoopback :: "bytes \<Rightarrow> bool" where
  "ip_IsLoopback ip = (case ip_To4 ip of Some ip4 \<Rightarrow> ip4 ! 0 = 127 | None \<Rightarrow> ip = replicate 15 0 @ [1])"

definition dotted :: "bytes \<Rightarrow> string" where
  "dotted ip4 = join_with CHR ''.'' (map (\<lambda>b. show_nat (unat b)) ip4)"

text \<open>The interface is asked for by name; its addresses are IP networks, IP addresses or of another kind, which leaves the address nil.\<close>

datatype net_addr = IPNet bytes | IPAddr bytes | OtherAddr

fun addr_ip :: "net_addr \<Rightarrow> bytes" where
  "addr_ip (IPNet ip) = ip"
| "addr_ip (IPAddr ip) = ip"
| "addr_ip OtherAddr = []"

fun first_private :: "net_addr list \<Rightarrow> string res" where
  "first_private [] = Err (ErrMsg ''no active network interface found with a private IP address'')"
| "first_private (a # addrs) =
     (let ip = addr_ip a
      in if ip = [] \<or> ip_IsLoopback ip then first_private addrs
         else (case ip_To4 ip of Some ip4 \<Rightarrow> Ok (dotted ip4) | None \<Rightarrow> first_private addrs))"

definition GetPrivateIpAddr :: "string option \<Rightarrow> (string \<Rightarrow> net_addr list res) \<Rightarrow> string res" where
  "GetPrivateIpAddr routes interfaceAddrs =
     (case getDefaultInterface routes of
        Ok ifaceName \<Rightarrow> (case interfaceAddrs ifaceName of Ok addrs \<Rightarrow> first_private addrs | Err e \<Rightarrow> Err e | Panic \<Rightarrow> Panic)
      | Err e \<Rightarrow> Err e
      | Panic \<Rightarrow> Panic)"

subsection \<open>Connections\<close>

record dial_windows =
  dw_InitialWindowSize :: int
  dw_InitialConnWindowSize :: int
  dw_WriteBufferSize :: int
  dw_ReadBufferSize :: int

record dial_options =
  do_TLS :: bool
  do_DialWithTimeout :: bool
  do_MaxMsgSize :: int
  do_Windows :: "dial_windows option"
  do_Token :: "string option"

text \<open>The options of \<^verbatim>\<open>NewCoordinatorClientRemote\<close>, of \<^verbatim>\<open>GetHostState\<close> in discovery, and of \<^verbatim>\<open>addHost\<close> in the client.\<close>

definition coordinator_dial :: "BlobCacheGlobalConfig \<Rightarrow> string \<Rightarrow> string \<times> dial_options" where
  "coordinator_dial cfg token =
     (let addr = gc_CoordinatorHost cfg
      in (addr, \<lparr>do_TLS = isTLSEnabled addr, do_DialWithTimeout = True, do_MaxMsgSize = gc_GRPCMessageSizeBytes cfg,
           do_Windows = None, do_Token = (if token \<noteq> [] then Some token else None)\<rparr>))"

definition discovery_dial :: "BlobCacheGlobalConfig \<Rightarrow> string \<Rightarrow> dial_options" where
  "discovery_dial cfg addr =
     \<lparr>do_TLS = isTLSEnabled addr, do_DialWithTimeout = False, do_MaxMsgSize = gc_GRPCMessageSizeBytes cfg, do_Windows = None, do_Token = None\<rparr>"

definition client_dial :: "BlobCacheGlobalConfig \<Rightarrow> string \<Rightarrow> string \<Rightarrow> dial_options" where
  "client_dial cfg token addr =
     (let initialWindowSize = (if gc_GRPCInitialWindowSize cfg = 0 then 4 * 1024 * 1024 else gc_GRPCInitialWindowSize cfg);
          initialConnWindowSize = (if gc_GRPCInitialConnWindowSize cfg = 0 then 32 * 1024 * 1024 else gc_GRPCInitialConnWindowSize cfg);
          writeBufferSize = (if gc_GRPCWriteBufferSize cfg = 0 then 256 * 1024 else gc_GRPCWriteBufferSize cfg);
          readBufferSize = (if gc_GRPCReadBufferSize cfg = 0 then 256 * 1024 else gc_GRPCReadBufferSize cfg)
      in \<lparr>do_TLS = isTLSEnabled addr, do_DialWithTimeout = True, do_MaxMsgSize = gc_GRPCMessageSizeBytes cfg,
          do_Windows = Some \<lparr>dw_InitialWindowSize = to_int32 initialWindowSize, dw_InitialConnWindowSize = to_int32 initialConnWindowSize,
            dw_WriteBufferSize = writeBufferSize, dw_ReadBufferSize = readBufferSize\<rparr>,
          do_Token = (if token \<noteq> [] then Some token else None)\<rparr>)"

subsection \<open>Properties\<close>

definition default_line :: "string list \<Rightarrow> bool" where
  "default_line fs \<longleftrightarrow> 2 \<le> length fs \<and> fs ! 1 = ''00000000''"

definition usable :: "net_addr \<Rightarrow> bool" where
  "usable a \<longleftrightarrow> addr_ip a \<noteq> [] \<and> \<not> ip_IsLoopback (addr_ip a) \<and> ip_To4 (addr_ip a) \<noteq> None"

lemma default_route_find:
  "default_route ls =
     (if \<exists>f \<in> set (takeWhile (\<lambda>f. \<not> default_line f) (map strings_Fields ls)). length f < 2 then Panic
      else (case find default_line (map strings_Fields ls) of
              Some f \<Rightarrow> Ok (f ! 0)
            | None \<Rightarrow> Err (ErrMsg ''default route not found'')))"
  by (induction ls) (auto simp: default_line_def Let_def)

lemma first_private_find:
  "first_private addrs =
     (case find usable addrs of
        Some a \<Rightarrow> Ok (dotted (the (ip_To4 (addr_ip a))))
      | None \<Rightarrow> Err (ErrMsg ''no active network interface found with a private IP address''))"
  by (induction addrs) (auto simp: usable_def Let_def split: option.splits)

text \<open>
  The private address is that of the interface of the first route whose destination is \<^verbatim>\<open>00000000\<close>: its first address that is IPv4 (or
  IPv4 mapped into IPv6) and not a loopback address, in dotted form. A line with fewer than two fields before that route makes the
  lookup panic; everything else that is missing is an error.
\<close>

lemma private_address_lookup:
  "GetPrivateIpAddr (Some routes) interfaceAddrs =
     (let ls = map strings_Fields (scan_lines routes)
      in if \<exists>f \<in> set (takeWhile (\<lambda>f. \<not> default_line f) ls). length f < 2 then Panic
         else (case find default_line ls of
                 None \<Rightarrow> Err (ErrMsg ''default route not found'')
               | Some f \<Rightarrow>
                   (case interfaceAddrs (f ! 0) of
                      Err e \<Rightarrow> Err e
                    | Panic \<Rightarrow> Panic
                    | Ok addrs \<Rightarrow>
                        (case find usable addrs of
                           None \<Rightarrow> Err (ErrMsg ''no active network interface found with a private IP address'')
                         | Some a \<Rightarrow> Ok (dotted (the (ip_To4 (addr_ip a))))))))"
  by (simp add: GetPrivateIpAddr_def getDefaultInterface_def default_route_find first_private_find Let_def split: option.splits res.splits)


end
