(* ===== verification/Host_Map.thy ===== *)
theory Host_Map
  imports Coordinator Config Network "HOL-Library.Multiset"
begin

text \<open>
  The hosts a client knows: the map of \<^verbatim>\<open>src/pkg/hostmap.go\<close> and the discovery loop of \<^verbatim>\<open>src/pkg/discovery.go\<close> that fills it from the
  coordinator. Go's map is an association list; the order in which it is ranged over and the way \<^verbatim>\<open>sort.Slice\<close> orders hosts that
  compare equal are arguments.
\<close>

subsection \<open>The host map\<close>

record HostMap =
  hm_hosts :: "(string \<times> BlobCacheHost) list"
  hm_cfg :: BlobCacheGlobalConfig

definition NewHostMap :: "BlobCacheGlobalConfig \<Rightarrow> HostMap" where
  "NewHostMap cfg = \<lparr>hm_hosts = [], hm_cfg = cfg\<rparr>"

text \<open>The callback changes a state of its own; the error it returns is dropped.\<close>

definition hm_Set :: "(BlobCacheHost \<Rightarrow> 'w \<Rightarrow> 'w \<times> unit res) option \<Rightarrow> BlobCacheHost \<Rightarrow> HostMap \<times> 'w \<Rightarrow> (HostMap \<times> 'w) \<times> unit res" where
  "hm_Set onHostAdded host s =
     (let (hm, w) = s
      in if map_of (hm_hosts hm) (HostId host) \<noteq> None then ((hm, w), Ok ())
         else
           (let hm = hm\<lparr>hm_hosts := AList.update (HostId host) host (hm_hosts hm)\<rparr>
            in case onHostAdded of
                 None \<Rightarrow> ((hm, w), Ok ())
               | Some added \<Rightarrow> (case added host w of (w', Panic) \<Rightarrow> ((hm, w'), Panic) | (w', _) \<Rightarrow> ((hm, w'), Ok ()))))"

definition hm_Remove :: "HostMap \<Rightarrow> BlobCacheHost \<Rightarrow> HostMap" where
  "hm_Remove hm host =
     (if map_of (hm_hosts hm) (HostId host) = None then hm
      else hm\<lparr>hm_hosts := AList.delete (HostId host) (hm_hosts hm)\<rparr>)"

definition hm_Members :: "HostMap \<Rightarrow> string set" where
  "hm_Members hm = (\<lambda>kv. HostId (snd kv)) ` set (hm_hosts hm)"

definition hm_GetAll :: "((string \<times> BlobCacheHost) list \<Rightarrow> (string \<times> BlobCacheHost) list) \<Rightarrow> HostMap \<Rightarrow> BlobCacheHost list" where
  "hm_GetAll order hm = map snd (order (hm_hosts hm))"

definition hm_Get :: "HostMap \<Rightarrow> string \<Rightarrow> BlobCacheHost option" where
  "hm_Get hm hostId = map_of (hm_hosts hm) hostId"

subsection \<open>Choosing a host\<close>

text \<open>
  Both searches look at the map without its lock, then copy it under the lock: in their \<open>k\<close>-th round they see \<open>peek k\<close> and then \<open>locked k\<close>,
  at \<open>elapsed k\<close> nanoseconds after their start, and sleep a second before the next round.
\<close>

definition rtt_less :: "BlobCacheHost \<Rightarrow> BlobCacheHost \<Rightarrow> bool" where
  "rtt_less a b \<longleftrightarrow> RTT a < RTT b"

definition capacity_less :: "BlobCacheHost \<Rightarrow> BlobCacheHost \<Rightarrow> bool" where
  "capacity_less a b \<longleftrightarrow> (if RTT a \<noteq> RTT b then RTT a < RTT b else CapacityUsagePct a < CapacityUsagePct b)"

partial_function (option) Closest :: "((BlobCacheHost \<Rightarrow> BlobCacheHost \<Rightarrow> bool) \<Rightarrow> BlobCacheHost list \<Rightarrow> BlobCacheHost list)
    \<Rightarrow> (nat \<Rightarrow> HostMap) \<Rightarrow> (nat \<Rightarrow> HostMap) \<Rightarrow> (nat \<Rightarrow> int) \<Rightarrow> int \<Rightarrow> nat \<Rightarrow> BlobCacheHost res option" where
  "Closest slice_sort peek locked elapsed timeout k =
     (if hm_hosts (peek k) \<noteq> [] then
        Some (case slice_sort rtt_less (map snd (hm_hosts (locked k))) of [] \<Rightarrow> Panic | h # _ \<Rightarrow> Ok h)
      else if elapsed k > timeout then Some (Err ErrHostNotFound)
      else Closest slice_sort peek locked elapsed timeout (Suc k))"

partial_function (option) ClosestWithCapacity :: "((BlobCacheHost \<Rightarrow> BlobCacheHost \<Rightarrow> bool) \<Rightarrow> BlobCacheHost list \<Rightarrow> BlobCacheHost list)
    \<Rightarrow> (nat \<Rightarrow> HostMap) \<Rightarrow> (nat \<Rightarrow> HostMap) \<Rightarrow> (nat \<Rightarrow> int) \<Rightarrow> int \<Rightarrow> nat \<Rightarrow> BlobCacheHost res option" where
  "ClosestWithCapacity slice_sort peek locked elapsed timeout k =
     (if hm_hosts (peek k) \<noteq> [] then
        Some (case slice_sort capacity_less (map snd (hm_hosts (locked k))) of [] \<Rightarrow> Err ErrHostNotFound | h # _ \<Rightarrow> Ok h)
      else if elapsed k > timeout then Some (Err ErrHostNotFound)
      else ClosestWithCapacity slice_sort peek locked elapsed timeout (Suc k))"

text \<open>\<^verbatim>\<open>sort.Slice\<close>: some permutation in which no element is less than an earlier one, for a strict weak order.\<close>

definition sorts :: "((BlobCacheHost \<Rightarrow> BlobCacheHost \<Rightarrow> bool) \<Rightarrow> BlobCacheHost list \<Rightarrow> BlobCacheHost list) \<Rightarrow> bool" where
  "sorts slice_sort \<longleftrightarrow>
     (\<forall>lt xs. mset (slice_sort lt xs) = mset xs \<and>
        (transp (\<lambda>a b. \<not> lt b a) \<and> asymp lt \<longrightarrow> sorted_wrt (\<lambda>a b. \<not> lt b a) (slice_sort lt xs)))"

subsection \<open>Discovery\<close>

text \<open>
  What the client asks of a host: \<^verbatim>\<open>grpc.DialContext\<close> of an address and the \<^verbatim>\<open>GetState\<close> call over the connection, which answers with
  the version and the capacity in use.
\<close>

record 'w state_rpc =
  st_Dial :: "'w \<Rightarrow> string \<Rightarrow> dial_options \<Rightarrow> 'w \<times> unit res"
  st_GetState :: "'w \<Rightarrow> string \<Rightarrow> 'w \<times> (string \<times> rat) res"

definition GetHostState :: "'w state_rpc \<Rightarrow> BlobCacheGlobalConfig \<Rightarrow> 'w \<Rightarrow> BlobCacheHost \<Rightarrow> 'w \<times> BlobCacheHost res" where
  "GetHostState G cfg w host =
     (case st_Dial G w (PrivateAddr host) (discovery_dial cfg (if PrivateAddr host \<noteq> [] then PrivateAddr host else Addr host)) of
        (w1, Err e) \<Rightarrow> (w1, Err e)
      | (w1, Panic) \<Rightarrow> (w1, Panic)
      | (w1, Ok _) \<Rightarrow>
          (case st_GetState G w1 (PrivateAddr host) of
             (w2, Err e) \<Rightarrow> (w2, Err e)
           | (w2, Panic) \<Rightarrow> (w2, Panic)
           | (w2, Ok (version, usage)) \<Rightarrow>
               (let host = host\<lparr>RTT := 0, CapacityUsagePct := usage\<rparr>
                in (w2, if version \<noteq> BlobCacheVersion then Err (ErrMsg ''version mismatch'') else Ok host))))"

text \<open>The goroutines of \<^verbatim>\<open>discoverHosts\<close> ask the hosts in some order and append what they learn.\<close>

fun get_states :: "'w state_rpc \<Rightarrow> BlobCacheGlobalConfig \<Rightarrow> 'w \<Rightarrow> BlobCacheHost list \<Rightarrow> BlobCacheHost list \<Rightarrow> 'w \<times> BlobCacheHost list res" where
  "get_states G cfg w [] filteredHosts = (w, Ok filteredHosts)"
| "get_states G cfg w (host # hosts) filteredHosts =
     (case GetHostState G cfg w host of
        (w1, Ok hostState) \<Rightarrow> get_states G cfg w1 hosts (filteredHosts @ [hostState])
      | (w1, Err e) \<Rightarrow> get_states G cfg w1 hosts filteredHosts
      | (w1, Panic) \<Rightarrow> (w1, Panic))"

definition discoverHosts :: "'w coordinator \<Rightarrow> 'w state_rpc \<Rightarrow> BlobCacheGlobalConfig \<Rightarrow> (BlobCacheHost list \<Rightarrow> BlobCacheHost list) \<Rightarrow> string \<Rightarrow> HostMap \<Rightarrow> 'w
    \<Rightarrow> 'w \<times> BlobCacheHost list res" where
  "discoverHosts C G cfg order locality hm w =
     (case co_GetAvailableHosts C w locality of
        (w1, Err e) \<Rightarrow> (w1, Err e)
      | (w1, Panic) \<Rightarrow> (w1, Panic)
      | (w1, Ok hosts) \<Rightarrow> get_states G cfg w1 (order (filter (\<lambda>h. hm_Get hm (HostId h) = None) hosts)) [])"

fun updateHostMap :: "(BlobCacheHost \<Rightarrow> 'u \<Rightarrow> 'u \<times> unit res) option \<Rightarrow> BlobCacheHost list \<Rightarrow> HostMap \<times> 'u \<Rightarrow> (HostMap \<times> 'u) \<times> unit res" where
  "updateHostMap added [] s = (s, Ok ())"
| "updateHostMap added (h # newHosts) s =
     (case hm_Set added h s of
        (s1, Ok _) \<Rightarrow> updateHostMap added newHosts s1
      | (s1, r) \<Rightarrow> (s1, r))"

text \<open>One round of \<^verbatim>\<open>Start\<close>, at its beginning and at every tick: a failed discovery leaves the map as it is.\<close>

definition discovery_round :: "'w coordinator \<Rightarrow> 'w state_rpc \<Rightarrow> BlobCacheGlobalConfig \<Rightarrow> (BlobCacheHost list \<Rightarrow> BlobCacheHost list) \<Rightarrow> string
    \<Rightarrow> (BlobCacheHost \<Rightarrow> 'u \<Rightarrow> 'u \<times> unit res) option \<Rightarrow> 'w \<Rightarrow> HostMap \<times> 'u \<Rightarrow> 'w \<times> (HostMap \<times> 'u) \<times> unit res" where
  "discovery_round C G cfg order locality added w s =
     (case discoverHosts C G cfg order locality (fst s) w of
        (w1, Ok hosts) \<Rightarrow> (w1, updateHostMap added hosts s)
      | (w1, Err e) \<Rightarrow> (w1, s, Ok ())
      | (w1, Panic) \<Rightarrow> (w1, s, Panic))"

subsection \<open>Lemmas\<close>

text \<open>The map files every host under its own id, once.\<close>

definition hm_wf :: "HostMap \<Rightarrow> bool" where
  "hm_wf hm \<longleftrightarrow> distinct (map fst (hm_hosts hm)) \<and> (\<forall>(k, h) \<in> set (hm_hosts hm). k = HostId h)"

lemma NewHostMap_wf: "hm_wf (NewHostMap cfg)"
  by (simp add: hm_wf_def NewHostMap_def)

lemma NewHostMap_Get [simp]: "hm_Get (NewHostMap cfg) i = None"
  by (simp add: hm_Get_def NewHostMap_def)

lemma update_fresh: "map_of xs k = None \<Longrightarrow> AList.update k v xs = xs @ [(k, v)]"
  by (induction xs) (auto split: if_splits)

lemma hm_Set_cases:
  "fst (fst (hm_Set added host (hm, w))) =
     (if hm_Get hm (HostId host) = None then hm\<lparr>hm_hosts := hm_hosts hm @ [(HostId host, host)]\<rparr> else hm)"
  by (auto simp: hm_Set_def hm_Get_def update_fresh Let_def split: option.splits prod.splits res.splits)

lemma hm_Set_wf: "hm_wf hm \<Longrightarrow> hm_wf (fst (fst (hm_Set added host (hm, w))))"
  unfolding hm_Set_cases by (auto simp: hm_wf_def hm_Get_def map_of_eq_None_iff)

lemma hm_Remove_hosts: "hm_hosts (hm_Remove hm host) = filter (\<lambda>kv. fst kv \<noteq> HostId host) (hm_hosts hm)"
proof (cases "map_of (hm_hosts hm) (HostId host) = None")
  case True
  then have "\<forall>kv \<in> set (hm_hosts hm). fst kv \<noteq> HostId host" by (force simp: map_of_eq_None_iff)
  with True show ?thesis by (simp add: hm_Remove_def)
next
  case False
  then show ?thesis by (simp add: hm_Remove_def AList.delete_eq case_prod_unfold eq_commute)
qed

lemma hm_Remove_wf: "hm_wf hm \<Longrightarrow> hm_wf (hm_Remove hm host)"
  unfolding hm_wf_def hm_Remove_hosts by (auto simp: distinct_map intro: inj_on_subset)

lemma map_of_filter_key: "map_of (filter (\<lambda>kv. fst kv \<noteq> k) xs) i = (if i = k then None else map_of xs i)"
  by (induction xs) auto

lemma hm_Get_Remove: "hm_Get (hm_Remove hm host) i = (if i = HostId host then None else hm_Get hm i)"
  unfolding hm_Get_def hm_Remove_hosts by (rule map_of_filter_key)

lemma hm_Get_Set:
  "hm_Get (fst (fst (hm_Set added host (hm, w)))) i =
     (if i = HostId host \<and> hm_Get hm i = None then Some host else hm_Get hm i)"
  unfolding hm_Set_cases by (auto simp: hm_Get_def map_add_def split: option.splits)

lemma hm_Members_wf: "hm_wf hm \<Longrightarrow> hm_Members hm = dom (hm_Get hm)"
  unfolding hm_wf_def hm_Members_def hm_Get_def dom_map_of_conv_image_fst by force

lemma hm_Set_state:
  "hm_Set added host (hm, w) =
     ((fst (fst (hm_Set added host (hm, w))), snd (fst (hm_Set added host (hm, w)))), snd (hm_Set added host (hm, w)))"
  by simp

text \<open>A search by rounds returns in the first round that finds hosts or is past the timeout.\<close>

lemma first_round:
  assumes F: "\<And>k. F k = (if a k then Some (r k) else if b k then Some e else F (Suc k))" and "a n \<or> b n"
  shows "\<exists>k. (a k \<or> b k) \<and> F 0 = Some (if a k then r k else e)"
proof -
  have "\<exists>k. (a k \<or> b k) \<and> F j = Some (if a k then r k else e)" if "j \<le> n" for j
    using that
  proof (induction rule: inc_induct)
    case base
    then show ?case using assms(2) F [of n] by auto
  next
    case (step m)
    then show ?case using F [of m] by (cases "a m \<or> b m") auto
  qed
  then show ?thesis by simp
qed

lemma sorted_head:
  assumes "sorts slice_sort" "transp (\<lambda>a b. \<not> lt b a)" "asymp lt" "slice_sort lt xs = h # hs"
  shows "h \<in> set xs \<and> (\<forall>h' \<in> set xs. \<not> lt h' h)"
proof -
  have m: "mset (h # hs) = mset xs" and "sorted_wrt (\<lambda>a b. \<not> lt b a) (h # hs)"
    using assms unfolding sorts_def by metis+
  moreover have "set xs = set (h # hs)" using m by (metis set_mset_mset)
  ultimately show ?thesis using assms(3) by (auto dest: asympD)
qed

lemma sorts_empty: "sorts slice_sort \<Longrightarrow> slice_sort lt xs = [] \<longleftrightarrow> xs = []"
  unfolding sorts_def by (metis mset_zero_iff)

lemma rtt_order: "transp (\<lambda>a b. \<not> rtt_less b a)" "asymp rtt_less"
  by (auto simp: rtt_less_def transp_def intro!: asympI)

lemma capacity_order: "transp (\<lambda>a b. \<not> capacity_less b a)" "asymp capacity_less"
  by (auto simp: capacity_less_def transp_def intro!: asympI split: if_splits)

text \<open>The host answered with the client's version and the capacity that is recorded for it.\<close>

definition answered :: "'w state_rpc \<Rightarrow> BlobCacheHost \<Rightarrow> bool" where
  "answered G h \<longleftrightarrow> (\<exists>w1 w2. st_GetState G w1 (PrivateAddr h) = (w2, Ok (BlobCacheVersion, CapacityUsagePct h)))"

lemma GetHostState_ok:
  "GetHostState G cfg w host = (w', Ok h) \<Longrightarrow> HostId h = HostId host \<and> RTT h = 0 \<and> answered G h"
  unfolding GetHostState_def answered_def by (fastforce simp: Let_def split: prod.splits res.splits if_splits)

lemma get_states_ok:
  "get_states G cfg w hosts acc = (w', Ok hs) \<Longrightarrow> h \<in> set hs \<Longrightarrow> h \<in> set acc \<or> (RTT h = 0 \<and> answered G h)"
proof (induction G cfg w hosts acc rule: get_states.induct)
  case (2 G cfg w host hosts acc)
  then show ?case
    by (cases "GetHostState G cfg w host"; cases "snd (GetHostState G cfg w host)") (auto dest: GetHostState_ok)
qed simp

lemma updateHostMap_map:
  assumes "updateHostMap added hosts (hm, u) = ((hm', u'), r)" "hm_wf hm"
  shows "hm_wf hm' \<and> (\<forall>i h. hm_Get hm i = Some h \<longrightarrow> hm_Get hm' i = Some h) \<and>
    (\<forall>i h. hm_Get hm' i = Some h \<longrightarrow> hm_Get hm i = Some h \<or> h \<in> set hosts \<and> HostId h = i)"
  using assms
proof (induction hosts arbitrary: hm u)
  case (Cons x hosts)
  obtain hm1 u1 r1 where s: "hm_Set added x (hm, u) = ((hm1, u1), r1)" by (metis prod.collapse)
  have w: "hm_wf hm1" using hm_Set_wf [OF Cons.prems(2), of added x u] s by simp
  have old: "hm_Get hm i = Some h \<Longrightarrow> hm_Get hm1 i = Some h"
    and new: "hm_Get hm1 i = Some h \<Longrightarrow> hm_Get hm i = Some h \<or> h = x \<and> HostId x = i" for i h
    using hm_Get_Set [of added x hm u i] s by (auto split: if_splits)
  show ?case
  proof (cases r1)
    case (Ok z)
    then have "updateHostMap added hosts (hm1, u1) = ((hm', u'), r)" using Cons.prems(1) s by simp
    from Cons.IH [OF this w] show ?thesis using old new by (metis list.set_intros)
  qed (use Cons.prems(1) s w old new in auto)
qed simp

subsection \<open>Properties\<close>


fun insert_by :: "('a \<Rightarrow> 'a \<Rightarrow> bool) \<Rightarrow> 'a \<Rightarrow> 'a list \<Rightarrow> 'a list" where
  "insert_by lt x [] = [x]"
| "insert_by lt x (y # ys) = (if lt y x then y # insert_by lt x ys else x # y # ys)"

definition insertion_sort :: "('a \<Rightarrow> 'a \<Rightarrow> bool) \<Rightarrow> 'a list \<Rightarrow> 'a list" where
  "insertion_sort lt xs = foldr (insert_by lt) xs []"

lemma insert_by_mset: "mset (insert_by lt x ys) = add_mset x (mset ys)"
  by (induction ys) auto

lemma insert_by_set: "set (insert_by lt x ys) = insert x (set ys)"
  by (induction ys) auto

lemma insert_by_sorted:
  assumes "transp (\<lambda>a b. \<not> lt b a)" "asymp lt" "sorted_wrt (\<lambda>a b. \<not> lt b a) ys"
  shows "sorted_wrt (\<lambda>a b. \<not> lt b a) (insert_by lt x ys)"
  using assms(3)
proof (induction ys)
  case (Cons y ys)
  have "\<not> lt z x" if "\<not> lt y x" "z \<in> set ys" for z
    using that Cons.prems assms(1) by (auto dest: transpD [of "\<lambda>a b. \<not> lt b a" x y z])
  then show ?case using Cons assms(2) by (auto simp: insert_by_set dest: asympD)
qed simp

lemma insertion_sorts: "sorts insertion_sort"
proof -
  have "mset (insertion_sort lt xs) = mset xs" for lt and xs :: "BlobCacheHost list"
    by (induction xs) (simp_all add: insertion_sort_def insert_by_mset)
  moreover have "sorted_wrt (\<lambda>a b. \<not> lt b a) (insertion_sort lt xs)"
    if "transp (\<lambda>a b. \<not> lt b a)" "asymp lt" for lt and xs :: "BlobCacheHost list"
    by (induction xs) (simp_all add: insertion_sort_def insert_by_sorted that)
  ultimately show ?thesis unfolding sorts_def by blast
qed

definition sample_host :: "string \<Rightarrow> int \<Rightarrow> rat \<Rightarrow> BlobCacheHost" where
  "sample_host i rtt usage = \<lparr>RTT = rtt, HostId = i, Addr = i @ ''.public:2049'', PrivateAddr = i @ '':2049'', CapacityUsagePct = usage\<rparr>"

definition sample_hosts :: HostMap where
  "sample_hosts = \<lparr>hm_hosts = map (\<lambda>h. (HostId h, h)) [sample_host ''host1'' 20 (3/10), sample_host ''host2'' 10 (7/10),
      sample_host ''host3'' 10 (2/10), sample_host ''host4'' 50 (1/10)], hm_cfg = cfg_Global default_config\<rparr>"


text \<open>
  C30: A round of discovery only adds hosts, each under its own id, and every host it adds has answered \<^verbatim>\<open>GetState\<close> at its private address
  with the version of the client. All of them are recorded with a round trip time of zero, so no later search by round trip time tells
  them apart.
\<close>

theorem discovered_hosts_answered:
  assumes "discovery_round C G cfg order locality added w (hm, u) = (w', (hm', u'), r)" "hm_wf hm"
  shows "hm_wf hm' \<and> (\<forall>i h. hm_Get hm i = Some h \<longrightarrow> hm_Get hm' i = Some h) \<and>
    (\<forall>i h. hm_Get hm' i = Some h \<longrightarrow> hm_Get hm i = Some h \<or> HostId h = i \<and> RTT h = 0 \<and> answered G h)"
proof -
  obtain w1 x where d: "discoverHosts C G cfg order locality hm w = (w1, x)" by fastforce
  show ?thesis
  proof (cases x)
    case (Ok hosts)
    then have u: "updateHostMap added hosts (hm, u) = ((hm', u'), r)" using assms(1) d by (simp add: discovery_round_def)
    have "RTT h = 0 \<and> answered G h" if "h \<in> set hosts" for h
      using d Ok that by (auto simp: discoverHosts_def split: prod.splits res.splits dest: get_states_ok)
    then show ?thesis using updateHostMap_map [OF u assms(2)] by blast
  qed (use assms d in \<open>auto simp: discovery_round_def\<close>)
qed

definition sample_rpc :: "MockCoordinator state_rpc" where
  "sample_rpc = \<lparr>st_Dial = (\<lambda>w _ _. (w, Ok ())), st_GetState = (\<lambda>w a. (w, if a = ''host3:2049'' then Err ErrUnavailable else Ok (BlobCacheVersion, 1/2)))\<rparr>"

definition sample_coord :: MockCoordinator where
  "sample_coord = fst (mock_AddHostToIndex (fst (mock_AddHostToIndex NewMockCoordinator ''default'' (sample_host ''host2'' 5 0)))
     ''default'' (sample_host ''host3'' 5 0))"

theorem discovered_hosts_answered_witness:
  "case discovery_round (mock_coordinator id) sample_rpc (cfg_Global default_config) id ''default'' None sample_coord (NewHostMap (cfg_Global default_config), ()) of
     (w', (hm', u'), r) \<Rightarrow> hm_wf hm' \<and> hm_Get hm' ''host2'' = Some (sample_host ''host2'' 0 (1/2)) \<and>
       answered sample_rpc (sample_host ''host2'' 0 (1/2)) \<and> hm_Get hm' ''host3'' = None"
proof -
  obtain w' hm' u' r where d: "discovery_round (mock_coordinator id) sample_rpc (cfg_Global default_config) id ''default'' None sample_coord
      (NewHostMap (cfg_Global default_config), ()) = (w', (hm', u'), r)"
    by (metis prod.collapse)
  have g: "hm_Get hm' ''host2'' = Some (sample_host ''host2'' 0 (1/2))" "hm_Get hm' ''host3'' = None"
    using d by (auto simp: discovery_round_def discoverHosts_def mock_coordinator_def mock_GetAvailableHosts_def sample_coord_def
        mock_AddHostToIndex_def NewMockCoordinator_def NewHostMap_def sample_host_def sample_rpc_def GetHostState_def hm_Set_def
        hm_Get_def Let_def)
  from discovered_hosts_answered [OF d NewHostMap_wf] g show ?thesis
    unfolding d by simp
qed

end
