(* ===== verification/Go_Sha256.thy ===== *)
theory Go_Sha256
  imports Go_Prelude
begin

text \<open>
  What the code uses of Go's \<^verbatim>\<open>crypto/sha256\<close>, \<^verbatim>\<open>encoding/hex\<close> and \<^verbatim>\<open>encoding/binary\<close>: the SHA-256 digest of a byte string, its
  hexadecimal form, and reading a big-endian 64-bit number. The digests name cached content and file-system nodes.
\<close>

unbundle bit_operations_syntax

subsection \<open>SHA-256\<close>

definition rotr32 :: "nat \<Rightarrow> u32 \<Rightarrow> u32" where
  "rotr32 n w = (drop_bit n w) OR (push_bit (32 - n) w)"

text \<open>
  The constants are the first 32 bits of the fractional parts of the cube roots of the first 64 primes, and of the square roots of the
  first eight. A root is extracted longhand, one binary digit at a time: \<open>y\<close> is the root so far, \<open>y2\<close> its square and \<open>r\<close> the remainder. The
  primes up to 311 are the numbers that no prime up to 17 properly divides.
\<close>

fun cbrt_bits :: "nat \<Rightarrow> int \<Rightarrow> int \<Rightarrow> int \<Rightarrow> int" where
  "cbrt_bits 0 y y2 r = y"
| "cbrt_bits (Suc b) y y2 r =
     (let t = 12 * y2 + 6 * y + 1
      in if t \<le> 8 * r then cbrt_bits b (2 * y + 1) (4 * y2 + 4 * y + 1) (8 * r - t) else cbrt_bits b (2 * y) (4 * y2) (8 * r))"

fun sqrt_bits :: "nat \<Rightarrow> int \<Rightarrow> int \<Rightarrow> int" where
  "sqrt_bits 0 y r = y"
| "sqrt_bits (Suc b) y r =
     (let t = 4 * y + 1 in if t \<le> 4 * r then sqrt_bits b (2 * y + 1) (4 * r - t) else sqrt_bits b (2 * y) (4 * r))"

definition int_root :: "nat \<Rightarrow> int \<Rightarrow> int" where
  "int_root k p = int (length (filter (\<lambda>y. y ^ k \<le> p) [1, 2, 3, 4, 5, 6]))"

definition sha_primes :: "int list" where
  "sha_primes = filter (\<lambda>p. list_all (\<lambda>q. p mod q = 0 \<longrightarrow> p = q) [2, 3, 5, 7, 11, 13, 17]) [2..311]"

definition sha_K :: "u32 list" where
  "sha_K = map (\<lambda>p. let y = int_root 3 p in word_of_int (cbrt_bits 32 y (y * y) (p - y ^ 3))) sha_primes"

definition sha_H0 :: "u32 list" where
  "sha_H0 = map (\<lambda>p. let y = int_root 2 p in word_of_int (sqrt_bits 32 y (p - y ^ 2))) (take 8 sha_primes)"

definition be_word :: "bytes \<Rightarrow> u32" where
  "be_word bs = foldl (\<lambda>w b. push_bit 8 w OR ucast b) 0 bs"

definition word_bytes :: "u32 \<Rightarrow> bytes" where
  "word_bytes w = map (\<lambda>k. ucast (drop_bit k w)) [24, 16, 8, 0]"

definition u64_bytes :: "u64 \<Rightarrow> bytes" where
  "u64_bytes w = map (\<lambda>k. ucast (drop_bit k w)) [56, 48, 40, 32, 24, 16, 8, 0]"

text \<open>A one bit, zeros up to 56 bytes modulo 64, and the length in bits.\<close>

definition sha_pad :: "bytes \<Rightarrow> bytes" where
  "sha_pad m =
     m @ 0x80 # replicate ((119 - length m mod 64) mod 64) 0 @ u64_bytes (of_nat (8 * length m))"

fun chunks_of :: "nat \<Rightarrow> nat \<Rightarrow> 'a list \<Rightarrow> 'a list list" where
  "chunks_of n 0 xs = []"
| "chunks_of n (Suc k) xs = take n xs # chunks_of n k (drop n xs)"

text \<open>The message schedule, latest word first.\<close>

fun sha_extend :: "nat \<Rightarrow> u32 list \<Rightarrow> u32 list" where
  "sha_extend 0 ws = ws"
| "sha_extend (Suc n) ws =
     (let a = ws ! 14; b = ws ! 1;
          s0 = rotr32 7 a XOR rotr32 18 a XOR drop_bit 3 a;
          s1 = rotr32 17 b XOR rotr32 19 b XOR drop_bit 10 b
      in sha_extend n ((ws ! 15 + s0 + ws ! 6 + s1) # ws))"

type_synonym sha_state = "u32 \<times> u32 \<times> u32 \<times> u32 \<times> u32 \<times> u32 \<times> u32 \<times> u32"

definition sha_round :: "sha_state \<Rightarrow> u32 \<times> u32 \<Rightarrow> sha_state" where
  "sha_round st kw =
     (case st of (a, b, c, d, e, f, g, h) \<Rightarrow>
       (let S1 = rotr32 6 e XOR rotr32 11 e XOR rotr32 25 e;
            ch = (e AND f) XOR ((NOT e) AND g);
            t1 = h + S1 + ch + fst kw + snd kw;
            S0 = rotr32 2 a XOR rotr32 13 a XOR rotr32 22 a;
            maj = (a AND b) XOR (a AND c) XOR (b AND c)
        in (t1 + (S0 + maj), a, b, c, d + t1, e, f, g)))"

definition sha_block :: "sha_state \<Rightarrow> bytes \<Rightarrow> sha_state" where
  "sha_block st block =
     (let ws = rev (sha_extend 48 (rev (map be_word (chunks_of 4 16 block))))
      in case (st, foldl sha_round st (zip sha_K ws)) of
           ((a, b, c, d, e, f, g, h), (a', b', c', d', e', f', g', h')) \<Rightarrow>
             (a + a', b + b', c + c', d + d', e + e', f + f', g + g', h + h'))"

definition sha_init :: sha_state where
  "sha_init = (sha_H0 ! 0, sha_H0 ! 1, sha_H0 ! 2, sha_H0 ! 3, sha_H0 ! 4, sha_H0 ! 5, sha_H0 ! 6, sha_H0 ! 7)"

definition sha256 :: "bytes \<Rightarrow> bytes" where
  "sha256 m =
     (let p = sha_pad m
      in case foldl sha_block sha_init (chunks_of 64 (length p div 64) p) of
           (a, b, c, d, e, f, g, h) \<Rightarrow> concat (map word_bytes [a, b, c, d, e, f, g, h]))"

subsection \<open>Hexadecimal\<close>

definition hex_digit :: "nat \<Rightarrow> char" where
  "hex_digit n = ''0123456789abcdef'' ! n"

definition hex_EncodeToString :: "bytes \<Rightarrow> string" where
  "hex_EncodeToString bs = concat (map (\<lambda>b. [hex_digit (unat b div 16), hex_digit (unat b mod 16)]) bs)"

definition hex_value :: "char \<Rightarrow> nat option" where
  "hex_value c =
     (let n = (of_char c :: nat)
      in if 48 \<le> n \<and> n \<le> 57 then Some (n - 48)
         else if 97 \<le> n \<and> n \<le> 102 then Some (n - 87)
         else if 65 \<le> n \<and> n \<le> 70 then Some (n - 55)
         else None)"

text \<open>\<^verbatim>\<open>hex.DecodeString\<close>: an odd length or a character that is no digit is an error.\<close>

fun hex_DecodeString :: "string \<Rightarrow> bytes option" where
  "hex_DecodeString [] = Some []"
| "hex_DecodeString [c] = None"
| "hex_DecodeString (c # d # cs) =
     (case (hex_value c, hex_value d, hex_DecodeString cs) of
        (Some x, Some y, Some bs) \<Rightarrow> Some (of_nat (16 * x + y) # bs)
      | _ \<Rightarrow> None)"

definition be_u64 :: "bytes \<Rightarrow> u64" where
  "be_u64 bs = foldl (\<lambda>w b. push_bit 8 w OR ucast b) 0 bs"

definition string_bytes :: "string \<Rightarrow> bytes" where
  "string_bytes s = map of_char s"

subsection \<open>Lemmas\<close>

text \<open>The digits extracted longhand are those of the root: the largest number whose power does not exceed the scaled argument.\<close>

lemma cbrt_bits_root:
  assumes "0 \<le> y" "y2 = y ^ 2" "r = n - y ^ 3" "y ^ 3 \<le> n" "n < (y + 1) ^ 3"
  shows "cbrt_bits b y y2 r ^ 3 \<le> n * 8 ^ b \<and> n * 8 ^ b < (cbrt_bits b y y2 r + 1) ^ 3"
  using assms
proof (induction b arbitrary: y y2 r n)
  case (Suc b)
  define t where "t = 12 * y2 + 6 * y + 1"
  have t: "(2 * y + 1) ^ 3 = (2 * y) ^ 3 + t" "8 * r = 8 * n - (2 * y) ^ 3" "(2 * y) ^ 3 = 8 * y ^ 3"
    using Suc.prems by (simp_all add: t_def power3_eq_cube power2_eq_square algebra_simps)
  have up: "8 * n < (2 * y + 1 + 1) ^ 3"
    using Suc.prems(5) by (simp add: power3_eq_cube algebra_simps)
  have n: "n * 8 ^ Suc b = (8 * n) * 8 ^ b" by simp
  show ?case
  proof (cases "t \<le> 8 * r")
    case True
    have "4 * y2 + 4 * y + 1 = (2 * y + 1) ^ 2" using Suc.prems(2) by (simp add: power2_eq_square algebra_simps)
    with Suc.IH [of "2 * y + 1" "4 * y2 + 4 * y + 1" "8 * r - t" "8 * n"] True Suc.prems(1) t up
    show ?thesis unfolding n by (simp add: t_def Let_def)
  next
    case False
    have "4 * y2 = (2 * y) ^ 2" using Suc.prems(2) by (simp add: power2_eq_square)
    with Suc.IH [of "2 * y" "4 * y2" "8 * r" "8 * n"] False Suc.prems(1,4) t
    show ?thesis unfolding n by (simp add: t_def Let_def)
  qed
qed simp

lemma sqrt_bits_root:
  assumes "0 \<le> y" "r = n - y ^ 2" "y ^ 2 \<le> n" "n < (y + 1) ^ 2"
  shows "sqrt_bits b y r ^ 2 \<le> n * 4 ^ b \<and> n * 4 ^ b < (sqrt_bits b y r + 1) ^ 2"
  using assms
proof (induction b arbitrary: y r n)
  case (Suc b)
  define t where "t = 4 * y + 1"
  have t: "(2 * y + 1) ^ 2 = (2 * y) ^ 2 + t" "4 * r = 4 * n - (2 * y) ^ 2" "(2 * y) ^ 2 = 4 * y ^ 2"
    using Suc.prems by (simp_all add: t_def power2_eq_square algebra_simps)
  have up: "4 * n < (2 * y + 1 + 1) ^ 2"
    using Suc.prems(4) by (simp add: power2_eq_square algebra_simps)
  have n: "n * 4 ^ Suc b = (4 * n) * 4 ^ b" by simp
  show ?case
    using Suc.IH [of "2 * y + 1" "4 * r - t" "4 * n"] Suc.IH [of "2 * y" "4 * r" "4 * n"] Suc.prems(1,3) t up
    unfolding n by (cases "t \<le> 4 * r") (simp_all add: t_def Let_def)
qed simp

lemma word_bytes_length [simp]: "length (word_bytes w) = 4"
  by (simp add: word_bytes_def)

lemma sha256_length [simp]: "length (sha256 m) = 32"
  by (simp add: sha256_def Let_def split: prod.splits)

lemma hex_length [simp]: "length (hex_EncodeToString bs) = 2 * length bs"
  by (induction bs) (simp_all add: hex_EncodeToString_def)

lemma hex_cons: "hex_EncodeToString (b # bs) = hex_digit (unat b div 16) # hex_digit (unat b mod 16) # hex_EncodeToString bs"
  by (simp add: hex_EncodeToString_def)

lemma hex_value_digit: "n < 16 \<Longrightarrow> hex_value (hex_digit n) = Some n"
proof -
  have "\<forall>n \<in> set [0..<16]. hex_value (hex_digit n) = Some n" by code_simp
  then show "n < 16 \<Longrightarrow> hex_value (hex_digit n) = Some n" by simp
qed

lemma byte_digits: "unat (b :: byte) div 16 < 16" "unat b mod 16 < 16"
proof -
  have "unat b < 256" by (rule order.strict_trans2 [OF unsigned_less]) simp
  then show "unat b div 16 < 16" "unat b mod 16 < 16" by simp_all
qed

lemma hex_Decode_Encode: "hex_DecodeString (hex_EncodeToString bs) = Some bs"
proof (induction bs)
  case (Cons b bs)
  then show ?case by (simp add: hex_cons hex_value_digit byte_digits)
qed (simp add: hex_EncodeToString_def)

lemma hex_Encode_inj: "hex_EncodeToString a = hex_EncodeToString b \<longleftrightarrow> a = b"
  by (metis hex_Decode_Encode option.inject)

lemma hex_take: "take (2 * n) (hex_EncodeToString bs) = hex_EncodeToString (take n bs)"
proof (induction bs arbitrary: n)
  case (Cons b bs)
  then show ?case by (cases n) (simp_all add: hex_cons, simp add: hex_EncodeToString_def)
qed (simp add: hex_EncodeToString_def)

text \<open>A known digest.\<close>

lemma sha256_digest:
  "hex_EncodeToString (sha256 [1, 2, 3, 4, 5, 6]) = ''7192385c3c0605de55bb9476ce1d90748190ecb32a8eed7f5207b30cf6a1fe89''"
  by code_simp

end
