(* ===== verification/Coordinator_Laws.thy ===== *)
theory Coordinator_Laws
  imports Coordinator
begin

text \<open>
  The contract of the file-system part of a coordinator, as a locale over an abstract tree of nodes, and its interpretations: the
  in-memory coordinator, the local coordinator over any Redis that keeps its contract, and the remote coordinator in front of either
  of them, over a network that loses messages. Inode numbers and generations are not part of the contract: the wire drops the former and
  Redis counts the latter.
\<close>

definition node_core :: "BlobFsMetadata \<Rightarrow> BlobFsMetadata" where
  "node_core md = md\<lparr>md_Ino := 0, md_Gen := 0\<rparr>"

subsection \<open>The contract\<close>

text \<open>A call that does not report success may or may not have taken effect, never anything else.\<close>

locale fs_coordinator =
  fixes C :: "'s coordinator" and inv :: "'s \<Rightarrow> bool" and valid :: "string \<Rightarrow> bool"
    and nodes :: "'s \<Rightarrow> string \<Rightarrow> BlobFsMetadata option" and kids :: "'s \<Rightarrow> string \<Rightarrow> string set"
  assumes set_node: "inv s \<Longrightarrow> co_SetFsNode C s i md = (s', x) \<Longrightarrow>
      inv s' \<and> x \<noteq> Panic \<and> kids s' = kids s \<and> (nodes s' = (nodes s)(i \<mapsto> node_core md) \<or> x \<noteq> Ok () \<and> nodes s' = nodes s)"
    and get_node: "inv s \<Longrightarrow> co_GetFsNode C s i = (s', y) \<Longrightarrow>
      inv s' \<and> y \<noteq> Panic \<and> kids s' = kids s \<and> nodes s' = nodes s \<and> (\<forall>md. y = Ok md \<longrightarrow> nodes s i = Some (node_core md))"
    and remove_node: "inv s \<Longrightarrow> valid i \<Longrightarrow> co_RemoveFsNode C s i = (s', x) \<Longrightarrow>
      inv s' \<and> x \<noteq> Panic \<and> kids s' = kids s \<and> (nodes s' = (nodes s)(i := None) \<or> x \<noteq> Ok () \<and> nodes s' = nodes s)"
    and add_child: "inv s \<Longrightarrow> co_AddFsNodeChild C s p i = (s', x) \<Longrightarrow>
      inv s' \<and> x \<noteq> Panic \<and> nodes s' = nodes s \<and> (kids s' = (kids s)(p := insert i (kids s p)) \<or> x \<noteq> Ok () \<and> kids s' = kids s)"
    and remove_child: "inv s \<Longrightarrow> co_RemoveFsNodeChild C s p i = (s', x) \<Longrightarrow>
      inv s' \<and> x \<noteq> Panic \<and> nodes s' = nodes s \<and> (kids s' = (kids s)(p := kids s p - {i}) \<or> x \<noteq> Ok () \<and> kids s' = kids s)"
    and get_children: "inv s \<Longrightarrow> co_GetFsNodeChildren C s i = (s', z) \<Longrightarrow>
      inv s' \<and> z \<noteq> Panic \<and> kids s' = kids s \<and> nodes s' = nodes s \<and>
      (\<forall>mds. z = Ok mds \<longrightarrow> (\<forall>md \<in> set mds. \<exists>j \<in> kids s i. nodes s j = Some (node_core md)))"

subsection \<open>The in-memory coordinator\<close>

definition mock_nodes :: "MockCoordinator \<Rightarrow> string \<Rightarrow> BlobFsMetadata option" where
  "mock_nodes m i = map_option node_core (mk_fsNodes m i)"

definition mock_kids :: "MockCoordinator \<Rightarrow> string \<Rightarrow> string set" where
  "mock_kids m i = (case mk_fsChildren m i of Some cs \<Rightarrow> set cs | None \<Rightarrow> {})"

lemmas mock_ops = mock_coordinator_def mock_SetFsNode_def mock_GetFsNode_def mock_RemoveFsNode_def mock_AddFsNodeChild_def
  mock_RemoveFsNodeChild_def mock_GetFsNodeChildren_def

interpretation mock: fs_coordinator "mock_coordinator order" "\<lambda>_. True" "\<lambda>_. True" mock_nodes mock_kids for order
proof
  fix s s' :: MockCoordinator and i p md x y z
  show "co_SetFsNode (mock_coordinator order) s i md = (s', x) \<Longrightarrow> True \<and> x \<noteq> Panic \<and> mock_kids s' = mock_kids s \<and>
      (mock_nodes s' = (mock_nodes s)(i \<mapsto> node_core md) \<or> x \<noteq> Ok () \<and> mock_nodes s' = mock_nodes s)"
    by (auto simp: mock_ops mock_nodes_def mock_kids_def fun_eq_iff)
  show "co_GetFsNode (mock_coordinator order) s i = (s', y) \<Longrightarrow> True \<and> y \<noteq> Panic \<and> mock_kids s' = mock_kids s \<and> mock_nodes s' = mock_nodes s \<and>
      (\<forall>md. y = Ok md \<longrightarrow> mock_nodes s i = Some (node_core md))"
    by (auto simp: mock_ops mock_nodes_def split: option.splits)
  show "co_RemoveFsNode (mock_coordinator order) s i = (s', x) \<Longrightarrow> True \<and> x \<noteq> Panic \<and> mock_kids s' = mock_kids s \<and>
      (mock_nodes s' = (mock_nodes s)(i := None) \<or> x \<noteq> Ok () \<and> mock_nodes s' = mock_nodes s)"
    by (auto simp: mock_ops mock_nodes_def mock_kids_def fun_eq_iff)
  show "co_AddFsNodeChild (mock_coordinator order) s p i = (s', x) \<Longrightarrow> True \<and> x \<noteq> Panic \<and> mock_nodes s' = mock_nodes s \<and>
      (mock_kids s' = (mock_kids s)(p := insert i (mock_kids s p)) \<or> x \<noteq> Ok () \<and> mock_kids s' = mock_kids s)"
    by (auto simp: mock_ops mock_nodes_def mock_kids_def fun_eq_iff Let_def split: option.splits if_splits)
  show "co_RemoveFsNodeChild (mock_coordinator order) s p i = (s', x) \<Longrightarrow> True \<and> x \<noteq> Panic \<and> mock_nodes s' = mock_nodes s \<and>
      (mock_kids s' = (mock_kids s)(p := mock_kids s p - {i}) \<or> x \<noteq> Ok () \<and> mock_kids s' = mock_kids s)"
    by (auto simp: mock_ops mock_nodes_def mock_kids_def fun_eq_iff split: option.splits)
  show "co_GetFsNodeChildren (mock_coordinator order) s i = (s', z) \<Longrightarrow> True \<and> z \<noteq> Panic \<and> mock_kids s' = mock_kids s \<and> mock_nodes s' = mock_nodes s \<and>
      (\<forall>mds. z = Ok mds \<longrightarrow> (\<forall>md \<in> set mds. \<exists>j \<in> mock_kids s i. mock_nodes s j = Some (node_core md)))"
    by (fastforce simp: mock_ops mock_nodes_def mock_kids_def map_filter_def split: option.splits)
qed

subsection \<open>The local coordinator\<close>

definition local_inv :: "'r redis \<Rightarrow> ('r \<Rightarrow> redis_view) \<Rightarrow> 'r CoordinatorClientLocal \<Rightarrow> bool" where
  "local_inv D vw c \<longleftrightarrow> redis_contract D vw"

definition local_nodes :: "codec \<Rightarrow> ('r \<Rightarrow> redis_view) \<Rightarrow> 'r CoordinatorClientLocal \<Rightarrow> string \<Rightarrow> BlobFsMetadata option" where
  "local_nodes cd vw c i = map_option node_core (fs_node cd (mview vw (lc_metadata c)) i)"

definition local_kids :: "('r \<Rightarrow> redis_view) \<Rightarrow> 'r CoordinatorClientLocal \<Rightarrow> string \<Rightarrow> string set" where
  "local_kids vw c = fs_kids (mview vw (lc_metadata c))"

text \<open>The key of a node must not be the key of the children of another one.\<close>

definition proper_id :: "string \<Rightarrow> bool" where
  "proper_id i \<longleftrightarrow> (\<forall>j. i \<noteq> j @ '':children'')"

lemma bump_core [simp]: "node_core (bump_gen old md) = node_core md"
  by (simp add: node_core_def bump_gen_def split: option.splits)

lemma on_metadata_eq: "on_metadata c z = (c', x) \<Longrightarrow> z = (lc_metadata c', x)"
  by (cases z) (auto simp: on_metadata_def)

lemma local_nodes_upd:
  "fs_node cd (mview vw (lc_metadata c')) = (fs_node cd (mview vw (lc_metadata c)))(i := v) \<Longrightarrow>
   local_nodes cd vw c' = (local_nodes cd vw c)(i := map_option node_core v)"
  by (auto simp: local_nodes_def fun_eq_iff)

lemma local_nodes_same:
  "fs_node cd (mview vw (lc_metadata c')) = fs_node cd (mview vw (lc_metadata c)) \<Longrightarrow> local_nodes cd vw c' = local_nodes cd vw c"
  by (simp add: local_nodes_def fun_eq_iff)

interpretation local: fs_coordinator "local_coordinator D cd" "local_inv D vw" proper_id "local_nodes cd vw" "local_kids vw" for D :: "'r redis" and cd vw
proof (unfold_locales, unfold local_inv_def)
  fix s s' :: "'r CoordinatorClientLocal" and i p md x y z
  assume c: "redis_contract D vw"
  let ?m = "lc_metadata s" and ?m' = "lc_metadata s'"
  show "redis_contract D vw \<and> x \<noteq> Panic \<and> local_kids vw s' = local_kids vw s \<and>
      (local_nodes cd vw s' = (local_nodes cd vw s)(i \<mapsto> node_core md) \<or> x \<noteq> Ok () \<and> local_nodes cd vw s' = local_nodes cd vw s)"
    if "co_SetFsNode (local_coordinator D cd) s i md = (s', x)"
  proof -
    have "meta_SetFsNode D cd ?m i md = (?m', x)" using that on_metadata_eq by (simp add: local_coordinator_def)
    from SetFsNode_law [OF c this] show ?thesis
      using c local_nodes_upd [of cd vw s' s i] local_nodes_same [of cd vw s' s]
      by (cases "x = Ok ()") (auto simp: local_kids_def Let_def)
  qed
  show "redis_contract D vw \<and> y \<noteq> Panic \<and> local_kids vw s' = local_kids vw s \<and> local_nodes cd vw s' = local_nodes cd vw s \<and>
      (\<forall>md. y = Ok md \<longrightarrow> local_nodes cd vw s i = Some (node_core md))"
    if "co_GetFsNode (local_coordinator D cd) s i = (s', y)"
  proof -
    have g: "meta_GetFsNode D cd ?m i = (?m', y)" using that on_metadata_eq by (simp add: local_coordinator_def)
    note law = GetFsNode_law [OF c g]
    show ?thesis
      using c law(3,4) local_nodes_same [OF tick_fs(1) [OF law(1)]] tick_fs(2) [OF law(1)]
      by (auto simp: local_kids_def local_nodes_def)
  qed
  show "redis_contract D vw \<and> x \<noteq> Panic \<and> local_kids vw s' = local_kids vw s \<and>
      (local_nodes cd vw s' = (local_nodes cd vw s)(i := None) \<or> x \<noteq> Ok () \<and> local_nodes cd vw s' = local_nodes cd vw s)"
    if "proper_id i" "co_RemoveFsNode (local_coordinator D cd) s i = (s', x)"
  proof -
    have "meta_RemoveFsNode D ?m i = (?m', x)" using that on_metadata_eq by (simp add: local_coordinator_def)
    from RemoveFsNode_law [OF c this, of cd] that(1) show ?thesis
      using c local_nodes_upd [of cd vw s' s i None] local_nodes_same [of cd vw s' s]
      by (cases "x = Ok ()") (auto simp: local_kids_def Let_def proper_id_def)
  qed
  show "redis_contract D vw \<and> x \<noteq> Panic \<and> local_nodes cd vw s' = local_nodes cd vw s \<and>
      (local_kids vw s' = (local_kids vw s)(p := insert i (local_kids vw s p)) \<or> x \<noteq> Ok () \<and> local_kids vw s' = local_kids vw s)"
    if "co_AddFsNodeChild (local_coordinator D cd) s p i = (s', x)"
  proof -
    have "meta_AddFsNodeChild D ?m p i = (?m', x)" using that on_metadata_eq by (simp add: local_coordinator_def)
    from AddFsNodeChild_law [OF c this, of cd] show ?thesis
      using c local_nodes_same [of cd vw s' s] by (cases "x = Ok ()") (auto simp: local_kids_def Let_def)
  qed
  show "redis_contract D vw \<and> x \<noteq> Panic \<and> local_nodes cd vw s' = local_nodes cd vw s \<and>
      (local_kids vw s' = (local_kids vw s)(p := local_kids vw s p - {i}) \<or> x \<noteq> Ok () \<and> local_kids vw s' = local_kids vw s)"
    if "co_RemoveFsNodeChild (local_coordinator D cd) s p i = (s', x)"
  proof -
    have "meta_RemoveFsNodeChild D ?m p i = (?m', x)" using that on_metadata_eq by (simp add: local_coordinator_def)
    from RemoveFsNodeChild_law [OF c this, of cd] show ?thesis
      using c local_nodes_same [of cd vw s' s] by (cases "x = Ok ()") (auto simp: local_kids_def Let_def)
  qed
  show "redis_contract D vw \<and> z \<noteq> Panic \<and> local_kids vw s' = local_kids vw s \<and> local_nodes cd vw s' = local_nodes cd vw s \<and>
      (\<forall>mds. z = Ok mds \<longrightarrow> (\<forall>md \<in> set mds. \<exists>j \<in> local_kids vw s i. local_nodes cd vw s j = Some (node_core md)))"
    if "co_GetFsNodeChildren (local_coordinator D cd) s i = (s', z)"
  proof -
    have g: "meta_GetFsNodeChildren D cd ?m i = (?m', z)" using that on_metadata_eq by (simp add: local_coordinator_def)
    note law = GetFsNodeChildren_law [OF c g]
    have t: "tick (mview vw ?m) (mview vw ?m')" using law by blast
    show ?thesis
      using c law local_nodes_same [OF tick_fs(1) [OF t]] tick_fs(2) [OF t] by (fastforce simp: local_kids_def local_nodes_def)
  qed
qed

subsection \<open>The remote coordinator\<close>

lemma rpc_cases:
  assumes "rpc h n q = (n', y)"
  obtains "nt_server n' = nt_server n" "y = Err ErrUnavailable"
  | x where "h (nt_server n) q = (nt_server n', x)" "y = x \<or> x \<noteq> Panic \<and> y = Err ErrUnavailable"
  using assms unfolding rpc_def by (auto split: list.splits fate.splits prod.splits if_splits)

text \<open>An operation with an \<^verbatim>\<open>Ok\<close> flag, called remotely, does on the server what it does there, or nothing.\<close>

lemma remote_unit_op:
  assumes "rpc_ok msg h n q = (n', y)" "h (nt_server n) q = ok_response z"
  shows "(\<exists>e. y = Err e) \<and> nt_server n' = nt_server n \<or>
    nt_server n' = fst z \<and> (if snd z = Panic then y = Panic else (\<exists>e. y = Err e) \<or> y = Ok () \<and> (\<exists>v. snd z = Ok v))"
  using assms by (cases z rule: ok_response.cases) (auto simp: rpc_ok_def rpc_def split: list.splits fate.splits)

lemma wire_node: "srv_request_node (rem_request_node md) = md\<lparr>md_Ino := 0\<rparr>"
  "rem_response_node (meta_ToProto md) = md\<lparr>md_Ino := 0\<rparr>" "rem_child_node (meta_ToProto md) = md\<lparr>md_Ino := 0\<rparr>"
  by (simp_all add: srv_request_node_def rem_request_node_def rem_response_node_def rem_child_node_def meta_ToProto_def
      zero_pb_BlobFsMetadata_def zero_BlobFsMetadata_def)

lemma core_wire [simp]: "node_core (md\<lparr>md_Ino := 0\<rparr>) = node_core md"
  by (simp add: node_core_def)

lemmas remote_ops = remote_coordinator_def rem_SetFsNode_def rem_RemoveFsNode_def rem_AddFsNodeChild_def
  rem_RemoveFsNodeChild_def srv_SetFsNode_def srv_RemoveFsNode_def srv_AddFsNodeChild_def srv_RemoveFsNodeChild_def

context fs_coordinator
begin

lemma remote_contract:
  "fs_coordinator (remote_coordinator f32 cfg C) (\<lambda>n. inv (nt_server n)) valid (\<lambda>n. nodes (nt_server n)) (\<lambda>n. kids (nt_server n))"
proof
  fix n n' :: "'s net" and i p md x y z
  assume inv: "inv (nt_server n)"
  show "inv (nt_server n') \<and> x \<noteq> Panic \<and> kids (nt_server n') = kids (nt_server n) \<and>
      (nodes (nt_server n') = (nodes (nt_server n))(i \<mapsto> node_core md) \<or> x \<noteq> Ok () \<and> nodes (nt_server n') = nodes (nt_server n))"
    if op: "co_SetFsNode (remote_coordinator f32 cfg C) n i md = (n', x)"
  proof -
    obtain s' x' where s': "co_SetFsNode C (nt_server n) i (md\<lparr>md_Ino := 0\<rparr>) = (s', x')" by fastforce
    have "rpc_ok ''failed to set fs node'' (srv_SetFsNode C) n (i, rem_request_node md) = (n', x)"
      using op by (simp add: remote_ops)
    from remote_unit_op [OF this, of "(s', x')"] s' set_node [OF inv s'] inv show ?thesis
      by (auto simp: srv_SetFsNode_def wire_node split: if_splits)
  qed
  show "inv (nt_server n') \<and> x \<noteq> Panic \<and> kids (nt_server n') = kids (nt_server n) \<and>
      (nodes (nt_server n') = (nodes (nt_server n))(i := None) \<or> x \<noteq> Ok () \<and> nodes (nt_server n') = nodes (nt_server n))"
    if "valid i" and op: "co_RemoveFsNode (remote_coordinator f32 cfg C) n i = (n', x)"
  proof -
    obtain s' x' where s': "co_RemoveFsNode C (nt_server n) i = (s', x')" by fastforce
    have "rpc_ok ''failed to remove fs node'' (srv_RemoveFsNode C) n i = (n', x)" using op by (simp add: remote_ops)
    from remote_unit_op [OF this, of "(s', x')"] s' remove_node [OF inv that(1) s'] inv show ?thesis
      by (auto simp: srv_RemoveFsNode_def split: if_splits)
  qed
  show "inv (nt_server n') \<and> x \<noteq> Panic \<and> nodes (nt_server n') = nodes (nt_server n) \<and>
      (kids (nt_server n') = (kids (nt_server n))(p := insert i (kids (nt_server n) p)) \<or> x \<noteq> Ok () \<and> kids (nt_server n') = kids (nt_server n))"
    if op: "co_AddFsNodeChild (remote_coordinator f32 cfg C) n p i = (n', x)"
  proof -
    obtain s' x' where s': "co_AddFsNodeChild C (nt_server n) p i = (s', x')" by fastforce
    have "rpc_ok ''failed to add fs node child'' (srv_AddFsNodeChild C) n (p, i) = (n', x)" using op by (simp add: remote_ops)
    from remote_unit_op [OF this, of "(s', x')"] s' add_child [OF inv s'] inv show ?thesis
      by (auto simp: srv_AddFsNodeChild_def split: if_splits)
  qed
  show "inv (nt_server n') \<and> x \<noteq> Panic \<and> nodes (nt_server n') = nodes (nt_server n) \<and>
      (kids (nt_server n') = (kids (nt_server n))(p := kids (nt_server n) p - {i}) \<or> x \<noteq> Ok () \<and> kids (nt_server n') = kids (nt_server n))"
    if op: "co_RemoveFsNodeChild (remote_coordinator f32 cfg C) n p i = (n', x)"
  proof -
    obtain s' x' where s': "co_RemoveFsNodeChild C (nt_server n) p i = (s', x')" by fastforce
    have "rpc_ok ''failed to remove fs node child'' (srv_RemoveFsNodeChild C) n (p, i) = (n', x)" using op by (simp add: remote_ops)
    from remote_unit_op [OF this, of "(s', x')"] s' remove_child [OF inv s'] inv show ?thesis
      by (auto simp: srv_RemoveFsNodeChild_def split: if_splits)
  qed
  show "inv (nt_server n') \<and> y \<noteq> Panic \<and> kids (nt_server n') = kids (nt_server n) \<and> nodes (nt_server n') = nodes (nt_server n) \<and>
      (\<forall>md. y = Ok md \<longrightarrow> nodes (nt_server n) i = Some (node_core md))"
    if op: "co_GetFsNode (remote_coordinator f32 cfg C) n i = (n', y)"
  proof -
    obtain s' y' where s': "co_GetFsNode C (nt_server n) i = (s', y')" by fastforce
    obtain r where r: "rpc (srv_GetFsNode C) n i = (n', r)"
      using op by (auto simp: remote_coordinator_def rem_GetFsNode_def split: prod.splits res.splits if_splits option.splits)
    from r show ?thesis
      using op r s' get_node [OF inv s'] inv
      by (cases rule: rpc_cases; cases y')
        (auto simp: remote_coordinator_def rem_GetFsNode_def srv_GetFsNode_def wire_node)
  qed
  show "inv (nt_server n') \<and> z \<noteq> Panic \<and> kids (nt_server n') = kids (nt_server n) \<and> nodes (nt_server n') = nodes (nt_server n) \<and>
      (\<forall>mds. z = Ok mds \<longrightarrow> (\<forall>md \<in> set mds. \<exists>j \<in> kids (nt_server n) i. nodes (nt_server n) j = Some (node_core md)))"
    if op: "co_GetFsNodeChildren (remote_coordinator f32 cfg C) n i = (n', z)"
  proof -
    obtain s' z' where s': "co_GetFsNodeChildren C (nt_server n) i = (s', z')" by fastforce
    obtain r where r: "rpc (srv_GetFsNodeChildren C) n i = (n', r)"
      using op by (auto simp: remote_coordinator_def rem_GetFsNodeChildren_def split: prod.splits res.splits if_splits)
    from r show ?thesis
      using op r s' get_children [OF inv s'] inv
      by (cases rule: rpc_cases; cases z')
        (auto simp: remote_coordinator_def rem_GetFsNodeChildren_def srv_GetFsNodeChildren_def wire_node)
  qed
qed

end

interpretation remote_local: fs_coordinator "remote_coordinator f32 cfg (local_coordinator D cd)" "\<lambda>n. local_inv D vw (nt_server n)"
    proper_id "\<lambda>n. local_nodes cd vw (nt_server n)" "\<lambda>n. local_kids vw (nt_server n)" for f32 cfg and D :: "'r redis" and cd vw
  by (rule local.remote_contract)

interpretation remote_mock: fs_coordinator "remote_coordinator f32 cfg (mock_coordinator order)" "\<lambda>_. True" "\<lambda>_. True"
    "\<lambda>n. mock_nodes (nt_server n)" "\<lambda>n. mock_kids (nt_server n)" for f32 cfg order
  by (rule mock.remote_contract)

end
