(* ===== verification/Fs_Ids.thy ===== *)
theory Fs_Ids
  imports Go_Sha256 Cas_Correct Coordinator_Laws
begin

text \<open>
  The identifiers of \<^verbatim>\<open>src/pkg/blobfs.go\<close>: a node is named by the SHA-256 digest of its path, its inode number is the first eight bytes
  of the digest, and content is named by the digest of its bytes (\<^verbatim>\<open>store\<close> of \<^verbatim>\<open>src/pkg/server.go\<close>).
\<close>

definition GenerateFsID :: "string \<Rightarrow> string" where
  "GenerateFsID name = hex_EncodeToString (sha256 (string_bytes name))"

definition SHA1StringToUint64 :: "string \<Rightarrow> u64 res" where
  "SHA1StringToUint64 hash =
     (if length hash < 16 then Panic
      else case hex_DecodeString (take 16 hash) of
             None \<Rightarrow> Err (ErrMsg ''encoding/hex: invalid byte'')
           | Some bs \<Rightarrow> Ok (be_u64 bs))"

definition content_hash :: "bytes \<Rightarrow> string" where
  "content_hash content = hex_EncodeToString (sha256 content)"

lemma GenerateFsID_content: "GenerateFsID p = content_hash (string_bytes p)"
  by (simp add: GenerateFsID_def content_hash_def)

lemma hex_digit_hex: "n < 16 \<Longrightarrow> is_hex (hex_digit n)"
proof -
  have "\<forall>n \<in> set [0..<16]. is_hex (hex_digit n)" by code_simp
  then show "n < 16 \<Longrightarrow> is_hex (hex_digit n)" by simp
qed

lemma hex_Encode_hex: "list_all is_hex (hex_EncodeToString bs)"
proof (induction bs)
  case (Cons b bs)
  then show ?case by (simp add: hex_cons hex_digit_hex byte_digits)
qed (simp add: hex_EncodeToString_def)

lemma content_hash_hex [simp]: "hex_name (content_hash c)"
proof -
  have "length (content_hash c) = 64" by (simp add: content_hash_def)
  then have "content_hash c \<noteq> []" by auto
  then show ?thesis using hex_Encode_hex [of "sha256 c"] by (simp add: hex_name_def content_hash_def)
qed

lemma FsID_length [simp]: "length (GenerateFsID p) = 64"
  by (simp add: GenerateFsID_def)

lemma FsID_proper [simp]: "proper_id (GenerateFsID p)"
proof -
  have "CHR '':'' \<notin> set (GenerateFsID p)"
    using hex_nameD [OF content_hash_hex, of "CHR '':''" "string_bytes p"] by (simp add: GenerateFsID_content is_hex_def)
  then show ?thesis by (auto simp: proper_id_def)
qed

text \<open>The inode number of a generated identifier is always there, and is the first eight bytes of the digest.\<close>

lemma FsID_inode: "SHA1StringToUint64 (GenerateFsID p) = Ok (be_u64 (take 8 (sha256 (string_bytes p))))"
proof -
  have "take 16 (GenerateFsID p) = hex_EncodeToString (take 8 (sha256 (string_bytes p)))"
    using hex_take [of 8] by (simp add: GenerateFsID_def)
  then show ?thesis by (simp add: SHA1StringToUint64_def hex_Decode_Encode)
qed

end
