(* ===== verification/S3_Client.thy ===== *)
theory S3_Client
  imports Blob_Types "HOL-Library.Multiset"
begin

text \<open>
  The S3 downloader of \<^verbatim>\<open>src/pkg/s3_client.go\<close>: an object is fetched in ranges by goroutines whose results arrive in any order and are
  put together by index. The S3 service is an argument: the length it reports for a key, and what a range request gives.
\<close>

subsection \<open>The client\<close>

definition defaultDownloadConcurrency :: int where "defaultDownloadConcurrency = 16"
definition defaultDownloadChunkSize :: int where "defaultDownloadChunkSize = 64 * 1024 * 1024"

record S3SourceConfig =
  s3_BucketName :: string
  s3_Region :: string
  s3_EndpointURL :: string
  s3_AccessKey :: string
  s3_SecretKey :: string

text \<open>The connection made from the region, the keys and the endpoint is \<open>'k\<close>.\<close>

record 'k S3Client =
  s3_Client :: 'k
  s3_Source :: S3SourceConfig
  s3_DownloadConcurrency :: int
  s3_DownloadChunkSize :: int

definition NewS3Client :: "(string \<Rightarrow> string \<Rightarrow> string \<Rightarrow> string option \<Rightarrow> 'k res) \<Rightarrow> S3SourceConfig \<Rightarrow> BlobCacheServerConfig \<Rightarrow> 'k S3Client res" where
  "NewS3Client connect sourceConfig serverConfig =
     (let endpoint = (if s3_EndpointURL sourceConfig \<noteq> [] then Some (s3_EndpointURL sourceConfig) else None)
      in case connect (s3_Region sourceConfig) (s3_AccessKey sourceConfig) (s3_SecretKey sourceConfig) endpoint of
           Err e \<Rightarrow> Err (ErrMsg ''failed to load AWS config'')
         | Panic \<Rightarrow> Panic
         | Ok client \<Rightarrow>
             Ok \<lparr>s3_Client = client, s3_Source = sourceConfig,
                 s3_DownloadConcurrency =
                   (if sc_S3DownloadConcurrency serverConfig \<le> 0 then defaultDownloadConcurrency else sc_S3DownloadConcurrency serverConfig),
                 s3_DownloadChunkSize =
                   (if sc_S3DownloadChunkSize serverConfig \<le> 0 then defaultDownloadChunkSize else sc_S3DownloadChunkSize serverConfig)\<rparr>)"

text \<open>
  The service: \<^verbatim>\<open>HeadObject\<close> gives the content length, a ranged \<^verbatim>\<open>GetObject\<close> fails or gives a body, that is the bytes that arrive and
  whether the body then ends or breaks off with an error.
\<close>

datatype body_end = BodyEOF | BodyError
datatype range_reply = RangeFailed | Body bytes body_end

record 'k s3_service =
  sv_Head :: "'k \<Rightarrow> string \<Rightarrow> string \<Rightarrow> int res"
  sv_GetRange :: "'k \<Rightarrow> string \<Rightarrow> string \<Rightarrow> int \<Rightarrow> int \<Rightarrow> range_reply"

definition s3_Head :: "'k s3_service \<Rightarrow> 'k S3Client \<Rightarrow> string \<Rightarrow> int res" where
  "s3_Head V c key = sv_Head V (s3_Client c) (s3_BucketName (s3_Source c)) key"

subsection \<open>Downloading\<close>

definition chunk_start :: "int \<Rightarrow> nat \<Rightarrow> int" where
  "chunk_start chunkSize i = wrap64 (int i * chunkSize)"

definition chunk_end :: "int \<Rightarrow> int \<Rightarrow> nat \<Rightarrow> int" where
  "chunk_end objectSize chunkSize i =
     (let e = wrap64 (wrap64 (chunk_start chunkSize i + chunkSize) - 1) in if e \<ge> objectSize then objectSize - 1 else e)"

text \<open>
  \<^verbatim>\<open>io.ReadFull\<close> into a buffer of \<open>len\<close> bytes: a body that ends early gives \<^verbatim>\<open>io.EOF\<close> or \<^verbatim>\<open>io.ErrUnexpectedEOF\<close>, which the code
  accepts, and the bytes read so far.
\<close>

definition download_part :: "(int \<Rightarrow> int \<Rightarrow> range_reply) \<Rightarrow> int \<Rightarrow> int \<Rightarrow> nat \<Rightarrow> bytes res" where
  "download_part getRange objectSize chunkSize i =
     (let start = chunk_start chunkSize i; end = chunk_end objectSize chunkSize i
      in case getRange start end of
           RangeFailed \<Rightarrow> Err (ErrMsg ''range request failed'')
         | Body bs fin \<Rightarrow>
             if end - start + 1 < 0 then Panic
             else if length bs < nat (end - start + 1) \<and> fin = BodyError then Err (ErrMsg ''error reading range'')
             else Ok (take (nat (end - start + 1)) bs))"

text \<open>The loop over \<^verbatim>\<open>chunkCh\<close>: data is stored at its index, errors are collected.\<close>

definition collect_chunk :: "bytes list \<times> goerr list \<Rightarrow> nat \<times> bytes res \<Rightarrow> bytes list \<times> goerr list" where
  "collect_chunk acc r =
     (case acc of (chunks, errs) \<Rightarrow>
       (case r of
          (i, Ok d) \<Rightarrow> (chunks[i := d], errs)
        | (i, Err e) \<Rightarrow> (chunks[i := []], errs @ [e])
        | (i, Panic) \<Rightarrow> acc))"

definition num_chunks :: "int \<Rightarrow> int \<Rightarrow> int" where
  "num_chunks objectSize chunkSize = wrap64 (wrap64 (objectSize + chunkSize) - 1) sdiv chunkSize"

text \<open>\<open>order n\<close> is the order in which the results of the \<open>n\<close> goroutines arrive.\<close>

definition DownloadIntoBuffer :: "'k s3_service \<Rightarrow> (nat \<Rightarrow> nat list) \<Rightarrow> 'k S3Client \<Rightarrow> string \<Rightarrow> bytes \<Rightarrow> bytes \<times> unit res" where
  "DownloadIntoBuffer V order c key buffer =
     (case s3_Head V c key of
        Err e \<Rightarrow> (buffer, Err e)
      | Panic \<Rightarrow> (buffer, Panic)
      | Ok objectSize \<Rightarrow>
          if objectSize \<le> 0 then (buffer, Err (ErrMsg (''invalid object size: '' @ itoa objectSize)))
          else
            (let n = num_chunks objectSize (s3_DownloadChunkSize c)
             in if s3_DownloadChunkSize c = 0 \<or> n < 0 then (buffer, Panic)
                else
                  (let part = download_part (sv_GetRange V (s3_Client c) (s3_BucketName (s3_Source c)) key) objectSize (s3_DownloadChunkSize c);
                       results = map (\<lambda>i. (i, part i)) (order (nat n));
                       (chunks, errs) = foldl collect_chunk (replicate (nat n) [], []) results
                   in if \<exists>i < nat n. part i = Panic then (buffer, Panic)
                      else if errs \<noteq> [] then (buffer, Err (ErrMsg ''download errors''))
                      else (concat chunks, Ok ()))))"

subsection \<open>Lemmas\<close>

definition part_data :: "bytes res \<Rightarrow> bytes" where
  "part_data r = (case r of Ok d \<Rightarrow> d | _ \<Rightarrow> [])"

lemma collect_fold:
  assumes "distinct is" "\<And>i. i \<in> set is \<Longrightarrow> part i \<noteq> Panic"
  shows "foldl collect_chunk (chunks, errs) (map (\<lambda>i. (i, part i)) is) =
    (map (\<lambda>j. if j \<in> set is then part_data (part j) else chunks ! j) [0..<length chunks],
     errs @ List.map_filter (\<lambda>i. case part i of Err e \<Rightarrow> Some e | _ \<Rightarrow> None) is)"
  using assms
proof (induction "is" arbitrary: chunks errs)
  case Nil
  then show ?case by (simp add: map_nth)
next
  case (Cons i "is")
  have np: "part i \<noteq> Panic" using Cons.prems(2) by simp
  have step: "collect_chunk (chunks, errs) (i, part i) =
      (chunks[i := part_data (part i)], errs @ (case part i of Err e \<Rightarrow> [e] | _ \<Rightarrow> []))"
    using np by (cases "part i") (simp_all add: collect_chunk_def part_data_def)
  have "foldl collect_chunk (chunks[i := part_data (part i)], errs') (map (\<lambda>i. (i, part i)) is) =
    (map (\<lambda>j. if j \<in> set is then part_data (part j) else chunks[i := part_data (part i)] ! j) [0..<length chunks],
     errs' @ List.map_filter (\<lambda>i. case part i of Err e \<Rightarrow> Some e | _ \<Rightarrow> None) is)" for errs'
    using Cons.IH [of "chunks[i := part_data (part i)]" errs'] Cons.prems by simp
  moreover have "map (\<lambda>j. if j \<in> set is then part_data (part j) else chunks[i := part_data (part i)] ! j) [0..<length chunks]
      = map (\<lambda>j. if j \<in> set (i # is) then part_data (part j) else chunks ! j) [0..<length chunks]"
    using Cons.prems(1) by (auto simp: nth_list_update)
  ultimately show ?case using step np by (cases "part i") (simp_all add: map_filter_simps)
qed

text \<open>Without errors the buffer is the concatenation of the parts by index, whatever the order of arrival.\<close>

lemma collect_all:
  assumes "mset is = mset [0..<n]" "\<And>i. i < n \<Longrightarrow> part i = Ok (d i)"
  shows "foldl collect_chunk (replicate n [], []) (map (\<lambda>i. (i, part i)) is) = (map d [0..<n], [])"
proof -
  have set: "set is = {..<n}" using mset_eq_setD [OF assms(1)] by (simp add: atLeast_upt)
  have dist: "distinct is" using mset_eq_imp_distinct_iff [OF assms(1)] by simp
  have ok: "part i = Ok (d i)" if "i \<in> set is" for i using that set assms(2) by simp
  then have "filter (\<lambda>i. (case part i of Err e \<Rightarrow> Some e | _ \<Rightarrow> None) \<noteq> None) is = []" by (simp add: filter_empty_conv)
  then have e: "List.map_filter (\<lambda>i. case part i of Err e \<Rightarrow> Some e | _ \<Rightarrow> None) is = []" by (simp add: map_filter_def comp_def)
  have "map (\<lambda>j. if j \<in> set is then part_data (part j) else replicate n [] ! j) [0..<length (replicate n [])] = map d [0..<n]"
    using ok set by (intro map_cong) (auto simp: part_data_def)
  moreover have "part i \<noteq> Panic" if "i \<in> set is" for i using ok [OF that] by simp
  ultimately show ?thesis using collect_fold [OF dist, of part "replicate n []" "[]"] e by simp
qed

lemma concat_slices:
  assumes "0 < k"
  shows "concat (map (\<lambda>i. take k (drop (i * k) xs)) [0..<n]) = take (n * k) xs"
proof (induction n)
  case (Suc n)
  have "take (Suc n * k) xs = take (n * k) xs @ take k (drop (n * k) xs)"
    by (simp add: take_add add.commute [of k])
  with Suc show ?case by simp
qed simp

lemma num_chunks_eq:
  assumes "0 < sz" "sz < 2 ^ 62" "0 < cs" "cs < 2 ^ 62"
  shows "num_chunks sz cs = (sz + cs - 1) div cs" "0 \<le> num_chunks sz cs"
proof -
  have "wrap64 (sz + cs) = sz + cs" "wrap64 (sz + cs - 1) = sz + cs - 1" using assms by (intro wrap64_id in64I, simp, simp)+
  then show "num_chunks sz cs = (sz + cs - 1) div cs" using assms by (simp add: num_chunks_def go_arith)
  then show "0 \<le> num_chunks sz cs" using assms by (simp add: div_int_pos_iff)
qed

lemma chunk_bounds:
  assumes "0 < sz" "sz < 2 ^ 62" "0 < cs" "cs < 2 ^ 62" "i < nat (num_chunks sz cs)"
  shows "chunk_start cs i = int i * cs" "chunk_end sz cs i = min (sz - 1) (int i * cs + cs - 1)" "int i * cs < sz"
proof -
  have "int i < (sz + cs - 1) div cs" using assms(5) num_chunks_eq [OF assms(1-4)] by simp
  then have "int i + 1 \<le> (sz + cs - 1) div cs" by simp
  then have "(int i + 1) * cs \<le> (sz + cs - 1) div cs * cs" using assms(3) by (intro mult_right_mono) simp_all
  also have "\<dots> = sz + cs - 1 - (sz + cs - 1) mod cs" by (simp only: minus_mod_eq_div_mult)
  also have "\<dots> \<le> sz + cs - 1" using pos_mod_sign [OF assms(3), of "sz + cs - 1"] by simp
  finally have "(int i + 1) * cs \<le> sz + cs - 1" .
  then have le: "int i * cs + cs \<le> sz + cs - 1" by (simp add: distrib_right)
  then show lt: "int i * cs < sz" by simp
  have "0 \<le> int i * cs" using assms(3) by simp
  then show st: "chunk_start cs i = int i * cs"
    unfolding chunk_start_def using lt assms by (intro wrap64_id in64I) simp_all
  have p: "(2 :: int) ^ 63 = 2 * 2 ^ 62" by simp
  have "0 \<le> int i * cs + cs" "int i * cs + cs < 2 ^ 63" "0 \<le> int i * cs + cs - 1" "int i * cs + cs - 1 < 2 ^ 63"
    unfolding p using lt assms(2,3,4) \<open>0 \<le> int i * cs\<close> by linarith+
  then have "wrap64 (int i * cs + cs) = int i * cs + cs" "wrap64 (int i * cs + cs - 1) = int i * cs + cs - 1"
    by (intro wrap64_id in64I; simp)+
  then show "chunk_end sz cs i = min (sz - 1) (int i * cs + cs - 1)" by (simp add: chunk_end_def st Let_def)
qed

lemma download_bodies:
  assumes "s3_Head V c key = Ok sz" "0 < sz" "sz < 2 ^ 62" "0 < cs" "cs < 2 ^ 62" "s3_DownloadChunkSize c = cs"
    and "\<And>i. i < nat (num_chunks sz cs) \<Longrightarrow>
      sv_GetRange V (s3_Client c) (s3_BucketName (s3_Source c)) key (int i * cs) (min (sz - 1) (int i * cs + cs - 1)) = Body (bs i) BodyEOF"
    and "\<And>i. i < nat (num_chunks sz cs) \<Longrightarrow> int (length (bs i)) \<le> min (sz - 1) (int i * cs + cs - 1) - int i * cs + 1"
    and "mset (order (nat (num_chunks sz cs))) = mset [0..<nat (num_chunks sz cs)]"
  shows "DownloadIntoBuffer V order c key buffer = (concat (map bs [0..<nat (num_chunks sz cs)]), Ok ())"
proof -
  let ?n = "nat (num_chunks sz cs)"
  let ?part = "download_part (sv_GetRange V (s3_Client c) (s3_BucketName (s3_Source c)) key) sz cs"
  have part: "?part i = Ok (bs i)" if "i < ?n" for i
    using assms(7,8) [OF that] chunk_bounds [OF assms(2-5) that]
    by (simp add: download_part_def Let_def take_all_iff nat_le_iff)
  then have np: "\<not> (\<exists>i < ?n. ?part i = Panic)" by simp
  have n: "\<not> num_chunks sz cs < 0" using num_chunks_eq(2) [OF assms(2-5)] by simp
  have fold: "foldl collect_chunk (replicate ?n [], []) (map (\<lambda>i. (i, ?part i)) (order ?n)) = (map bs [0..<?n], [])"
    using collect_all [OF assms(9), of ?part bs] part by blast
  show ?thesis
    unfolding DownloadIntoBuffer_def assms(1) res.case Let_def assms(6) fold prod.case
    using assms(2,4) n np by simp
qed

text \<open>
  C4: When S3 answers every range of an object with exactly those bytes, the download is the object, byte for byte, for every chunk size
  and whatever the order in which the concurrent range requests finish.
\<close>

theorem s3_download_exact:
  assumes "s3_Head V c key = Ok (int (length content))" "content \<noteq> []" "int (length content) < 2 ^ 62"
    and "0 < s3_DownloadChunkSize c" "s3_DownloadChunkSize c < 2 ^ 62"
    and "\<And>a b. 0 \<le> a \<Longrightarrow> a \<le> b \<Longrightarrow> b < int (length content) \<Longrightarrow>
      sv_GetRange V (s3_Client c) (s3_BucketName (s3_Source c)) key a b = Body (take (nat (b - a + 1)) (drop (nat a) content)) BodyEOF"
    and "\<And>n. mset (order n) = mset [0..<n]"
  shows "DownloadIntoBuffer V order c key buffer = (content, Ok ())"
proof -
  define cs where "cs = s3_DownloadChunkSize c"
  define k where "k = nat cs"
  have cs: "cs = int k" "0 < k" using assms(4) by (simp_all add: cs_def k_def)
  let ?sz = "int (length content)" and ?n = "nat (num_chunks (int (length content)) cs)"
  have sz: "0 < ?sz" using assms(2) by simp
  note b = sz assms(3) assms(4,5) [folded cs_def]
  let ?bs = "\<lambda>i. take k (drop (i * k) content)"
  have reply: "sv_GetRange V (s3_Client c) (s3_BucketName (s3_Source c)) key (int i * cs) (min (?sz - 1) (int i * cs + cs - 1)) = Body (?bs i) BodyEOF"
    and len: "int (length (?bs i)) \<le> min (?sz - 1) (int i * cs + cs - 1) - int i * cs + 1" if "i < ?n" for i
  proof -
    have lt: "i * k < length content" using chunk_bounds(3) [OF b that] by (simp add: cs(1) flip: of_nat_mult)
    let ?e = "min (?sz - 1) (int i * cs + cs - 1)"
    define j where "j = i * k"
    have ij: "int i * cs = int j" by (simp add: j_def cs(1))
    have j: "j < length content" using lt by (simp add: j_def)
    have e: "?e = int (min (length content - 1) (j + k - 1))" unfolding ij using cs j by linarith
    have nn: "nat (?e - int i * cs + 1) = min (length content - j) k" unfolding ij using cs j by linarith
    have "int i * cs \<le> ?e" "?e < ?sz" "0 \<le> int i * cs" unfolding ij using cs j by linarith+
    from assms(6) [OF this(3,1,2)] show "sv_GetRange V (s3_Client c) (s3_BucketName (s3_Source c)) key (int i * cs) ?e = Body (?bs i) BodyEOF"
      unfolding nn unfolding ij j_def [symmetric] nat_int by (simp add: min_def)
    show "int (length (?bs i)) \<le> ?e - int i * cs + 1" unfolding ij using cs j by (simp add: j_def [symmetric]; linarith)
  qed
  have "(?sz + cs - 1) div cs * cs + (?sz + cs - 1) mod cs = ?sz + cs - 1" by simp
  moreover have "(?sz + cs - 1) mod cs < cs" using cs by simp
  ultimately have "?sz \<le> (?sz + cs - 1) div cs * cs" by linarith
  then have "?sz \<le> int (?n * k)" using num_chunks_eq [OF b] by (simp add: cs(1))
  then have "length content \<le> ?n * k" by (simp only: of_nat_le_iff)
  moreover have "DownloadIntoBuffer V order c key buffer = (concat (map ?bs [0..<?n]), Ok ())"
    using download_bodies [OF assms(1) b cs_def [symmetric], of ?bs order buffer] reply len assms(7) by blast
  ultimately show ?thesis by (simp add: concat_slices [OF cs(2)])
qed

definition sample_s3 :: "bytes \<Rightarrow> nat \<Rightarrow> unit s3_service" where
  "sample_s3 content lost = \<lparr>sv_Head = (\<lambda>_ _ _. Ok (int (length content))),
     sv_GetRange = (\<lambda>_ _ _ a b. Body (take (nat (b - a + 1)) (drop (nat a) (take (length content - lost) content))) BodyEOF)\<rparr>"

definition sample_s3_client :: "unit S3Client" where
  "sample_s3_client = \<lparr>s3_Client = (), s3_Source = \<lparr>s3_BucketName = ''b'', s3_Region = [], s3_EndpointURL = [], s3_AccessKey = [], s3_SecretKey = []\<rparr>,
     s3_DownloadConcurrency = 2, s3_DownloadChunkSize = 2\<rparr>"

theorem s3_download_exact_witness:
  "DownloadIntoBuffer (sample_s3 [1, 2, 3, 4, 5] 0) (\<lambda>n. rev [0..<n]) sample_s3_client ''k'' [] = ([1, 2, 3, 4, 5], Ok ())"
  by (rule s3_download_exact)
    (simp_all add: sample_s3_def sample_s3_client_def s3_Head_def)



end
