(* ===== verification/Server.thy ===== *)
theory Server
  imports Fs_Ids Cas_Theorems S3_Client
begin

text \<open>
  The cache service of \<^verbatim>\<open>src/pkg/server.go\<close>: starting it, reading and storing content, storing the path of a source file as nodes of the
  file system, and storing from a source under a lock. The storage and the coordinator are those of the other theories; Redis, S3, the
  clock and the attributes of files are the environment's.
\<close>

subsection \<open>The service and its environment\<close>

record ('c, 's, 'k) CacheService =
  sv_mode :: string
  sv_hostId :: string
  sv_locality :: string
  sv_privateIpAddr :: string
  sv_publicIpAddr :: string
  sv_cas :: "'c cas"
  sv_currentHost :: BlobCacheHost
  sv_serverConfig :: BlobCacheServerConfig
  sv_globalConfig :: BlobCacheGlobalConfig
  sv_coord :: 's
  sv_s3ClientCache :: "string \<Rightarrow> 'k S3Client option"

text \<open>What \<^verbatim>\<open>os.Stat\<close> tells about a file besides its kind and size: the mode bits and the access and modification times.\<close>

record file_attrs =
  fa_Mode :: u32
  fa_Atime :: "u64 \<times> u32"
  fa_Mtime :: "u64 \<times> u32"

record ('c, 's, 'k) server_env =
  en_R :: "'c ristretto"
  en_C :: "'s coordinator"
  en_S3 :: "'k s3_service"
  en_connect :: "string \<Rightarrow> string \<Rightarrow> string \<Rightarrow> string option \<Rightarrow> 'k res"
  en_order :: "nat \<Rightarrow> nat list"
  en_attrs :: "string \<Rightarrow> file_attrs"
  en_now :: "nat \<Rightarrow> u64 \<times> u32"
  en_source :: "SourceConfig \<Rightarrow> unit res"

subsection \<open>Starting\<close>

definition is_space :: "char \<Rightarrow> bool" where
  "is_space c \<longleftrightarrow> of_char c \<in> {9, 10, 11, 12, 13, 32 :: nat}"

definition strings_TrimSpace :: "string \<Rightarrow> string" where
  "strings_TrimSpace s = rev (dropWhile is_space (rev (dropWhile is_space s)))"

definition bytes_string :: "bytes \<Rightarrow> string" where
  "bytes_string b = map (\<lambda>w. char_of (unat w)) b"

text \<open>\<^verbatim>\<open>getHostId\<close>: the id is read from the cache directory, or made up and written there; a failing write is ignored.\<close>

definition getHostId :: "string \<Rightarrow> fs \<Rightarrow> BlobCacheServerConfig \<Rightarrow> fs \<times> string" where
  "getHostId uuid f serverConfig =
     (let filePath = filepath_Join [sc_DiskCacheDir serverConfig, ''HOST_ID'']
      in case os_ReadFile f filePath of
           Some content \<Rightarrow> (f, strings_TrimSpace (bytes_string content))
         | None \<Rightarrow>
             (let hostId = BlobCacheHostPrefix @ ''-'' @ take 6 uuid
              in (fst (os_WriteFile f filePath (string_bytes hostId)), hostId)))"

text \<open>
  \<^verbatim>\<open>NewCacheService\<close>. A source that cannot be configured is only logged; mounting it may end the process (\<^verbatim>\<open>Logger.Fatalf\<close>, here \<open>Panic\<close>).
\<close>

definition NewCacheService :: "('c, 's, 'k) server_env \<Rightarrow> (BlobCacheGlobalConfig \<Rightarrow> BlobCacheServerConfig \<Rightarrow> 's res)
    \<Rightarrow> (BlobCacheGlobalConfig \<Rightarrow> string \<Rightarrow> 's res) \<Rightarrow> (int \<Rightarrow> int \<Rightarrow> 'c res) \<Rightarrow> int \<Rightarrow> fs \<Rightarrow> string \<Rightarrow> string \<Rightarrow> string
    \<Rightarrow> BlobCacheConfig \<Rightarrow> string \<Rightarrow> ('c, 's, 'k) CacheService res" where
  "NewCacheService E newLocal newRemote newCache totalMemoryMb f uuid publicIpAddr privateIpAddr cfg locality =
     (let start = (\<lambda>coord cfg.
            (case os_MkdirAll f (sc_DiskCacheDir (cfg_Server cfg)) of
               (f1, False) \<Rightarrow> Err (ErrMsg ''mkdir'')
             | (f1, True) \<Rightarrow>
                 (let (f2, hostId) = getHostId uuid f1 (cfg_Server cfg);
                      port = '':'' @ show_nat (gc_ServerPort (cfg_Global cfg));
                      currentHost = \<lparr>RTT = 0, HostId = hostId, Addr = publicIpAddr @ port, PrivateAddr = privateIpAddr @ port, CapacityUsagePct = 0\<rparr>
                  in case NewContentAddressableStorage newCache totalMemoryMb f2 cfg of
                       Err e \<Rightarrow> Err e
                     | Panic \<Rightarrow> Panic
                     | Ok cas \<Rightarrow>
                         if list_ex (\<lambda>sourceConfig. en_source E sourceConfig = Panic) (sc_Sources (cfg_Server cfg)) then Panic
                         else Ok \<lparr>sv_mode = sc_Mode (cfg_Server cfg), sv_hostId = hostId, sv_locality = locality,
                            sv_privateIpAddr = privateIpAddr, sv_publicIpAddr = publicIpAddr, sv_cas = cas, sv_currentHost = currentHost,
                            sv_serverConfig = cfg_Server cfg, sv_globalConfig = cfg_Global cfg, sv_coord = coord,
                            sv_s3ClientCache = Map.empty\<rparr>)))
      in if sc_Mode (cfg_Server cfg) = BlobCacheServerModeCoordinator then
           (case newLocal (cfg_Global cfg) (cfg_Server cfg) of
              Err e \<Rightarrow> Err e
            | Panic \<Rightarrow> Panic
            | Ok coord \<Rightarrow> start coord cfg)
         else
           (case newRemote (cfg_Global cfg) (cc_Token (cfg_Client cfg)) of
              Err e \<Rightarrow> Err e
            | Panic \<Rightarrow> Panic
            | Ok coord \<Rightarrow>
                (case co_GetRegionConfig (en_C E) coord locality of
                   (coord1, Err e) \<Rightarrow> start coord1 cfg
                 | (coord1, Panic) \<Rightarrow> Panic
                 | (coord1, Ok regionConfig) \<Rightarrow> start coord1 (cfg\<lparr>cfg_Server := regionConfig\<rparr>))))"

text \<open>\<^verbatim>\<open>HostKeepAlive\<close>: what it does first, and at every tick. The errors are only logged.\<close>

definition HostKeepAlive_start :: "('c, 's, 'k) server_env \<Rightarrow> ('c, 's, 'k) CacheService \<Rightarrow> ('c, 's, 'k) CacheService" where
  "HostKeepAlive_start E s =
     (let c1 = fst (co_SetHostKeepAlive (en_C E) (sv_coord s) (sv_locality s) (sv_currentHost s));
          c2 = fst (co_AddHostToIndex (en_C E) c1 (sv_locality s) (sv_currentHost s))
      in s\<lparr>sv_coord := c2\<rparr>)"

definition HostKeepAlive_tick :: "('c, 's, 'k) server_env \<Rightarrow> rat \<Rightarrow> ('c, 's, 'k) CacheService \<Rightarrow> ('c, 's, 'k) CacheService" where
  "HostKeepAlive_tick E usage s =
     (let host = (sv_currentHost s)\<lparr>PrivateAddr := sv_privateIpAddr s @ '':'' @ show_nat (gc_ServerPort (sv_globalConfig s)),
            CapacityUsagePct := usage\<rparr>;
          c1 = fst (co_AddHostToIndex (en_C E) (sv_coord s) (sv_locality s) host);
          c2 = fst (co_SetHostKeepAlive (en_C E) c1 (sv_locality s) host)
      in s\<lparr>sv_currentHost := host, sv_coord := c2\<rparr>)"

text \<open>The options \<^verbatim>\<open>StartServer\<close> passes to the gRPC server.\<close>

record grpc_options =
  go_MaxMsgSize :: int
  go_InitialWindowSize :: int
  go_InitialConnWindowSize :: int
  go_WriteBufferSize :: int
  go_ReadBufferSize :: int
  go_MaxConcurrentStreams :: int
  go_NumStreamWorkers :: int

definition StartServer_options :: "int \<Rightarrow> BlobCacheGlobalConfig \<Rightarrow> grpc_options" where
  "StartServer_options numCPU g =
     \<lparr>go_MaxMsgSize = gc_GRPCMessageSizeBytes g,
      go_InitialWindowSize = to_int32 (if gc_GRPCInitialWindowSize g = 0 then 4 * 1024 * 1024 else gc_GRPCInitialWindowSize g),
      go_InitialConnWindowSize = to_int32 (if gc_GRPCInitialConnWindowSize g = 0 then 32 * 1024 * 1024 else gc_GRPCInitialConnWindowSize g),
      go_WriteBufferSize = (if gc_GRPCWriteBufferSize g = 0 then 256 * 1024 else gc_GRPCWriteBufferSize g),
      go_ReadBufferSize = (if gc_GRPCReadBufferSize g = 0 then 256 * 1024 else gc_GRPCReadBufferSize g),
      go_MaxConcurrentStreams = to_uint32 (if gc_GRPCMaxConcurrentStreams g = 0 then 1024 else gc_GRPCMaxConcurrentStreams g),
      go_NumStreamWorkers = to_uint32 (if gc_GRPCNumStreamWorkers g = 0 then numCPU * 2 else gc_GRPCNumStreamWorkers g)\<rparr>"

subsection \<open>Reading content\<close>

record get_request =
  gr_Hash :: string
  gr_Offset :: int
  gr_Length :: int

abbreviation upd_cas :: "('c, 's, 'k) CacheService \<Rightarrow> 'c cas \<Rightarrow> ('c, 's, 'k) CacheService" where
  "upd_cas s c \<equiv> s\<lparr>sv_cas := c\<rparr>"

text \<open>The response is its \<^verbatim>\<open>Ok\<close> flag and the content. \<^verbatim>\<open>make\<close> of a negative length panics.\<close>

definition GetContent :: "('c, 's, 'k) server_env \<Rightarrow> int \<Rightarrow> ('c, 's, 'k) CacheService \<Rightarrow> get_request
    \<Rightarrow> ('c, 's, 'k) CacheService \<times> (bool \<times> bytes) res" where
  "GetContent E now s req =
     (if gr_Length req < 0 then (s, Panic)
      else
        (case cas_Get (en_R E) now (sv_cas s) (gr_Hash req) (gr_Offset req) (gr_Length req) (replicate (nat (gr_Length req)) 0) of
           (c, dst, Err e) \<Rightarrow> (upd_cas s c, Ok (False, []))
         | (c, dst, Panic) \<Rightarrow> (upd_cas s c, Panic)
         | (c, dst, Ok n) \<Rightarrow> (upd_cas s c, if n < 0 \<or> n > int (length dst) then Panic else Ok (True, take (nat n) dst))))"

definition HasContent :: "('c, 's, 'k) server_env \<Rightarrow> ('c, 's, 'k) CacheService \<Rightarrow> string \<Rightarrow> ('c, 's, 'k) CacheService \<times> bool" where
  "HasContent E s hash = (let (c, ex) = cas_Exists (en_R E) (sv_cas s) hash in (upd_cas s c, ex))"

definition GetContentStream :: "('c, 's, 'k) server_env \<Rightarrow> (nat \<Rightarrow> int) \<Rightarrow> (nat \<Rightarrow> bool) \<Rightarrow> ('c, 's, 'k) CacheService \<Rightarrow> get_request
    \<Rightarrow> ('c, 's, 'k) CacheService \<times> bytes list \<times> stream_status" where
  "GetContentStream E now send s req =
     (let (c, sent, st) = stream_loop (cas_Get (en_R E)) now send (gr_Hash req) getContentStreamChunkSize 0 (sv_cas s)
            (replicate (nat getContentStreamChunkSize) 0) (gr_Offset req) (gr_Length req) []
      in (upd_cas s c, sent, st))"

subsection \<open>Storing content\<close>

definition store :: "('c, 's, 'k) server_env \<Rightarrow> ('c, 's, 'k) CacheService \<Rightarrow> bytes \<Rightarrow> ('c, 's, 'k) CacheService \<times> string res" where
  "store E s content =
     (let hash = hex_EncodeToString (sha256 content)
      in case cas_Add (en_R E) (sv_cas s) hash content of
           (c, Err e) \<Rightarrow> (upd_cas s c, Err (ErrMsg ''Failed to add content''))
         | (c, Panic) \<Rightarrow> (upd_cas s c, Panic)
         | (c, Ok _) \<Rightarrow> (upd_cas s c, Ok hash))"

text \<open>\<^verbatim>\<open>StoreContent\<close>: the messages of the stream up to its end or an error, then the answer is sent.\<close>

fun receive :: "bytes res list \<Rightarrow> bytes \<Rightarrow> bytes res" where
  "receive [] buffer = Ok buffer"
| "receive (Ok content # ms) buffer = receive ms (buffer @ content)"
| "receive (Err e # ms) buffer = Err (ErrMsg ''Received an error'')"
| "receive (Panic # ms) buffer = Panic"

definition StoreContent :: "('c, 's, 'k) server_env \<Rightarrow> ('c, 's, 'k) CacheService \<Rightarrow> bytes res list \<Rightarrow> ('c, 's, 'k) CacheService \<times> string res" where
  "StoreContent E s msgs =
     (case receive msgs [] of
        Err e \<Rightarrow> (s, Err e)
      | Panic \<Rightarrow> (s, Panic)
      | Ok buffer \<Rightarrow> store E s buffer)"

definition S_IFDIR :: u32 where "S_IFDIR = 0x4000"

definition dir_mode :: u32 where "dir_mode = S_IFDIR OR 0x1ED"

text \<open>The metadata of the path itself, taken from the file.\<close>

definition file_node :: "('c, 's, 'k) server_env \<Rightarrow> fs \<Rightarrow> string \<Rightarrow> string \<Rightarrow> u64 \<Rightarrow> BlobFsMetadata \<Rightarrow> BlobFsMetadata res" where
  "file_node E f currentPath hash sz metadata =
     (case os_Stat f currentPath of
        None \<Rightarrow> Err (ErrMsg ''no such file or directory'')
      | Some node \<Rightarrow>
          (let a = en_attrs E currentPath;
               md = metadata\<lparr>md_Mode := fa_Mode a, md_Atime := fst (fa_Atime a), md_Atimensec := snd (fa_Atime a),
                 md_Mtime := fst (fa_Mtime a), md_Mtimensec := snd (fa_Mtime a),
                 md_Ctime := fst (fa_Mtime a), md_Ctimensec := snd (fa_Mtime a)\<rparr>
           in case node of
                Dir \<Rightarrow> Ok (md\<lparr>md_Hash := GenerateFsID currentPath, md_Size := 0\<rparr>)
              | File _ \<Rightarrow> Ok (md\<lparr>md_Hash := hash, md_Size := sz\<rparr>)))"

fun store_parts :: "('c, 's, 'k) server_env \<Rightarrow> fs \<Rightarrow> string \<Rightarrow> string \<Rightarrow> u64 \<Rightarrow> nat \<Rightarrow> string list \<Rightarrow> string \<Rightarrow> string \<Rightarrow> 's \<Rightarrow> 's \<times> unit res" where
  "store_parts E f path hash sz i [] currentPath previousParentId st = (st, Ok ())"
| "store_parts E f path hash sz i (part # parts) currentPath previousParentId st =
     (if i = 0 \<and> part = [] then store_parts E f path hash sz (Suc i) parts currentPath previousParentId st
      else
        (let currentPath = (if currentPath = ''/'' then filepath_Join [''/'', part] else filepath_Join [currentPath, part]);
             currentNodeId = GenerateFsID currentPath
         in case SHA1StringToUint64 currentNodeId of
              Err e \<Rightarrow> (st, Err e)
            | Panic \<Rightarrow> (st, Panic)
            | Ok inode \<Rightarrow>
                (let (nowSec, nowNsec) = en_now E i;
                     metadata = zero_BlobFsMetadata\<lparr>md_PID := previousParentId, md_ID := currentNodeId, md_Name := part, md_Path := currentPath,
                       md_Ino := inode, md_Mode := dir_mode, md_Atime := nowSec, md_Mtime := nowSec, md_Ctime := nowSec,
                       md_Atimensec := nowNsec, md_Mtimensec := nowNsec, md_Ctimensec := nowNsec\<rparr>
                 in case (if currentPath = path then file_node E f currentPath hash sz metadata else Ok metadata) of
                      Err e \<Rightarrow> (st, Err e)
                    | Panic \<Rightarrow> (st, Panic)
                    | Ok md \<Rightarrow>
                        (case co_SetFsNode (en_C E) st currentNodeId md of
                           (st1, Err e) \<Rightarrow> (st1, Err e)
                         | (st1, Panic) \<Rightarrow> (st1, Panic)
                         | (st1, Ok _) \<Rightarrow>
                             (case co_AddFsNodeChild (en_C E) st1 previousParentId currentNodeId of
                                (st2, Err e) \<Rightarrow> (st2, Err e)
                              | (st2, Panic) \<Rightarrow> (st2, Panic)
                              | (st2, Ok _) \<Rightarrow> store_parts E f path hash sz (Suc i) parts currentPath currentNodeId st2)))))"

definition StoreContentInBlobFs :: "('c, 's, 'k) server_env \<Rightarrow> fs \<Rightarrow> 's \<Rightarrow> string \<Rightarrow> string \<Rightarrow> u64 \<Rightarrow> 's \<times> unit res" where
  "StoreContentInBlobFs E f st path hash sz =
     (let path = filepath_Join [''/'', filepath_Clean path]
      in store_parts E f path hash sz 0 (split_on CHR ''/'' path) ''/'' (GenerateFsID ''/'') st)"

definition usagePct :: "rat \<Rightarrow> ('c, 's, 'k) CacheService \<Rightarrow> rat" where
  "usagePct allocBytes s = allocBytes / (1024 * 1024) / of_int (cas_maxCacheSizeMb (sv_cas s))"

definition GetState :: "(rat \<Rightarrow> rat) \<Rightarrow> rat \<Rightarrow> ('c, 's, 'k) CacheService \<Rightarrow> string \<times> string \<times> rat" where
  "GetState f32 allocBytes s = (BlobCacheVersion, sv_privateIpAddr s, f32 (usagePct allocBytes s))"

subsection \<open>Storing from a source\<close>

record cache_source =
  src_Path :: string
  src_BucketName :: string
  src_Region :: string
  src_EndpointUrl :: string
  src_AccessKey :: string
  src_SecretKey :: string

definition cacheSourceFromLocalPath :: "fs \<Rightarrow> string \<Rightarrow> bytes res" where
  "cacheSourceFromLocalPath f localPath =
     (case os_Stat f localPath of
        None \<Rightarrow> Err (ErrMsg ''no such file or directory'')
      | Some _ \<Rightarrow> (case os_ReadFile f localPath of None \<Rightarrow> Err (ErrMsg ''error copying source'') | Some b \<Rightarrow> Ok b))"

definition s3_cache_key :: "cache_source \<Rightarrow> string" where
  "s3_cache_key source = src_EndpointUrl source @ ''/'' @ src_Region source @ ''/'' @ src_BucketName source"

definition cacheSourceFromS3 :: "('c, 's, 'k) server_env \<Rightarrow> ('c, 's, 'k) CacheService \<Rightarrow> cache_source \<Rightarrow> ('c, 's, 'k) CacheService \<times> bytes res" where
  "cacheSourceFromS3 E s source =
     (let key = s3_cache_key source;
          download = (\<lambda>s client.
            (case DownloadIntoBuffer (en_S3 E) (en_order E) client (src_Path source) [] of
               (buffer, Ok _) \<Rightarrow> (s, Ok buffer)
             | (buffer, Err e) \<Rightarrow> (s, Err e)
             | (buffer, Panic) \<Rightarrow> (s, Panic)))
      in case sv_s3ClientCache s key of
           Some client \<Rightarrow> download s client
         | None \<Rightarrow>
             (case NewS3Client (en_connect E)
                 \<lparr>s3_BucketName = src_BucketName source, s3_Region = src_Region source, s3_EndpointURL = src_EndpointUrl source,
                  s3_AccessKey = src_AccessKey source, s3_SecretKey = src_SecretKey source\<rparr> (sv_serverConfig s) of
                Err e \<Rightarrow> (s, Err e)
              | Panic \<Rightarrow> (s, Panic)
              | Ok client \<Rightarrow> download (s\<lparr>sv_s3ClientCache := (sv_s3ClientCache s)(key \<mapsto> client)\<rparr>) client))"

text \<open>A response: the flag, the hash, and whether the handler also returned an error to the transport.\<close>

record source_reply =
  sr_Ok :: bool
  sr_Hash :: string
  sr_Error :: "goerr option"
  sr_Failed :: bool

abbreviation source_failed :: "goerr \<Rightarrow> bool \<Rightarrow> source_reply" where
  "source_failed e b \<equiv> \<lparr>sr_Ok = False, sr_Hash = [], sr_Error = Some e, sr_Failed = b\<rparr>"

definition StoreContentFromSource :: "('c, 's, 'k) server_env \<Rightarrow> ('c, 's, 'k) CacheService \<Rightarrow> cache_source
    \<Rightarrow> ('c, 's, 'k) CacheService \<times> source_reply res" where
  "StoreContentFromSource E s source =
     (let localPath = filepath_Join [''/'', src_Path source];
          (s1, fetched) =
            (if src_BucketName source = [] then (s, cacheSourceFromLocalPath (cas_fs (sv_cas s)) localPath)
             else cacheSourceFromS3 E s source)
      in case fetched of
           Err e \<Rightarrow> (s1, Ok (source_failed e True))
         | Panic \<Rightarrow> (s1, Panic)
         | Ok buffer \<Rightarrow>
             (case store E s1 buffer of
                (s2, Err e) \<Rightarrow> (s2, Ok (source_failed e False))
              | (s2, Panic) \<Rightarrow> (s2, Panic)
              | (s2, Ok hash) \<Rightarrow>
                  if src_BucketName source = [] then
                    (case StoreContentInBlobFs E (cas_fs (sv_cas s2)) (sv_coord s2) localPath hash (of_nat (length buffer)) of
                       (c, Err e) \<Rightarrow> (s2\<lparr>sv_coord := c\<rparr>, Ok (source_failed e False))
                     | (c, Panic) \<Rightarrow> (s2\<lparr>sv_coord := c\<rparr>, Panic)
                     | (c, Ok _) \<Rightarrow> (s2\<lparr>sv_coord := c\<rparr>, Ok \<lparr>sr_Ok = True, sr_Hash = hash, sr_Error = None, sr_Failed = False\<rparr>))
                  else (s2, Ok \<lparr>sr_Ok = True, sr_Hash = hash, sr_Error = None, sr_Failed = False\<rparr>)))"

record lock_reply =
  lr_Ok :: bool
  lr_Hash :: string
  lr_FailedToAcquireLock :: bool
  lr_Error :: "goerr option"

text \<open>
  The goroutine that refreshes the lock every second: \<open>before\<close> refreshes happen before the content is stored and \<open>after\<close> of them
  while or after it is; their errors are ignored.
\<close>

fun refresh_lock :: "('c, 's, 'k) server_env \<Rightarrow> string \<Rightarrow> nat \<Rightarrow> ('c, 's, 'k) CacheService \<Rightarrow> ('c, 's, 'k) CacheService" where
  "refresh_lock E sourcePath 0 s = s"
| "refresh_lock E sourcePath (Suc n) s =
     refresh_lock E sourcePath n (s\<lparr>sv_coord := fst (co_RefreshStoreFromContentLock (en_C E) (sv_coord s) (sv_locality s) sourcePath)\<rparr>)"

definition StoreContentFromSourceWithLock :: "('c, 's, 'k) server_env \<Rightarrow> nat \<Rightarrow> nat \<Rightarrow> ('c, 's, 'k) CacheService \<Rightarrow> cache_source
    \<Rightarrow> ('c, 's, 'k) CacheService \<times> lock_reply res" where
  "StoreContentFromSourceWithLock E before after s source =
     (let sourcePath = src_Path source
      in case co_SetStoreFromContentLock (en_C E) (sv_coord s) (sv_locality s) sourcePath of
           (c, Err e) \<Rightarrow> (s\<lparr>sv_coord := c\<rparr>, Ok \<lparr>lr_Ok = False, lr_Hash = [], lr_FailedToAcquireLock = True, lr_Error = Some e\<rparr>)
         | (c, Panic) \<Rightarrow> (s\<lparr>sv_coord := c\<rparr>, Panic)
         | (c, Ok _) \<Rightarrow>
             (case StoreContentFromSource E (refresh_lock E sourcePath before (s\<lparr>sv_coord := c\<rparr>)) source of
                (s1, Panic) \<Rightarrow> (s1, Panic)
              | (s1, Err e) \<Rightarrow> (s1, Err e)
              | (s1, Ok reply) \<Rightarrow>
                  (let s2 = refresh_lock E sourcePath after s1
                   in if sr_Failed reply then
                        (s2, Ok \<lparr>lr_Ok = False, lr_Hash = [], lr_FailedToAcquireLock = False, lr_Error = sr_Error reply\<rparr>)
                      else
                        (case co_RemoveStoreFromContentLock (en_C E) (sv_coord s2) (sv_locality s2) sourcePath of
                           (c2, Panic) \<Rightarrow> (s2\<lparr>sv_coord := c2\<rparr>, Panic)
                         | (c2, _) \<Rightarrow>
                             (s2\<lparr>sv_coord := c2\<rparr>, Ok \<lparr>lr_Ok = True, lr_Hash = sr_Hash reply, lr_FailedToAcquireLock = False, lr_Error = None\<rparr>)))))"

end
