(* ===== verification/Client.thy ===== *)
theory Client
  imports Host_Map Server
begin

text \<open>
  The client of \<^verbatim>\<open>src/pkg/client.go\<close>: its connections to hosts, the choice of a host for a request, and the requests. The gRPC calls and
  the rendezvous hash are arguments; a connection is the address it was opened to. Every operation passes on the client and the world its
  calls act on.
\<close>

subsection \<open>What the client calls\<close>

record 'h hasher =
  hs_New :: 'h
  hs_Add :: "'h \<Rightarrow> BlobCacheHost \<Rightarrow> 'h"
  hs_Remove :: "'h \<Rightarrow> BlobCacheHost \<Rightarrow> 'h"
  hs_GetN :: "'h \<Rightarrow> int \<Rightarrow> string \<Rightarrow> BlobCacheHost list"

text \<open>
  A stream delivers messages, each with its \<^verbatim>\<open>Ok\<close> flag, and then ends, with an error or without. The answers to the two store requests are
  the fields of their responses.
\<close>

record 'w peers =
  pr_Dial :: "'w \<Rightarrow> string \<Rightarrow> dial_options \<Rightarrow> 'w \<times> unit res"
  pr_GetState :: "'w \<Rightarrow> string \<Rightarrow> 'w \<times> (string \<times> rat) res"
  pr_HasContent :: "'w \<Rightarrow> string \<Rightarrow> string \<Rightarrow> 'w \<times> bool res"
  pr_GetContent :: "'w \<Rightarrow> string \<Rightarrow> get_request \<Rightarrow> 'w \<times> (bool \<times> bytes) res"
  pr_GetContentStream :: "'w \<Rightarrow> string \<Rightarrow> get_request \<Rightarrow> 'w \<times> ((bool \<times> bytes) list \<times> goerr option) res"
  pr_StoreContent :: "'w \<Rightarrow> string \<Rightarrow> bytes list \<Rightarrow> 'w \<times> string res"
  pr_StoreContentFromSource :: "'w \<Rightarrow> string \<Rightarrow> cache_source \<Rightarrow> 'w \<times> (bool \<times> string) res"
  pr_StoreContentFromSourceWithLock :: "'w \<Rightarrow> string \<Rightarrow> cache_source \<Rightarrow> 'w \<times> (bool \<times> string \<times> bool) res"

definition discovery_rpc :: "'w peers \<Rightarrow> 'w state_rpc" where
  "discovery_rpc P = \<lparr>st_Dial = pr_Dial P, st_GetState = pr_GetState P\<rparr>"

record ('h, 'w) client_env =
  ce_H :: "'h hasher"
  ce_P :: "'w peers"
  ce_C :: "'w coordinator"

subsection \<open>The client\<close>

definition localClientCacheCleanupInterval :: int where "localClientCacheCleanupInterval = 5 * 1000000000"
definition localClientCacheTTL :: int where "localClientCacheTTL = 600 * 1000000000"

record localClientCache =
  lh_host :: BlobCacheHost
  lh_timestamp :: int

record 'h BlobCacheClient =
  cl_locality :: string
  cl_clientConfig :: BlobCacheClientConfig
  cl_globalConfig :: BlobCacheGlobalConfig
  cl_grpcClients :: "string \<Rightarrow> string option"
  cl_hostMap :: HostMap
  cl_localHostCache :: "string \<Rightarrow> localClientCache option"
  cl_hasher :: 'h
  cl_minRetryLengthBytes :: int
  cl_maxGetContentAttempts :: int

text \<open>
  \<^verbatim>\<open>NewBlobCacheClient\<close> up to the start of its goroutines: the client, and the time to live and interval with which
  \<^verbatim>\<open>manageLocalClientCache\<close> is started. \<^verbatim>\<open>newRemote\<close> connects to the coordinator.
\<close>

definition NewBlobCacheClient :: "'h hasher \<Rightarrow> (string \<Rightarrow> dial_options \<Rightarrow> unit res) \<Rightarrow> (string \<Rightarrow> string) \<Rightarrow> BlobCacheConfig
    \<Rightarrow> ('h BlobCacheClient \<times> int \<times> int) res" where
  "NewBlobCacheClient H newRemote getenv cfg =
     (let (addr, opts) = coordinator_dial (cfg_Global cfg) (cc_Token (cfg_Client cfg))
      in case newRemote addr opts of
           Err e \<Rightarrow> Err e
         | Panic \<Rightarrow> Panic
         | Ok _ \<Rightarrow>
             Ok (\<lparr>cl_locality = GetLocality getenv (cfg_Global cfg), cl_clientConfig = cfg_Client cfg, cl_globalConfig = cfg_Global cfg,
                  cl_grpcClients = Map.empty, cl_hostMap = NewHostMap (cfg_Global cfg), cl_localHostCache = Map.empty, cl_hasher = hs_New H,
                  cl_minRetryLengthBytes = cc_MinRetryLengthBytes (cfg_Client cfg),
                  cl_maxGetContentAttempts = max (cc_MaxGetContentAttempts (cfg_Client cfg)) 1\<rparr>,
                 localClientCacheCleanupInterval, localClientCacheTTL))"

definition GetNearbyHosts :: "('h, 'w) client_env \<Rightarrow> 'h BlobCacheClient \<Rightarrow> 'w \<Rightarrow> 'w \<times> BlobCacheHost list res" where
  "GetNearbyHosts E c w = co_GetAvailableHosts (ce_C E) w (cl_locality c)"

subsection \<open>Hosts\<close>

definition addHost :: "('h, 'w) client_env \<Rightarrow> BlobCacheHost \<Rightarrow> 'h BlobCacheClient \<times> 'w \<Rightarrow> ('h BlobCacheClient \<times> 'w) \<times> unit res" where
  "addHost E host s =
     (let (c, w) = s;
          addr = (if PrivateAddr host \<noteq> [] then PrivateAddr host else Addr host)
      in case pr_Dial (ce_P E) w addr (client_dial (cl_globalConfig c) (cc_Token (cl_clientConfig c)) addr) of
           (w1, Err e) \<Rightarrow> ((c, w1), Err e)
         | (w1, Panic) \<Rightarrow> ((c, w1), Panic)
         | (w1, Ok _) \<Rightarrow>
             ((c\<lparr>cl_grpcClients := (cl_grpcClients c)(HostId host \<mapsto> addr), cl_hasher := hs_Add (ce_H E) (cl_hasher c) host\<rparr>, w1), Ok ()))"

text \<open>A round of the client's discovery: what it finds is added to the host map, which calls \<^verbatim>\<open>addHost\<close>.\<close>

definition client_discovery :: "('h, 'w) client_env \<Rightarrow> (BlobCacheHost list \<Rightarrow> BlobCacheHost list) \<Rightarrow> 'h BlobCacheClient \<times> 'w
    \<Rightarrow> ('h BlobCacheClient \<times> 'w) \<times> unit res" where
  "client_discovery E order s =
     (let (c, w) = s
      in case discoverHosts (ce_C E) (discovery_rpc (ce_P E)) (cl_globalConfig c) order (cl_locality c) (cl_hostMap c) w of
           (w1, Err e) \<Rightarrow> ((c, w1), Ok ())
         | (w1, Panic) \<Rightarrow> ((c, w1), Panic)
         | (w1, Ok hosts) \<Rightarrow>
             (case updateHostMap (Some (addHost E)) hosts (cl_hostMap c, (c, w1)) of
                ((hm, (c', w')), r) \<Rightarrow> ((c'\<lparr>cl_hostMap := hm\<rparr>, w'), r)))"

text \<open>A tick of \<^verbatim>\<open>monitorHost\<close>; the flag says that the goroutine goes on.\<close>

definition monitorHost_tick :: "('h, 'w) client_env \<Rightarrow> BlobCacheHost \<Rightarrow> 'h BlobCacheClient \<times> 'w \<Rightarrow> ('h BlobCacheClient \<times> 'w) \<times> bool res" where
  "monitorHost_tick E host s =
     (let (c, w) = s;
          (w1, err) =
            (case cl_grpcClients c (HostId host) of
               None \<Rightarrow> (w, Err ErrHostNotFound)
             | Some addr \<Rightarrow>
                 (case pr_GetState (ce_P E) w addr of
                    (w1, Err e) \<Rightarrow> (w1, Err ErrInvalidHostVersion)
                  | (w1, Panic) \<Rightarrow> (w1, Panic)
                  | (w1, Ok (version, _)) \<Rightarrow> (w1, if version \<noteq> BlobCacheVersion then Err ErrInvalidHostVersion else Ok ())))
      in case err of
           Ok _ \<Rightarrow> ((c, w1), Ok True)
         | Panic \<Rightarrow> ((c, w1), Panic)
         | Err _ \<Rightarrow>
             ((c\<lparr>cl_hostMap := hm_Remove (cl_hostMap c) host, cl_hasher := hs_Remove (ce_H E) (cl_hasher c) host,
                 cl_grpcClients := (cl_grpcClients c)(Addr host := None)\<rparr>, w1), Ok False))"

text \<open>
  A tick of \<^verbatim>\<open>manageLocalClientCache\<close>: the stale entries are collected under the read lock and deleted under the write lock, and other
  requests may run in between.
\<close>

definition stale_entries :: "int \<Rightarrow> int \<Rightarrow> 'h BlobCacheClient \<Rightarrow> string \<Rightarrow> bool" where
  "stale_entries ttl now c hash = (case cl_localHostCache c hash of None \<Rightarrow> False | Some entry \<Rightarrow> now - lh_timestamp entry > ttl)"

definition delete_entries :: "(string \<Rightarrow> bool) \<Rightarrow> 'h BlobCacheClient \<Rightarrow> 'h BlobCacheClient" where
  "delete_entries stale c = c\<lparr>cl_localHostCache := (\<lambda>hash. if stale hash then None else cl_localHostCache c hash)\<rparr>"

abbreviation forget :: "string \<Rightarrow> 'h BlobCacheClient \<Rightarrow> 'h BlobCacheClient" where
  "forget hash c \<equiv> c\<lparr>cl_localHostCache := (cl_localHostCache c)(hash := None)\<rparr>"

subsection \<open>Choosing a host\<close>

definition pick_host :: "BlobCacheHost list \<Rightarrow> int \<Rightarrow> BlobCacheHost option res" where
  "pick_host hosts index =
     (let i = min index (int (length hosts) - 1)
      in if hosts = [] then Ok None else if i < 0 then Panic else Ok (Some (hosts ! nat i)))"

definition getGRPCClient :: "'h hasher \<Rightarrow> int \<Rightarrow> 'h BlobCacheClient \<Rightarrow> ClientRequest \<Rightarrow> 'h BlobCacheClient \<times> (string \<times> BlobCacheHost) res" where
  "getGRPCClient H now c request =
     (let (c1, found) =
            (case rt request of
               ClientRequestTypeStorage \<Rightarrow>
                 (c, pick_host (hs_GetN H (cl_hasher c) (cc_NTopHosts (cl_clientConfig c)) (cr_key request)) (hostIndex request))
             | ClientRequestTypeRetrieval \<Rightarrow>
                 (case cl_localHostCache c (cr_hash request) of
                    Some cachedHost \<Rightarrow> (c, Ok (Some (lh_host cachedHost)))
                  | None \<Rightarrow>
                      (case pick_host (hs_GetN H (cl_hasher c) (cc_NTopHosts (cl_clientConfig c)) (cr_key request)) (hostIndex request) of
                         Ok (Some host) \<Rightarrow>
                           (c\<lparr>cl_localHostCache := (cl_localHostCache c)(cr_hash request \<mapsto> \<lparr>lh_host = host, lh_timestamp = now\<rparr>)\<rparr>, Ok (Some host))
                       | r \<Rightarrow> (c, r))))
      in case found of
           Panic \<Rightarrow> (c1, Panic)
         | Err e \<Rightarrow> (c1, Err e)
         | Ok None \<Rightarrow> (c1, Err ErrHostNotFound)
         | Ok (Some host) \<Rightarrow>
             (case cl_grpcClients c1 (HostId host) of
                None \<Rightarrow> (forget (cr_hash request) c1, Err ErrHostNotFound)
              | Some client \<Rightarrow> (c1, Ok (client, host))))"

subsection \<open>Reading\<close>

abbreviation retrieval :: "string \<Rightarrow> string \<Rightarrow> int \<Rightarrow> ClientRequest" where
  "retrieval hash key i \<equiv> \<lparr>rt = ClientRequestTypeRetrieval, cr_hash = hash, cr_key = key, hostIndex = i\<rparr>"

abbreviation storage :: "string \<Rightarrow> string \<Rightarrow> ClientRequest" where
  "storage hash key \<equiv> \<lparr>rt = ClientRequestTypeStorage, cr_hash = hash, cr_key = key, hostIndex = 0\<rparr>"

text \<open>The loops count their attempts from \<open>i\<close> and have \<open>n\<close> of them left; attempt \<open>i\<close> is made at time \<open>now i\<close>.\<close>

fun cached_nearby :: "('h, 'w) client_env \<Rightarrow> (nat \<Rightarrow> int) \<Rightarrow> string \<Rightarrow> string \<Rightarrow> nat \<Rightarrow> nat \<Rightarrow> 'h BlobCacheClient \<times> 'w
    \<Rightarrow> ('h BlobCacheClient \<times> 'w) \<times> bool res" where
  "cached_nearby E now hash routingKey i 0 s = (s, Ok False)"
| "cached_nearby E now hash routingKey i (Suc n) (c, w) =
     (case getGRPCClient (ce_H E) (now i) c (retrieval hash routingKey (int i)) of
        (c1, Err e) \<Rightarrow> ((c1, w), Err e)
      | (c1, Panic) \<Rightarrow> ((c1, w), Panic)
      | (c1, Ok (client, _)) \<Rightarrow>
          (case pr_HasContent (ce_P E) w client hash of
             (w1, Err e) \<Rightarrow> ((c1, w1), Err e)
           | (w1, Panic) \<Rightarrow> ((c1, w1), Panic)
           | (w1, Ok exists) \<Rightarrow> if exists then ((c1, w1), Ok True) else cached_nearby E now hash routingKey (Suc i) n (c1, w1)))"

definition IsCachedNearby :: "('h, 'w) client_env \<Rightarrow> (nat \<Rightarrow> int) \<Rightarrow> string \<Rightarrow> string \<Rightarrow> 'h BlobCacheClient \<times> 'w
    \<Rightarrow> ('h BlobCacheClient \<times> 'w) \<times> bool res" where
  "IsCachedNearby E now hash routingKey s = cached_nearby E now hash routingKey 0 (nat (cc_NTopHosts (cl_clientConfig (fst s)))) s"

definition IsPathCachedNearby :: "('h, 'w) client_env \<Rightarrow> (nat \<Rightarrow> int) \<Rightarrow> string \<Rightarrow> 'h BlobCacheClient \<times> 'w
    \<Rightarrow> ('h BlobCacheClient \<times> 'w) \<times> bool res" where
  "IsPathCachedNearby E now path s =
     (let (c, w) = s
      in case co_GetFsNode (ce_C E) w (GenerateFsID path) of
           (w1, Err e) \<Rightarrow> ((c, w1), Ok False)
         | (w1, Panic) \<Rightarrow> ((c, w1), Panic)
         | (w1, Ok metadata) \<Rightarrow>
             (case IsCachedNearby E now (md_Hash metadata) path (c, w1) of
                (s2, Err e) \<Rightarrow> (s2, Ok False)
              | (s2, r) \<Rightarrow> (s2, r)))"

definition max_attempts :: "'h BlobCacheClient \<Rightarrow> int \<Rightarrow> nat" where
  "max_attempts c len = (if len > cl_minRetryLengthBytes c then nat (cl_maxGetContentAttempts c) else 1)"

fun get_attempts :: "('h, 'w) client_env \<Rightarrow> (nat \<Rightarrow> int) \<Rightarrow> get_request \<Rightarrow> string \<Rightarrow> nat \<Rightarrow> nat \<Rightarrow> 'h BlobCacheClient \<times> 'w
    \<Rightarrow> ('h BlobCacheClient \<times> 'w) \<times> bytes res" where
  "get_attempts E now req key i 0 s = (s, Err ErrContentNotFound)"
| "get_attempts E now req key i (Suc n) (c, w) =
     (case getGRPCClient (ce_H E) (now i) c (retrieval (gr_Hash req) key (int i)) of
        (c1, Err e) \<Rightarrow> ((c1, w), Err e)
      | (c1, Panic) \<Rightarrow> ((c1, w), Panic)
      | (c1, Ok (client, _)) \<Rightarrow>
          (case pr_GetContent (ce_P E) w client req of
             (w1, Ok (True, content)) \<Rightarrow> ((c1, w1), Ok content)
           | (w1, Panic) \<Rightarrow> ((c1, w1), Panic)
           | (w1, _) \<Rightarrow> get_attempts E now req key (Suc i) n (forget (gr_Hash req) c1, w1)))"

definition or_key :: "string \<Rightarrow> string \<Rightarrow> string" where
  "or_key routingKey d = (if routingKey = [] then d else routingKey)"

definition client_GetContent :: "('h, 'w) client_env \<Rightarrow> (nat \<Rightarrow> int) \<Rightarrow> string \<Rightarrow> int \<Rightarrow> int \<Rightarrow> string \<Rightarrow> 'h BlobCacheClient \<times> 'w
    \<Rightarrow> ('h BlobCacheClient \<times> 'w) \<times> bytes res" where
  "client_GetContent E now hash offset len routingKey s =
     get_attempts E now \<lparr>gr_Hash = hash, gr_Offset = offset, gr_Length = len\<rparr> (or_key routingKey hash) 0 (max_attempts (fst s) len) s"

text \<open>The messages received until the stream ends, and whether it ended properly.\<close>

fun recv_stream :: "(bool \<times> bytes) list \<Rightarrow> goerr option \<Rightarrow> bytes list \<times> bool" where
  "recv_stream [] e = ([], e = None)"
| "recv_stream ((ok, content) # ms) e = (if ok then (let (cs, eof) = recv_stream ms e in (content # cs, eof)) else ([], False))"

text \<open>What the goroutine of \<^verbatim>\<open>GetContentStream\<close> sends on the channel before it closes it.\<close>

fun stream_attempts :: "('h, 'w) client_env \<Rightarrow> (nat \<Rightarrow> int) \<Rightarrow> get_request \<Rightarrow> string \<Rightarrow> nat \<Rightarrow> nat \<Rightarrow> 'h BlobCacheClient \<times> 'w
    \<Rightarrow> ('h BlobCacheClient \<times> 'w) \<times> bytes list res" where
  "stream_attempts E now req key i 0 s = (s, Ok [])"
| "stream_attempts E now req key i (Suc n) (c, w) =
     (case getGRPCClient (ce_H E) (now i) c (retrieval (gr_Hash req) key (int i)) of
        (c1, Err e) \<Rightarrow> ((c1, w), Ok [])
      | (c1, Panic) \<Rightarrow> ((c1, w), Panic)
      | (c1, Ok (client, _)) \<Rightarrow>
          (case pr_GetContentStream (ce_P E) w client req of
             (w1, Err e) \<Rightarrow> stream_attempts E now req key (Suc i) n (forget (gr_Hash req) c1, w1)
           | (w1, Panic) \<Rightarrow> ((c1, w1), Panic)
           | (w1, Ok (ms, e)) \<Rightarrow>
               (case recv_stream ms e of
                  (sent, True) \<Rightarrow> ((c1, w1), Ok sent)
                | (sent, False) \<Rightarrow>
                    (case stream_attempts E now req key (Suc i) n (forget (gr_Hash req) c1, w1) of
                       (s2, Ok rest) \<Rightarrow> (s2, Ok (sent @ rest))
                     | (s2, r) \<Rightarrow> (s2, r)))))"

definition client_GetContentStream :: "('h, 'w) client_env \<Rightarrow> (nat \<Rightarrow> int) \<Rightarrow> string \<Rightarrow> int \<Rightarrow> int \<Rightarrow> string \<Rightarrow> 'h BlobCacheClient \<times> 'w
    \<Rightarrow> ('h BlobCacheClient \<times> 'w) \<times> bytes list res" where
  "client_GetContentStream E now hash offset len routingKey s =
     stream_attempts E now \<lparr>gr_Hash = hash, gr_Offset = offset, gr_Length = len\<rparr> (or_key routingKey hash) 0 (max_attempts (fst s) len) s"

subsection \<open>Storing\<close>

text \<open>The chunks are what the caller sends before closing the channel.\<close>

definition client_StoreContent :: "('h, 'w) client_env \<Rightarrow> int \<Rightarrow> bytes list \<Rightarrow> string \<Rightarrow> string \<Rightarrow> 'h BlobCacheClient \<times> 'w
    \<Rightarrow> ('h BlobCacheClient \<times> 'w) \<times> string res" where
  "client_StoreContent E now chunks hash routingKey s =
     (let (c, w) = s
      in case getGRPCClient (ce_H E) now c (storage hash (or_key routingKey hash)) of
           (c1, Err e) \<Rightarrow> ((c1, w), Err e)
         | (c1, Panic) \<Rightarrow> ((c1, w), Panic)
         | (c1, Ok (client, _)) \<Rightarrow> (let (w1, r) = pr_StoreContent (ce_P E) w client chunks in ((c1, w1), r)))"

text \<open>The two requests to cache a source, and how their responses become results.\<close>

definition request_store :: "('h, 'w) client_env \<Rightarrow> bool \<Rightarrow> cache_source \<Rightarrow> string \<Rightarrow> 'w \<Rightarrow> 'w \<times> string res" where
  "request_store E withLock source client w =
     (if withLock then
        (case pr_StoreContentFromSourceWithLock (ce_P E) w client source of
           (w1, Err e) \<Rightarrow> (w1, Err e)
         | (w1, Panic) \<Rightarrow> (w1, Panic)
         | (w1, Ok (ok, hash, failedToAcquireLock)) \<Rightarrow>
             (w1, if failedToAcquireLock then Err ErrUnableToAcquireLock
                  else if \<not> ok then Err ErrUnableToPopulateContent else Ok hash))
      else
        (case pr_StoreContentFromSource (ce_P E) w client source of
           (w1, Err e) \<Rightarrow> (w1, Err e)
         | (w1, Panic) \<Rightarrow> (w1, Panic)
         | (w1, Ok (ok, hash)) \<Rightarrow> (w1, if \<not> ok then Err ErrUnableToPopulateContent else Ok hash)))"

definition store_from :: "('h, 'w) client_env \<Rightarrow> int \<Rightarrow> ClientRequest \<Rightarrow> bool \<Rightarrow> cache_source \<Rightarrow> 'h BlobCacheClient \<times> 'w
    \<Rightarrow> ('h BlobCacheClient \<times> 'w) \<times> string res" where
  "store_from E now request withLock source s =
     (let (c, w) = s
      in case getGRPCClient (ce_H E) now c request of
           (c1, Err e) \<Rightarrow> ((c1, w), Err e)
         | (c1, Panic) \<Rightarrow> ((c1, w), Panic)
         | (c1, Ok (client, _)) \<Rightarrow> (let (w1, r) = request_store E withLock source client w in ((c1, w1), r)))"

definition fuse_source :: "string \<Rightarrow> cache_source" where
  "fuse_source path = \<lparr>src_Path = path, src_BucketName = [], src_Region = [], src_EndpointUrl = [], src_AccessKey = [], src_SecretKey = []\<rparr>"

definition StoreContentFromFUSE :: "('h, 'w) client_env \<Rightarrow> int \<Rightarrow> string \<Rightarrow> string \<Rightarrow> bool \<Rightarrow> 'h BlobCacheClient \<times> 'w
    \<Rightarrow> ('h BlobCacheClient \<times> 'w) \<times> string res" where
  "StoreContentFromFUSE E now path routingKey withLock s =
     store_from E now (storage path (or_key routingKey path)) withLock (fuse_source path) s"

definition s3_routing_key :: "cache_source \<Rightarrow> string" where
  "s3_routing_key source = src_EndpointUrl source @ ''/'' @ src_Region source @ ''/'' @ src_BucketName source @ ''/'' @ src_Path source"

definition StoreContentFromS3 :: "('h, 'w) client_env \<Rightarrow> int \<Rightarrow> cache_source \<Rightarrow> string \<Rightarrow> bool \<Rightarrow> 'h BlobCacheClient \<times> 'w
    \<Rightarrow> ('h BlobCacheClient \<times> 'w) \<times> string res" where
  "StoreContentFromS3 E now source routingKey withLock s =
     store_from E now (storage [] (or_key routingKey (s3_routing_key source))) withLock source s"

subsection \<open>Availability\<close>

definition HostsAvailable :: "'h BlobCacheClient \<Rightarrow> bool" where
  "HostsAvailable c = (card (hm_Members (cl_hostMap c)) > 0)"

text \<open>
  \<^verbatim>\<open>WaitForHosts\<close> looks at the client at once and then in rounds: in round \<open>k\<close> it gives up when \<open>elapsed k\<close> has passed the timeout, looks at
  the client \<open>seen k\<close> and sleeps for a second.
\<close>

definition ErrDeadlineExceeded :: goerr where "ErrDeadlineExceeded = ErrMsg ''context deadline exceeded''"

partial_function (option) wait_rounds :: "(nat \<Rightarrow> 'h BlobCacheClient) \<Rightarrow> (nat \<Rightarrow> int) \<Rightarrow> int \<Rightarrow> nat \<Rightarrow> unit res option" where
  "wait_rounds seen elapsed timeout k =
     (if elapsed k \<ge> timeout then Some (Err ErrDeadlineExceeded)
      else if HostsAvailable (seen k) then Some (Ok ())
      else wait_rounds seen elapsed timeout (Suc k))"

definition WaitForHosts :: "'h BlobCacheClient \<Rightarrow> (nat \<Rightarrow> 'h BlobCacheClient) \<Rightarrow> (nat \<Rightarrow> int) \<Rightarrow> int \<Rightarrow> unit res option" where
  "WaitForHosts c seen elapsed timeout = (if HostsAvailable c then Some (Ok ()) else wait_rounds seen elapsed timeout 0)"

definition client_GetState :: "('h, 'w) client_env \<Rightarrow> int \<Rightarrow> 'h BlobCacheClient \<times> 'w \<Rightarrow> ('h BlobCacheClient \<times> 'w) \<times> unit res" where
  "client_GetState E now s =
     (let (c, w) = s
      in case getGRPCClient (ce_H E) now c (retrieval [] [] 0) of
           (c1, Err e) \<Rightarrow> ((c1, w), Err e)
         | (c1, Panic) \<Rightarrow> ((c1, w), Panic)
         | (c1, Ok (client, _)) \<Rightarrow>
             (case pr_GetState (ce_P E) w client of
                (w1, Err e) \<Rightarrow> ((c1, w1), Err e)
              | (w1, Panic) \<Rightarrow> ((c1, w1), Panic)
              | (w1, Ok _) \<Rightarrow> ((c1, w1), Ok ())))"

end
