(* ===== verification/Client_Laws.thy ===== *)
theory Client_Laws
  imports Client
begin

text \<open>
  What holds of the client between its requests, its discovery and its monitors: every host it can choose has a connection. And what
  its requests make of the answers of the hosts.
\<close>

subsection \<open>The rendezvous hash\<close>

text \<open>
  The documented behaviour of the hash the client relies on, over the hosts \<open>mem h\<close> it holds: it starts empty, \<^verbatim>\<open>Add\<close> and \<^verbatim>\<open>Remove\<close>
  change it by one host, and \<^verbatim>\<open>GetN\<close> returns hosts it holds, at least one if there is one and one is asked for.
\<close>

definition hasher_contract :: "'h hasher \<Rightarrow> ('h \<Rightarrow> BlobCacheHost set) \<Rightarrow> bool" where
  "hasher_contract H mem \<longleftrightarrow>
     mem (hs_New H) = {} \<and>
     (\<forall>h x. mem (hs_Add H h x) \<subseteq> insert x (mem h) \<and> x \<in> mem (hs_Add H h x)) \<and>
     (\<forall>h x. mem (hs_Remove H h x) \<subseteq> mem h \<and> x \<notin> mem (hs_Remove H h x)) \<and>
     (\<forall>h n k. set (hs_GetN H h n k) \<subseteq> mem h \<and> (0 < n \<and> mem h \<noteq> {} \<longrightarrow> hs_GetN H h n k \<noteq> []))"

lemma hasher_contractD:
  assumes "hasher_contract H mem"
  shows "mem (hs_New H) = {}" "mem (hs_Add H h x) \<subseteq> insert x (mem h)" "mem (hs_Remove H h x) \<subseteq> mem h"
    and "set (hs_GetN H h n k) \<subseteq> mem h" "0 < n \<Longrightarrow> mem h \<noteq> {} \<Longrightarrow> hs_GetN H h n k \<noteq> []"
  using assms unfolding hasher_contract_def by blast+

subsection \<open>Steps\<close>

text \<open>An address has a port, a host id has no colon.\<close>

definition proper_host :: "BlobCacheHost \<Rightarrow> bool" where
  "proper_host h \<longleftrightarrow> CHR '':'' \<notin> set (HostId h) \<and> CHR '':'' \<in> set (Addr h)"

text \<open>
  The steps of the client between which other goroutines run, each the code under one lock: a round of discovery, a tick of a monitor,
  the choice of a host, forgetting a host, deleting stale entries; and anything that happens in the world.
\<close>

inductive client_step :: "('h, 'w) client_env \<Rightarrow> 'h BlobCacheClient \<times> 'w \<Rightarrow> 'h BlobCacheClient \<times> 'w \<Rightarrow> bool" for E where
  world: "client_step E (c, w) (c, w')"
| discovery: "(\<And>xs. set (order xs) \<subseteq> set xs) \<Longrightarrow> client_discovery E order s = (s', r) \<Longrightarrow> client_step E s s'"
| monitor: "proper_host host \<Longrightarrow> monitorHost_tick E host s = (s', r) \<Longrightarrow> client_step E s s'"
| choose: "getGRPCClient (ce_H E) now c request = (c', r) \<Longrightarrow> client_step E (c, w) (c', w)"
| forgets: "client_step E (c, w) (forget hash c, w)"
| cleans: "client_step E (c, w) (delete_entries stale c, w)"

inductive client_run :: "('h, 'w) client_env \<Rightarrow> 'h BlobCacheClient \<times> 'w \<Rightarrow> bool" for E where
  start: "NewBlobCacheClient (ce_H E) newRemote getenv cfg = Ok (c, ttl, interval) \<Longrightarrow> client_run E (c, w)"
| step: "client_run E s \<Longrightarrow> client_step E s s' \<Longrightarrow> client_run E s'"

inductive_cases client_stepE: "client_step E s s'"

text \<open>The coordinator lists proper hosts only.\<close>

definition lists_proper :: "'w coordinator \<Rightarrow> bool" where
  "lists_proper C \<longleftrightarrow> (\<forall>w locality w' hosts. co_GetAvailableHosts C w locality = (w', Ok hosts) \<longrightarrow> list_all proper_host hosts)"

subsection \<open>Every host that can be chosen has a connection\<close>

definition has_conn :: "'h BlobCacheClient \<Rightarrow> BlobCacheHost \<Rightarrow> bool" where
  "has_conn c h \<longleftrightarrow> cl_grpcClients c (HostId h) \<noteq> None \<and> proper_host h"

definition client_inv :: "('h \<Rightarrow> BlobCacheHost set) \<Rightarrow> 'h BlobCacheClient \<Rightarrow> bool" where
  "client_inv mem c \<longleftrightarrow>
     (\<forall>h \<in> mem (cl_hasher c). has_conn c h) \<and>
     (\<forall>hash e. cl_localHostCache c hash = Some e \<longrightarrow> has_conn c (lh_host e))"

lemma client_invI:
  assumes "client_inv mem c" "mem (cl_hasher c') \<subseteq> mem (cl_hasher c)"
    and "\<And>hash e. cl_localHostCache c' hash = Some e \<Longrightarrow> cl_localHostCache c hash = Some e \<or> has_conn c' (lh_host e)"
    and "\<And>h. has_conn c h \<Longrightarrow> has_conn c' h"
  shows "client_inv mem c'"
  using assms unfolding client_inv_def by (metis subsetD)

lemma pick_host_in: "pick_host hosts i = Ok (Some h) \<Longrightarrow> h \<in> set hosts"
  by (auto simp: pick_host_def Let_def split: if_splits)

lemma pick_host_none: "0 \<le> i \<Longrightarrow> pick_host hosts i \<noteq> Panic \<and> pick_host hosts i \<noteq> Err e \<and> (pick_host hosts i = Ok None \<longleftrightarrow> hosts = [])"
  by (cases hosts) (auto simp: pick_host_def Let_def)

text \<open>The host a request is sent to.\<close>

definition chosen :: "'h hasher \<Rightarrow> 'h BlobCacheClient \<Rightarrow> ClientRequest \<Rightarrow> BlobCacheHost option res" where
  "chosen H c request =
     (case (rt request, cl_localHostCache c (cr_hash request)) of
        (ClientRequestTypeRetrieval, Some e) \<Rightarrow> Ok (Some (lh_host e))
      | _ \<Rightarrow> pick_host (hs_GetN H (cl_hasher c) (cc_NTopHosts (cl_clientConfig c)) (cr_key request)) (hostIndex request))"

definition remember :: "int \<Rightarrow> 'h BlobCacheClient \<Rightarrow> ClientRequest \<Rightarrow> BlobCacheHost \<Rightarrow> 'h BlobCacheClient" where
  "remember now c request host =
     (if rt request = ClientRequestTypeRetrieval \<and> cl_localHostCache c (cr_hash request) = None
      then c\<lparr>cl_localHostCache := (cl_localHostCache c)(cr_hash request \<mapsto> \<lparr>lh_host = host, lh_timestamp = now\<rparr>)\<rparr> else c)"

lemma getGRPCClient_chosen:
  "getGRPCClient H now c request =
     (case chosen H c request of
        Ok (Some host) \<Rightarrow>
          (case cl_grpcClients c (HostId host) of
             None \<Rightarrow> (forget (cr_hash request) (remember now c request host), Err ErrHostNotFound)
           | Some client \<Rightarrow> (remember now c request host, Ok (client, host)))
      | Ok None \<Rightarrow> (c, Err ErrHostNotFound)
      | Err e \<Rightarrow> (c, Err e)
      | Panic \<Rightarrow> (c, Panic))"
  by (auto simp: getGRPCClient_def chosen_def remember_def Let_def split: ClientRequestType.splits option.splits res.splits)

lemma chosen_connected:
  assumes "hasher_contract H mem" "client_inv mem c" "chosen H c request = Ok (Some host)"
  shows "has_conn c host"
  using assms(2,3) subsetD [OF hasher_contractD(4) [OF assms(1)]] unfolding chosen_def client_inv_def
  by (auto split: ClientRequestType.splits option.splits dest!: pick_host_in)

lemma remember_inv:
  assumes "client_inv mem c" "has_conn c host"
  shows "client_inv mem (remember now c request host)"
  using assms by (auto simp: remember_def client_inv_def has_conn_def)

lemma forget_inv: "client_inv mem c \<Longrightarrow> client_inv mem (forget hash c)"
  by (auto simp: client_inv_def has_conn_def)

lemma getGRPCClient_inv:
  assumes "hasher_contract H mem" "client_inv mem c" "getGRPCClient H now c request = (c', r)"
  shows "client_inv mem c'"
proof (cases "chosen H c request")
  case (Ok x)
  show ?thesis
  proof (cases x)
    case (Some host)
    with Ok have "has_conn c host" using chosen_connected [OF assms(1,2)] by simp
    then show ?thesis
      using assms(2,3) Ok Some remember_inv [of mem c host] by (auto simp: getGRPCClient_chosen has_conn_def)
  qed (use assms Ok in \<open>simp add: getGRPCClient_chosen\<close>)
qed (use assms in \<open>simp_all add: getGRPCClient_chosen\<close>)

lemma addHost_inv:
  assumes "hasher_contract (ce_H E) mem" "client_inv mem c" "proper_host host" "addHost E host (c, w) = ((c', w'), r)"
  shows "client_inv mem c'"
proof -
  have "mem (hs_Add (ce_H E) (cl_hasher c) host) \<subseteq> insert host (mem (cl_hasher c))" by (rule hasher_contractD(2) [OF assms(1)])
  with assms(2,3,4) show ?thesis
    by (auto simp: addHost_def client_inv_def has_conn_def Let_def split: prod.splits res.splits)
qed

lemma hm_Set_callback:
  assumes "hm_Set (Some added) host (hm, u) = ((hm', u'), r)"
  shows "u' = u \<or> u' = fst (added host u)"
  using assms by (auto simp: hm_Set_def Let_def split: if_splits prod.splits res.splits)

lemma updateHostMap_inv:
  assumes "hasher_contract (ce_H E) mem"
  shows "updateHostMap (Some (addHost E)) hosts (hm, (c, w)) = ((hm', (c', w')), r) \<Longrightarrow> list_all proper_host hosts \<Longrightarrow>
    client_inv mem c \<Longrightarrow> client_inv mem c'"
proof (induction hosts arbitrary: hm c w)
  case (Cons h hosts)
  obtain hm1 c1 w1 r1 where s: "hm_Set (Some (addHost E)) h (hm, (c, w)) = ((hm1, (c1, w1)), r1)" by (metis prod.collapse)
  have i: "client_inv mem c1"
    using hm_Set_callback [OF s] addHost_inv [OF assms Cons.prems(3), of h w] Cons.prems(2,3)
    by (metis fst_conv list.pred_inject(2) prod.collapse)
  show ?case using Cons.IH [of hm1 c1 w1] Cons.prems s i by (cases r1) auto
qed simp

lemma get_states_proper:
  "get_states G cfg w hosts acc = (w', Ok hs) \<Longrightarrow> list_all proper_host hosts \<Longrightarrow> list_all proper_host acc \<Longrightarrow> list_all proper_host hs"
proof (induction G cfg w hosts acc rule: get_states.induct)
  case (2 G cfg w host hosts acc)
  have p: "GetHostState G cfg w host = (w1, Ok h) \<Longrightarrow> proper_host host \<Longrightarrow> proper_host h" for w1 h
    by (auto simp: GetHostState_def proper_host_def Let_def split: prod.splits res.splits if_splits)
  show ?case using 2 p by (cases "GetHostState G cfg w host"; cases "snd (GetHostState G cfg w host)") auto
qed simp

lemma client_discovery_inv:
  assumes "hasher_contract (ce_H E) mem" "lists_proper (ce_C E)" "\<And>xs. set (order xs) \<subseteq> set xs" "client_inv mem c"
    and "client_discovery E order (c, w) = ((c', w'), r)"
  shows "client_inv mem c'"
proof -
  obtain w1 x where d: "discoverHosts (ce_C E) (discovery_rpc (ce_P E)) (cl_globalConfig c) order (cl_locality c) (cl_hostMap c) w = (w1, x)"
    by fastforce
  show ?thesis
  proof (cases x)
    case (Ok hosts)
    obtain hm2 c2 w2 r2 where u: "updateHostMap (Some (addHost E)) hosts (cl_hostMap c, (c, w1)) = ((hm2, (c2, w2)), r2)"
      by (metis prod.collapse)
    obtain w0 listed where l: "co_GetAvailableHosts (ce_C E) w (cl_locality c) = (w0, Ok listed)"
      "get_states (discovery_rpc (ce_P E)) (cl_globalConfig c) w0
         (order (filter (\<lambda>h. hm_Get (cl_hostMap c) (HostId h) = None) listed)) [] = (w1, Ok hosts)"
      using d Ok by (auto simp: discoverHosts_def split: prod.splits res.splits)
    have "list_all proper_host listed" using assms(2) l(1) by (auto simp: lists_proper_def)
    then have "list_all proper_host (order (filter (\<lambda>h. hm_Get (cl_hostMap c) (HostId h) = None) listed))"
      using assms(3) by (fastforce simp: list_all_iff)
    then have "list_all proper_host hosts" using get_states_proper [OF l(2)] by simp
    then have "client_inv mem c2" using updateHostMap_inv [OF assms(1) u] assms(4) by simp
    then show ?thesis using assms(5) d Ok u by (auto simp: client_discovery_def client_inv_def has_conn_def)
  qed (use assms(4,5) d in \<open>auto simp: client_discovery_def\<close>)
qed

subsection \<open>Waiting for hosts\<close>

text \<open>Waiting for hosts ends, with success or past the deadline, as soon as some round sees a host or is past the timeout.\<close>

lemma WaitForHosts_returns:
  assumes "elapsed n \<ge> timeout \<or> HostsAvailable (seen n)"
  shows "\<exists>k. WaitForHosts c seen elapsed timeout =
    Some (if HostsAvailable c \<or> elapsed k < timeout \<and> HostsAvailable (seen k) then Ok () else Err ErrDeadlineExceeded)"
proof -
  obtain k where "elapsed k \<ge> timeout \<or> HostsAvailable (seen k)"
    "wait_rounds seen elapsed timeout 0 = Some (if elapsed k \<ge> timeout then Err ErrDeadlineExceeded else Ok ())"
    using first_round [where F = "wait_rounds seen elapsed timeout", OF wait_rounds.simps assms] by blast
  then show ?thesis by (intro exI [of _ k]) (auto simp: WaitForHosts_def)
qed

end
