(* ===== verification/Client_Locks.thy ===== *)
theory Client_Locks
  imports Client_Laws
begin

text \<open>
  The locking of the client's goroutines: the mutex of the host map (\<^verbatim>\<open>src/pkg/hostmap.go\<close>) and the read-write mutex of the client
  (\<^verbatim>\<open>src/pkg/client.go\<close>). A goroutine is the sequence of lock operations it has still to do.
\<close>

subsection \<open>Mutexes\<close>

datatype mutex = HostMapMu | ClientMu

datatype lock_op = Lock mutex | Unlock mutex | RLock mutex | RUnlock mutex

record lock_state =
  ls_owner :: "mutex \<Rightarrow> nat option"
  ls_readers :: "mutex \<Rightarrow> nat list"
  ls_todo :: "nat \<Rightarrow> lock_op list"

inductive lock_step :: "lock_state \<Rightarrow> lock_state \<Rightarrow> bool" where
  lock: "ls_todo s t = Lock m # ops \<Longrightarrow> ls_owner s m = None \<Longrightarrow> ls_readers s m = [] \<Longrightarrow>
    lock_step s (s\<lparr>ls_owner := (ls_owner s)(m \<mapsto> t), ls_todo := (ls_todo s)(t := ops)\<rparr>)"
| unlock: "ls_todo s t = Unlock m # ops \<Longrightarrow> ls_owner s m = Some t \<Longrightarrow>
    lock_step s (s\<lparr>ls_owner := (ls_owner s)(m := None), ls_todo := (ls_todo s)(t := ops)\<rparr>)"
| rlock: "ls_todo s t = RLock m # ops \<Longrightarrow> ls_owner s m = None \<Longrightarrow>
    lock_step s (s\<lparr>ls_readers := (ls_readers s)(m := t # ls_readers s m), ls_todo := (ls_todo s)(t := ops)\<rparr>)"
| runlock: "ls_todo s t = RUnlock m # ops \<Longrightarrow> t \<in> set (ls_readers s m) \<Longrightarrow>
    lock_step s (s\<lparr>ls_readers := (ls_readers s)(m := remove1 t (ls_readers s m)), ls_todo := (ls_todo s)(t := ops)\<rparr>)"

inductive_cases lock_stepE: "lock_step s s'"

definition lock_init :: "(nat \<Rightarrow> lock_op list) \<Rightarrow> lock_state" where
  "lock_init todo = \<lparr>ls_owner = Map.empty, ls_readers = (\<lambda>_. []), ls_todo = todo\<rparr>"

subsection \<open>The goroutines\<close>

text \<open>
  \<^verbatim>\<open>HostMap.Set\<close> with the callback \<^verbatim>\<open>addHost\<close>; \<^verbatim>\<open>monitorHost\<close> when the host does not answer, with \<^verbatim>\<open>HostMap.Remove\<close>; the choice of a host for a
  retrieval without a remembered host; and \<^verbatim>\<open>HostsAvailable\<close>.
\<close>

definition set_program :: "lock_op list" where
  "set_program = [Lock HostMapMu, Lock ClientMu, Unlock ClientMu, Unlock HostMapMu]"

definition monitor_program :: "lock_op list" where
  "monitor_program = [Lock ClientMu, Lock HostMapMu, Unlock HostMapMu, Unlock ClientMu]"

definition retrieval_program :: "lock_op list" where
  "retrieval_program = [RLock ClientMu, RUnlock ClientMu, Lock ClientMu, Unlock ClientMu]"

definition available_program :: "lock_op list" where
  "available_program = [Lock HostMapMu, Unlock HostMapMu]"

subsection \<open>Deadlock\<close>

text \<open>The discovery goroutine \<open>d\<close> holds the host map and wants the client; the monitor \<open>m\<close> holds the client and wants the host map.\<close>

definition deadlocked :: "nat \<Rightarrow> nat \<Rightarrow> lock_state \<Rightarrow> bool" where
  "deadlocked d m s \<longleftrightarrow>
     d \<noteq> m \<and> ls_owner s HostMapMu = Some d \<and> ls_owner s ClientMu = Some m \<and>
     ls_todo s d = tl set_program \<and> ls_todo s m = tl monitor_program"

definition wants_lock :: "lock_op list \<Rightarrow> bool" where
  "wants_lock ops \<longleftrightarrow> (\<exists>x rest. ops = Lock x # rest \<or> ops = RLock x # rest)"

lemma deadlocked_step:
  assumes "deadlocked d m s" "lock_step s s'"
  shows "deadlocked d m s' \<and> (\<forall>t. wants_lock (ls_todo s t) \<longrightarrow> ls_todo s' t = ls_todo s t)"
proof -
  have held: "ls_owner s x \<noteq> None" for x using assms(1) by (cases x) (simp_all add: deadlocked_def)
  have todo: "ls_todo s d = [Lock ClientMu, Unlock ClientMu, Unlock HostMapMu]"
    "ls_todo s m = [Lock HostMapMu, Unlock HostMapMu, Unlock ClientMu]"
    using assms(1) by (simp_all add: deadlocked_def set_program_def monitor_program_def)
  from assms(2) show ?thesis
  proof (cases rule: lock_step.cases)
    case (unlock t x ops)
    then have "t = d \<or> t = m" using assms(1) by (cases x) (auto simp: deadlocked_def)
    with unlock todo show ?thesis by auto
  next
    case (runlock t x ops)
    then have "t \<noteq> d" "t \<noteq> m" using todo by auto
    with runlock assms(1) show ?thesis by (auto simp: deadlocked_def wants_lock_def)
  qed (use held in auto)
qed

lemma deadlocked_forever:
  assumes "deadlocked d m s" "lock_step\<^sup>*\<^sup>* s s'"
  shows "deadlocked d m s' \<and> (\<forall>t. wants_lock (ls_todo s t) \<longrightarrow> ls_todo s' t = ls_todo s t)"
  using assms(2,1)
proof (induction rule: rtranclp_induct)
  case (step y z)
  then show ?case using deadlocked_step [of d m y z] by auto
qed simp

text \<open>
  C38: The client can deadlock. A host being added takes the lock of the host map and then that of the client, while a monitor that
  removes a host takes them the other way round. When each has taken its first lock neither ever takes another step, and every
  goroutine that is about to lock either mutex (a request choosing its host, a wait for hosts) stays where it is for ever.
\<close>

theorem lock_order_deadlock:
  assumes "d \<noteq> m" "todo d = set_program" "todo m = monitor_program"
  shows "\<exists>s. lock_step\<^sup>*\<^sup>* (lock_init todo) s \<and>
    (\<forall>t. t \<noteq> d \<longrightarrow> t \<noteq> m \<longrightarrow> ls_todo s t = todo t) \<and>
    (\<forall>s'. lock_step\<^sup>*\<^sup>* s s' \<longrightarrow> ls_todo s' d = tl set_program \<and> ls_todo s' m = tl monitor_program \<and>
       (\<forall>t. wants_lock (ls_todo s t) \<longrightarrow> ls_todo s' t = ls_todo s t))"
proof -
  define s1 where "s1 = (lock_init todo)\<lparr>ls_owner := (ls_owner (lock_init todo))(HostMapMu \<mapsto> d),
    ls_todo := (ls_todo (lock_init todo))(d := tl set_program)\<rparr>"
  define s2 where "s2 = s1\<lparr>ls_owner := (ls_owner s1)(ClientMu \<mapsto> m), ls_todo := (ls_todo s1)(m := tl monitor_program)\<rparr>"
  have one: "lock_step (lock_init todo) s1"
    unfolding s1_def by (rule lock_step.lock) (use assms in \<open>simp_all add: lock_init_def set_program_def\<close>)
  have two: "lock_step s1 s2"
    unfolding s2_def by (rule lock_step.lock) (use assms in \<open>simp_all add: s1_def lock_init_def monitor_program_def\<close>)
  have run: "lock_step\<^sup>*\<^sup>* (lock_init todo) s2"
    using r_into_rtranclp [where r = lock_step, OF one] two by (rule rtranclp.rtrancl_into_rtrancl)
  have dead: "deadlocked d m s2" using assms(1) by (simp add: deadlocked_def s2_def s1_def lock_init_def)
  have rest: "\<forall>t. t \<noteq> d \<longrightarrow> t \<noteq> m \<longrightarrow> ls_todo s2 t = todo t" by (simp add: s2_def s1_def lock_init_def)
  have stuck: "\<forall>s'. lock_step\<^sup>*\<^sup>* s2 s' \<longrightarrow> ls_todo s' d = tl set_program \<and> ls_todo s' m = tl monitor_program \<and>
      (\<forall>t. wants_lock (ls_todo s2 t) \<longrightarrow> ls_todo s' t = ls_todo s2 t)"
    by (intro allI impI, drule deadlocked_forever [OF dead]) (simp add: deadlocked_def)
  show ?thesis by (rule exI [of _ s2]) (rule conjI [OF run conjI [OF rest stuck]])
qed

definition sample_goroutines :: "nat \<Rightarrow> lock_op list" where
  "sample_goroutines = (\<lambda>_. [])(0 := set_program, 1 := monitor_program, 2 := retrieval_program, 3 := available_program)"

theorem lock_order_deadlock_witness:
  "\<exists>s. lock_step\<^sup>*\<^sup>* (lock_init sample_goroutines) s \<and>
    (\<forall>s'. lock_step\<^sup>*\<^sup>* s s' \<longrightarrow> ls_todo s' 2 = retrieval_program \<and> ls_todo s' 3 = available_program)"
proof -
  have g: "(0 :: nat) \<noteq> 1" "sample_goroutines 0 = set_program" "sample_goroutines 1 = monitor_program"
    by (simp_all add: sample_goroutines_def)
  obtain s where s: "lock_step\<^sup>*\<^sup>* (lock_init sample_goroutines) s" "\<forall>t. t \<noteq> 0 \<longrightarrow> t \<noteq> 1 \<longrightarrow> ls_todo s t = sample_goroutines t"
    "\<forall>s'. lock_step\<^sup>*\<^sup>* s s' \<longrightarrow> ls_todo s' 0 = tl set_program \<and> ls_todo s' 1 = tl monitor_program \<and>
       (\<forall>t. wants_lock (ls_todo s t) \<longrightarrow> ls_todo s' t = ls_todo s t)"
    using lock_order_deadlock [OF g] by (elim exE conjE)
  have two: "ls_todo s 2 = retrieval_program" and three: "ls_todo s 3 = available_program"
    using s(2) by (simp_all add: sample_goroutines_def)
  have "wants_lock (ls_todo s 2)" "wants_lock (ls_todo s 3)"
    by (simp_all add: two three wants_lock_def retrieval_program_def available_program_def)
  then have "\<forall>s'. lock_step\<^sup>*\<^sup>* s s' \<longrightarrow> ls_todo s' 2 = retrieval_program \<and> ls_todo s' 3 = available_program"
    using s(3) unfolding two [symmetric] three [symmetric] by blast
  then show ?thesis using s(1) by blast
qed

end
