(* ===== verification/Blob_Fs.thy ===== *)
theory Blob_Fs
  imports Client
begin

text \<open>
  The FUSE file system of \<^verbatim>\<open>src/pkg/blobfs.go\<close> and \<^verbatim>\<open>src/pkg/blobfs_node.go\<close>: its nodes are read from and written to the coordinator, its
  files are read through the client. Go-fuse and the mount commands are arguments. A call passes on the client and the world, as in the
  theory of the client.
\<close>

subsection \<open>Nodes\<close>

record fuse_attr =
  at_Ino :: u64
  at_Size :: u64
  at_Blocks :: u64
  at_Atime :: u64
  at_Mtime :: u64
  at_Ctime :: u64
  at_Atimensec :: u32
  at_Mtimensec :: u32
  at_Ctimensec :: u32
  at_Mode :: u32
  at_Nlink :: u32
  at_Uid :: u32
  at_Gid :: u32
  at_Rdev :: u32
  at_Blksize :: u32
  at_Padding :: u32

definition zero_attr :: fuse_attr where
  "zero_attr = \<lparr>at_Ino = 0, at_Size = 0, at_Blocks = 0, at_Atime = 0, at_Mtime = 0, at_Ctime = 0, at_Atimensec = 0, at_Mtimensec = 0,
     at_Ctimensec = 0, at_Mode = 0, at_Nlink = 0, at_Uid = 0, at_Gid = 0, at_Rdev = 0, at_Blksize = 0, at_Padding = 0\<rparr>"

record BlobFsNode =
  bn_Path :: string
  bn_ID :: string
  bn_PID :: string
  bn_Name :: string
  bn_Target :: string
  bn_Hash :: string
  bn_Attr :: fuse_attr

text \<open>An inode: the node, the attributes it was looked up with, and what identifies it to the kernel.\<close>

record FSNode =
  fn_bfsNode :: BlobFsNode
  fn_attr :: fuse_attr
  fn_StableMode :: u32
  fn_StableIno :: u64
  fn_StableGen :: u64

datatype errno = ENOENT | EIO | EAGAIN | EINVAL | ENOTEMPTY | ENOATTR

datatype 'a fuse_res = FOk 'a | FErr errno | FPanic

definition Getattr :: "FSNode \<Rightarrow> fuse_attr \<Rightarrow> fuse_attr" where
  "Getattr n out =
     (let a = bn_Attr (fn_bfsNode n)
      in out\<lparr>at_Ino := at_Ino a, at_Size := at_Size a, at_Blocks := at_Blocks a, at_Atime := at_Atime a, at_Mtime := at_Mtime a,
          at_Ctime := at_Ctime a, at_Mode := at_Mode a, at_Nlink := at_Nlink a, at_Uid := at_Uid a, at_Gid := at_Gid a,
          at_Atimensec := at_Atimensec a, at_Mtimensec := at_Mtimensec a, at_Ctimensec := at_Ctimensec a\<rparr>)"

definition metaToAttr :: "BlobFsMetadata \<Rightarrow> fuse_attr" where
  "metaToAttr md =
     \<lparr>at_Ino = md_Ino md, at_Size = md_Size md, at_Blocks = md_Blocks md, at_Atime = md_Atime md, at_Mtime = md_Mtime md,
      at_Ctime = md_Ctime md, at_Atimensec = md_Atimensec md, at_Mtimensec = md_Mtimensec md, at_Ctimensec = md_Ctimensec md,
      at_Mode = md_Mode md, at_Nlink = md_Nlink md, at_Uid = md_Uid md, at_Gid = md_Gid md, at_Rdev = md_Rdev md,
      at_Blksize = md_Blksize md, at_Padding = md_Padding md\<rparr>"

definition meta_node :: "BlobFsMetadata \<Rightarrow> BlobFsNode" where
  "meta_node md =
     \<lparr>bn_Path = md_Path md, bn_ID = md_ID md, bn_PID = md_PID md, bn_Name = md_Name md, bn_Target = [], bn_Hash = md_Hash md,
      bn_Attr = metaToAttr md\<rparr>"

definition inodeFromFsId :: "'w coordinator \<Rightarrow> 'w \<Rightarrow> string \<Rightarrow> 'w \<times> FSNode fuse_res" where
  "inodeFromFsId C w fsId =
     (case co_GetFsNode C w fsId of
        (w1, Err e) \<Rightarrow> (w1, FErr ENOENT)
      | (w1, Panic) \<Rightarrow> (w1, FPanic)
      | (w1, Ok md) \<Rightarrow>
          (w1, FOk \<lparr>fn_bfsNode = meta_node md, fn_attr = metaToAttr md, fn_StableMode = md_Mode md, fn_StableIno = md_Ino md,
                     fn_StableGen = md_Gen md\<rparr>))"

subsection \<open>Looking up and reading\<close>

definition fs_Lookup :: "('h, 'w) client_env \<Rightarrow> int \<Rightarrow> FSNode \<Rightarrow> string \<Rightarrow> 'h BlobCacheClient \<times> 'w
    \<Rightarrow> ('h BlobCacheClient \<times> 'w) \<times> FSNode fuse_res" where
  "fs_Lookup E now n name s =
     (let fullPath = filepath_Join [bn_Path (fn_bfsNode n), name]
      in if CHR ''%'' \<in> set fullPath then
           (let sourcePath = replace_char CHR ''%'' CHR ''/'' fullPath
            in case StoreContentFromFUSE E now sourcePath sourcePath True s of
                 (s1, Err e) \<Rightarrow> (s1, FErr ENOENT)
               | (s1, Panic) \<Rightarrow> (s1, FPanic)
               | ((c1, w1), Ok _) \<Rightarrow> (let (w2, r) = inodeFromFsId (ce_C E) w1 (GenerateFsID sourcePath) in ((c1, w2), r)))
         else (let (w1, r) = inodeFromFsId (ce_C E) (snd s) (GenerateFsID fullPath) in ((fst s, w1), r)))"

text \<open>The flags \<^verbatim>\<open>FOPEN_DIRECT_IO\<close> and \<^verbatim>\<open>FOPEN_KEEP_CACHE\<close> of the FUSE protocol are 1 and 2.\<close>

unbundle bit_operations_syntax

definition fs_Open :: "BlobCacheClientConfig \<Rightarrow> u32" where
  "fs_Open cfg = (if bf_DirectIO (cc_BlobFs cfg) then (0 OR 1) AND NOT 2 else 0)"

text \<open>\<open>size\<close> bytes are asked for at \<open>off\<close>; the two reads happen at the times \<open>now1\<close> and \<open>now2\<close> of their attempts.\<close>

definition fs_Read :: "('h, 'w) client_env \<Rightarrow> (nat \<Rightarrow> int) \<Rightarrow> int \<Rightarrow> (nat \<Rightarrow> int) \<Rightarrow> FSNode \<Rightarrow> int \<Rightarrow> int \<Rightarrow> 'h BlobCacheClient \<times> 'w
    \<Rightarrow> ('h BlobCacheClient \<times> 'w) \<times> bytes fuse_res" where
  "fs_Read E now1 now now2 n len off s =
     (if at_Size (bn_Attr (fn_bfsNode n)) = 0 then (s, FOk [])
      else
        (let sourcePath = bn_Path (fn_bfsNode n);
             hash = bn_Hash (fn_bfsNode n)
         in case client_GetContent E now1 hash off len sourcePath s of
              (s1, Ok buffer) \<Rightarrow> (s1, FOk buffer)
            | (s1, Panic) \<Rightarrow> (s1, FPanic)
            | (s1, Err e) \<Rightarrow>
                if e = ErrContentNotFound then
                  (case StoreContentFromFUSE E now sourcePath sourcePath True s1 of
                     (s2, Panic) \<Rightarrow> (s2, FPanic)
                   | (s2, Err e2) \<Rightarrow> (s2, FErr (if e2 = ErrUnableToAcquireLock then EAGAIN else EIO))
                   | (s2, Ok _) \<Rightarrow>
                       (case client_GetContent E now2 hash off len sourcePath s2 of
                          (s3, Panic) \<Rightarrow> (s3, FPanic)
                        | (s3, Err _) \<Rightarrow> (s3, FErr EIO)
                        | (s3, Ok _) \<Rightarrow> (s3, FErr EIO)))
                else (s1, FErr EIO)))"

definition Readlink :: "FSNode \<Rightarrow> string fuse_res" where
  "Readlink n = (if bn_Target (fn_bfsNode n) = [] then FErr EINVAL else FOk (bn_Target (fn_bfsNode n)))"

record dir_entry =
  de_Mode :: u32
  de_Name :: string
  de_Ino :: u64

definition Readdir :: "'w coordinator \<Rightarrow> FSNode \<Rightarrow> 'w \<Rightarrow> 'w \<times> dir_entry list fuse_res" where
  "Readdir C n w =
     (case co_GetFsNodeChildren C w (GenerateFsID (bn_Path (fn_bfsNode n))) of
        (w1, Err e) \<Rightarrow> (w1, FErr ENOATTR)
      | (w1, Panic) \<Rightarrow> (w1, FPanic)
      | (w1, Ok children) \<Rightarrow> (w1, FOk (map (\<lambda>md. \<lparr>de_Mode = md_Mode md, de_Name = md_Name md, de_Ino = md_Ino md\<rparr>) children)))"

subsection \<open>Changing the tree\<close>

text \<open>\<^verbatim>\<open>Create\<close> and \<^verbatim>\<open>Mkdir\<close> differ only in the mode; the time is given in seconds and nanoseconds.\<close>

definition new_node :: "'w coordinator \<Rightarrow> u64 \<times> u32 \<Rightarrow> FSNode \<Rightarrow> string \<Rightarrow> u32 \<Rightarrow> 'w \<Rightarrow> 'w \<times> FSNode fuse_res" where
  "new_node C now n name mode w =
     (let fullPath = filepath_Join [bn_Path (fn_bfsNode n), name];
          newFsId = GenerateFsID fullPath;
          (nowSec, nowNsec) = now;
          metadata = zero_BlobFsMetadata\<lparr>md_PID := bn_ID (fn_bfsNode n), md_ID := newFsId, md_Name := name, md_Path := fullPath,
            md_Ino := 0, md_Mode := mode, md_Atime := nowSec, md_Mtime := nowSec, md_Ctime := nowSec, md_Atimensec := nowNsec,
            md_Mtimensec := nowNsec, md_Ctimensec := nowNsec, md_Size := 0, md_Hash := []\<rparr>
      in case co_SetFsNode C w newFsId metadata of
           (w1, Panic) \<Rightarrow> (w1, FPanic)
         | (w1, Err e) \<Rightarrow> (w1, FErr EIO)
         | (w1, Ok _) \<Rightarrow>
             (case co_AddFsNodeChild C w1 (bn_ID (fn_bfsNode n)) newFsId of
                (w2, Panic) \<Rightarrow> (w2, FPanic)
              | (w2, Err e) \<Rightarrow> (w2, FErr EIO)
              | (w2, Ok _) \<Rightarrow>
                  (w2, FOk \<lparr>fn_bfsNode = \<lparr>bn_Path = fullPath, bn_ID = newFsId, bn_PID = [], bn_Name = name, bn_Target = [], bn_Hash = [],
                      bn_Attr = zero_attr\<lparr>at_Mode := mode\<rparr>\<rparr>, fn_attr = zero_attr, fn_StableMode = mode, fn_StableIno = md_Ino metadata,
                      fn_StableGen = 0\<rparr>)))"

definition Create :: "'w coordinator \<Rightarrow> u64 \<times> u32 \<Rightarrow> FSNode \<Rightarrow> string \<Rightarrow> u32 \<Rightarrow> 'w \<Rightarrow> 'w \<times> FSNode fuse_res" where
  "Create C now n name mode w = new_node C now n name mode w"

definition Mkdir :: "'w coordinator \<Rightarrow> u64 \<times> u32 \<Rightarrow> FSNode \<Rightarrow> string \<Rightarrow> u32 \<Rightarrow> 'w \<Rightarrow> 'w \<times> FSNode fuse_res" where
  "Mkdir C now n name mode w = new_node C now n name (S_IFDIR OR mode) w"

definition Unlink :: "'w coordinator \<Rightarrow> FSNode \<Rightarrow> string \<Rightarrow> 'w \<Rightarrow> 'w \<times> unit fuse_res" where
  "Unlink C n name w =
     (let fsId = GenerateFsID (filepath_Join [bn_Path (fn_bfsNode n), name])
      in case co_RemoveFsNode C w fsId of
           (w1, Panic) \<Rightarrow> (w1, FPanic)
         | (w1, Err e) \<Rightarrow> (w1, FErr EIO)
         | (w1, Ok _) \<Rightarrow>
             (case co_RemoveFsNodeChild C w1 (bn_ID (fn_bfsNode n)) fsId of
                (w2, Panic) \<Rightarrow> (w2, FPanic)
              | (w2, Err e) \<Rightarrow> (w2, FErr EIO)
              | (w2, Ok _) \<Rightarrow> (w2, FOk ())))"

definition Rmdir :: "'w coordinator \<Rightarrow> FSNode \<Rightarrow> string \<Rightarrow> 'w \<Rightarrow> 'w \<times> unit fuse_res" where
  "Rmdir C n name w =
     (let fsId = GenerateFsID (filepath_Join [bn_Path (fn_bfsNode n), name])
      in case co_GetFsNodeChildren C w fsId of
           (w1, Panic) \<Rightarrow> (w1, FPanic)
         | (w1, Err e) \<Rightarrow> (w1, FErr EIO)
         | (w1, Ok children) \<Rightarrow> if children \<noteq> [] then (w1, FErr ENOTEMPTY) else Unlink C n name w1)"

text \<open>\<^verbatim>\<open>Rename\<close> does not look at the new parent it is given.\<close>

definition Rename :: "'w coordinator \<Rightarrow> FSNode \<Rightarrow> string \<Rightarrow> FSNode \<Rightarrow> string \<Rightarrow> 'w \<Rightarrow> 'w \<times> unit fuse_res" where
  "Rename C n oldName newParent newName w =
     (let parent = fn_bfsNode n;
          newFullPath = filepath_Join [bn_Path parent, newName];
          oldFsId = GenerateFsID (filepath_Join [bn_Path parent, oldName]);
          newFsId = GenerateFsID newFullPath
      in case co_GetFsNode C w oldFsId of
           (w1, Panic) \<Rightarrow> (w1, FPanic)
         | (w1, Err e) \<Rightarrow> (w1, FErr ENOENT)
         | (w1, Ok metadata) \<Rightarrow>
             (case co_SetFsNode C w1 newFsId (metadata\<lparr>md_Name := newName, md_Path := newFullPath\<rparr>) of
                (w2, Panic) \<Rightarrow> (w2, FPanic)
              | (w2, Err e) \<Rightarrow> (w2, FErr EIO)
              | (w2, Ok _) \<Rightarrow>
                  (case co_RemoveFsNodeChild C w2 (bn_ID parent) oldFsId of
                     (w3, Panic) \<Rightarrow> (w3, FPanic)
                   | (w3, Err e) \<Rightarrow> (w3, FErr EIO)
                   | (w3, Ok _) \<Rightarrow>
                       (case co_AddFsNodeChild C w3 (bn_ID parent) newFsId of
                          (w4, Panic) \<Rightarrow> (w4, FPanic)
                        | (w4, Err e) \<Rightarrow> (w4, FErr EIO)
                        | (w4, Ok _) \<Rightarrow> (w4, FOk ())))))"

subsection \<open>Mounting\<close>

definition root_meta :: BlobFsMetadata where
  "root_meta = zero_BlobFsMetadata\<lparr>md_PID := [], md_ID := GenerateFsID ''/'', md_Path := ''/'', md_Ino := 1, md_Mode := S_IFDIR OR 0x1ED\<rparr>"

definition root_node :: "BlobFsMetadata \<Rightarrow> FSNode" where
  "root_node dirMeta =
     (let attr = zero_attr\<lparr>at_Ino := 1, at_Mode := md_Mode dirMeta\<rparr>
      in \<lparr>fn_bfsNode = \<lparr>bn_Path = md_Path dirMeta, bn_ID = md_ID dirMeta, bn_PID = md_PID dirMeta, bn_Name = [], bn_Target = [], bn_Hash = [],
            bn_Attr = attr\<rparr>, fn_attr = attr, fn_StableMode = 0, fn_StableIno = 0, fn_StableGen = 0\<rparr>)"

definition NewFileSystem :: "'w coordinator \<Rightarrow> 'w \<Rightarrow> 'w \<times> FSNode res" where
  "NewFileSystem C w =
     (case co_GetFsNode C w (GenerateFsID ''/'') of
        (w1, Panic) \<Rightarrow> (w1, Panic)
      | (w1, Ok dirMeta) \<Rightarrow> (w1, Ok (root_node dirMeta))
      | (w1, Err _) \<Rightarrow>
          (case co_SetFsNode C w1 (GenerateFsID ''/'') root_meta of
             (w2, Panic) \<Rightarrow> (w2, Panic)
           | (w2, Err e) \<Rightarrow> (w2, Err e)
           | (w2, Ok _) \<Rightarrow> (w2, Ok (root_node root_meta))))"

fun contains_str :: "string \<Rightarrow> string \<Rightarrow> bool" where
  "contains_str [] t = (t = [])"
| "contains_str (c # s) t = (take (length t) (c # s) = t \<or> contains_str s t)"

definition isFuseMount :: "(string \<Rightarrow> string option) \<Rightarrow> string \<Rightarrow> bool" where
  "isFuseMount findmnt mountPoint = (case findmnt mountPoint of None \<Rightarrow> False | Some output \<Rightarrow> contains_str output ''fuse'')"

record mount_options =
  mo_MaxBackground :: int
  mo_DisableXAttrs :: bool
  mo_EnableSymlinkCaching :: bool
  mo_SyncRead :: bool
  mo_RememberInodes :: bool
  mo_MaxReadAhead :: int
  mo_MaxWrite :: int
  mo_Options :: "string list"
  mo_DirectMount :: bool

definition fuse_mount_options :: "BlobFsConfig \<Rightarrow> mount_options" where
  "fuse_mount_options cfg =
     (let maxWriteKB = (if bf_MaxWriteKB cfg \<le> 0 then 1024 else bf_MaxWriteKB cfg);
          maxReadAheadKB = (if bf_MaxReadAheadKB cfg \<le> 0 then 128 else bf_MaxReadAheadKB cfg);
          maxBackgroundTasks = (if bf_MaxBackgroundTasks cfg \<le> 0 then 512 else bf_MaxBackgroundTasks cfg)
      in \<lparr>mo_MaxBackground = maxBackgroundTasks, mo_DisableXAttrs = True, mo_EnableSymlinkCaching = True, mo_SyncRead = False,
          mo_RememberInodes = True, mo_MaxReadAhead = wrap64 (maxReadAheadKB * 1024), mo_MaxWrite = wrap64 (maxWriteKB * 1024),
          mo_Options = bf_Options cfg, mo_DirectMount = bf_DirectMount cfg\<rparr>)"

text \<open>
  \<^verbatim>\<open>Mount\<close> up to starting the server: the commands \<^verbatim>\<open>findmnt\<close> and \<^verbatim>\<open>fusermount\<close> and \<^verbatim>\<open>fuse.NewServer\<close> are arguments.
\<close>

definition prepare_mountpoint :: "(string \<Rightarrow> string option) \<Rightarrow> (string \<Rightarrow> bool) \<Rightarrow> fs \<Rightarrow> string \<Rightarrow> fs \<times> unit res" where
  "prepare_mountpoint findmnt fusermount f mountPoint =
     (if os_Stat f mountPoint = None then
        (case os_MkdirAll f mountPoint of
           (f1, True) \<Rightarrow> (f1, Ok ())
         | (f1, False) \<Rightarrow> (f1, Err (ErrMsg ''failed to create mount point directory'')))
      else if isFuseMount findmnt mountPoint \<and> \<not> fusermount mountPoint then
        (f, Err (ErrMsg ''failed to unmount existing FUSE mount''))
      else (f, Ok ()))"

definition Mount :: "(string \<Rightarrow> string option) \<Rightarrow> (string \<Rightarrow> bool) \<Rightarrow> (FSNode \<Rightarrow> string \<Rightarrow> mount_options \<Rightarrow> unit res) \<Rightarrow> 'w coordinator
    \<Rightarrow> BlobFsConfig \<Rightarrow> fs \<Rightarrow> 'w \<Rightarrow> fs \<times> 'w \<times> FSNode res" where
  "Mount findmnt fusermount newServer C cfg f w =
     (let mountPoint = bf_MountPoint cfg
      in case prepare_mountpoint findmnt fusermount f mountPoint of
           (f1, Err e) \<Rightarrow> (f1, w, Err e)
         | (f1, Panic) \<Rightarrow> (f1, w, Panic)
         | (f1, Ok _) \<Rightarrow>
             (case NewFileSystem C w of
                (w1, Err e) \<Rightarrow> (f1, w1, Err (ErrMsg ''could not create filesystem''))
              | (w1, Panic) \<Rightarrow> (f1, w1, Panic)
              | (w1, Ok rootNode) \<Rightarrow>
                  (case newServer rootNode mountPoint (fuse_mount_options cfg) of
                     Err e \<Rightarrow> (f1, w1, Err (ErrMsg ''could not create server''))
                   | Panic \<Rightarrow> (f1, w1, Panic)
                   | Ok _ \<Rightarrow> (f1, w1, Ok rootNode))))"

record mount_info =
  mi_Mountpoint :: string
  mi_Major :: int
  mi_Minor :: int

definition readAheadKB :: int where "readAheadKB = 32768"

text \<open>The shell command that \<^verbatim>\<open>updateReadAheadKB\<close> runs.\<close>

definition read_ahead_command :: "int \<Rightarrow> mount_info \<Rightarrow> string list" where
  "read_ahead_command valueKB m =
     [''sh'', ''-c'', ''echo '' @ itoa valueKB @ '' > /sys/class/bdi/'' @ itoa (mi_Major m) @ '':'' @ itoa (mi_Minor m) @ ''/read_ahead_kb'']"

definition updateReadAheadKB :: "mount_info list option \<Rightarrow> (string list \<Rightarrow> bool) \<Rightarrow> string \<Rightarrow> int \<Rightarrow> unit res" where
  "updateReadAheadKB mounts run mountPoint valueKB =
     (case mounts of
        None \<Rightarrow> Err (ErrMsg ''failed to get mount info'')
      | Some ms \<Rightarrow>
          (case find (\<lambda>m. mi_Mountpoint m = mountPoint) ms of
             None \<Rightarrow> Err (ErrMsg ''mount point not found'')
           | Some m \<Rightarrow> if run (read_ahead_command valueKB m) then Ok () else Err (ErrMsg ''failed to update read_ahead_kb'')))"

end
