(* ===== verification/Server_Laws.thy ===== *)
theory Server_Laws
  imports Server
begin

text \<open>
  What the server achieves with the storage and the coordinator it calls, proved from their interfaces: content is returned as it was
  stored, streamed completely, and stored under its digest; a stored source file can be walked to from the root.
\<close>

subsection \<open>Paths\<close>

abbreviation abs_path :: "string list \<Rightarrow> string" where
  "abs_path es \<equiv> render True es"

definition plain_path :: "string list \<Rightarrow> bool" where
  "plain_path es \<longleftrightarrow> (\<forall>e \<in> set es. plain_name e)"

lemma plain_normal: "plain_path es \<Longrightarrow> normal True es"
  unfolding plain_path_def using normal_append [of True "[]" es] by simp

lemma normal_plain: "normal True es \<Longrightarrow> plain_path es"
  unfolding plain_path_def normal_def by auto

lemma elements_root [simp]: "elements ''/'' = []"
  by (simp add: elements_def clean_step_def)

lemma rooted_root [simp]: "rooted (CHR ''/'' # s)"
  by (simp add: rooted_def)

lemma abs_path_Nil: "abs_path [] = ''/''"
  by (simp add: render_def)

lemma abs_path_root: "plain_path es \<Longrightarrow> abs_path es = ''/'' \<longleftrightarrow> es = []"
  using join_normal(1) [OF plain_normal, of es] by (auto simp: render_def Let_def)

lemma abs_path_inj: "plain_path es \<Longrightarrow> plain_path es' \<Longrightarrow> abs_path es = abs_path es' \<longleftrightarrow> es = es'"
  using render_inj [of True es es'] plain_normal abs_path_root [of es] abs_path_root [of es'] by (metis abs_path_Nil)

lemma Join_abs:
  assumes "plain_path es" "plain_name p"
  shows "filepath_Join [abs_path es, p] = abs_path (es @ [p])"
proof (cases "es = []")
  case True
  then show ?thesis using Join_plain [of "''/''" "[p]"] assms(2) by (simp add: abs_path_Nil)
next
  case False
  then show ?thesis
    using Join_plain [of "abs_path es" "[p]"] assms rooted_render [OF plain_normal, of es] elements_render [OF plain_normal, of es] by simp
qed

text \<open>Joining anything to the root gives the path of a list of plain names.\<close>

definition path_elems :: "string \<Rightarrow> string list" where
  "path_elems q = elements (''//'' @ q)"

lemma Join_root: "filepath_Join [''/'', q] = abs_path (path_elems q)"
  by (simp add: filepath_Join.simps filepath_Clean_def path_elems_def)

lemma path_elems_plain: "plain_path (path_elems q)"
  unfolding path_elems_def using normal_elements [of "''//'' @ q"] by (intro normal_plain) simp

lemma split_abs: "plain_path es \<Longrightarrow> es \<noteq> [] \<Longrightarrow> split_on CHR ''/'' (abs_path es) = [] # es"
proof -
  assume "plain_path es" "es \<noteq> []"
  then have "split_on CHR ''/'' (join_with CHR ''/'' es) = es"
    using normal_slash_free [OF plain_normal] by (intro split_join) blast+
  then show ?thesis by (simp add: render_def)
qed

subsection \<open>The nodes of a path\<close>

definition path_id :: "string list \<Rightarrow> string" where
  "path_id es = GenerateFsID (abs_path es)"

text \<open>The digests of the path and of its directories below the root are different.\<close>

definition ids_differ :: "string list \<Rightarrow> bool" where
  "ids_differ es \<longleftrightarrow> inj_on (\<lambda>k. path_id (take k es)) {1..length es}"

definition node_on_path :: "(string \<Rightarrow> BlobFsMetadata option) \<Rightarrow> (string \<Rightarrow> string set) \<Rightarrow> string list \<Rightarrow> nat \<Rightarrow> bool" where
  "node_on_path nodes kids es k \<longleftrightarrow>
     (\<exists>md. nodes (path_id (take (Suc k) es)) = Some md \<and> md_PID md = path_id (take k es) \<and> md_ID md = path_id (take (Suc k) es) \<and>
        md_Name md = es ! k \<and> md_Path md = abs_path (take (Suc k) es)) \<and>
     path_id (take (Suc k) es) \<in> kids (path_id (take k es))"

definition walkable :: "(string \<Rightarrow> BlobFsMetadata option) \<Rightarrow> (string \<Rightarrow> string set) \<Rightarrow> string list \<Rightarrow> nat \<Rightarrow> bool" where
  "walkable nodes kids es n \<longleftrightarrow> (\<forall>k < n. node_on_path nodes kids es k)"

definition file_stored :: "(string \<Rightarrow> BlobFsMetadata option) \<Rightarrow> string list \<Rightarrow> string \<Rightarrow> u64 \<Rightarrow> bool" where
  "file_stored nodes es hash sz \<longleftrightarrow> (\<exists>md. nodes (path_id es) = Some md \<and> md_Hash md = hash \<and> md_Size md = sz)"

lemma node_on_path_cong:
  assumes "node_on_path nodes kids es k" "nodes' (path_id (take (Suc k) es)) = nodes (path_id (take (Suc k) es))"
    and "kids (path_id (take k es)) \<subseteq> kids' (path_id (take k es))"
  shows "node_on_path nodes' kids' es k"
  using assms unfolding node_on_path_def by auto

text \<open>One part of the path: what \<^verbatim>\<open>store_parts\<close> does for it.\<close>

lemma file_node_fields:
  assumes "file_node E f p hash sz md = Ok md'"
  shows "md_PID md' = md_PID md" "md_ID md' = md_ID md" "md_Name md' = md_Name md" "md_Path md' = md_Path md"
    and "os_Stat f p = Some (File b) \<Longrightarrow> md_Hash md' = hash \<and> md_Size md' = sz"
  using assms by (auto simp: file_node_def Let_def split: option.splits fs_node.splits)

lemma store_parts_step:
  assumes "store_parts E f path hash sz (Suc i) (part # parts) (abs_path es) pid st = (st', Ok ())"
    and "plain_path es" "plain_name part"
  obtains md st1 st2 where
    "co_SetFsNode (en_C E) st (path_id (es @ [part])) md = (st1, Ok ())"
    "co_AddFsNodeChild (en_C E) st1 pid (path_id (es @ [part])) = (st2, Ok ())"
    "store_parts E f path hash sz (Suc (Suc i)) parts (abs_path (es @ [part])) (path_id (es @ [part])) st2 = (st', Ok ())"
    "md_PID md = pid" "md_ID md = path_id (es @ [part])" "md_Name md = part" "md_Path md = abs_path (es @ [part])"
    "abs_path (es @ [part]) = path \<Longrightarrow> os_Stat f path = Some (File b) \<Longrightarrow> md_Hash md = hash \<and> md_Size md = sz"
proof -
  have cur: "(if abs_path es = ''/'' then filepath_Join [''/'', part] else filepath_Join [abs_path es, part]) = abs_path (es @ [part])"
    using Join_abs [OF assms(2,3)] abs_path_root [OF assms(2)] by (metis abs_path_Nil)
  obtain nowSec nowNsec where now: "en_now E (Suc i) = (nowSec, nowNsec)" by fastforce
  define md0 where "md0 = zero_BlobFsMetadata\<lparr>md_PID := pid, md_ID := path_id (es @ [part]), md_Name := part,
      md_Path := abs_path (es @ [part]), md_Ino := be_u64 (take 8 (sha256 (string_bytes (abs_path (es @ [part]))))), md_Mode := dir_mode,
      md_Atime := nowSec, md_Mtime := nowSec, md_Ctime := nowSec, md_Atimensec := nowNsec, md_Mtimensec := nowNsec, md_Ctimensec := nowNsec\<rparr>"
  have md0: "md_PID md0 = pid" "md_ID md0 = path_id (es @ [part])" "md_Name md0 = part" "md_Path md0 = abs_path (es @ [part])"
    by (simp_all add: md0_def)
  define r where "r = (if abs_path (es @ [part]) = path then file_node E f (abs_path (es @ [part])) hash sz md0 else Ok md0)"
  note unf = assms(1) [unfolded store_parts.simps cur Let_def FsID_inode res.case now prod.case, folded path_id_def, folded md0_def, folded r_def, simplified]
  obtain md where md: "r = Ok md" using unf by (cases r) auto
  obtain st1 y where s1: "co_SetFsNode (en_C E) st (path_id (es @ [part])) md = (st1, y)" by fastforce
  have y: "y = Ok ()" using unf md s1 by (cases y) auto
  obtain st2 z where s2: "co_AddFsNodeChild (en_C E) st1 pid (path_id (es @ [part])) = (st2, z)" by fastforce
  have z: "z = Ok ()" using unf md s1 y s2 by (cases z) auto
  have rest: "store_parts E f path hash sz (Suc (Suc i)) parts (abs_path (es @ [part])) (path_id (es @ [part])) st2 = (st', Ok ())"
    using unf md s1 y s2 z by simp
  have f: "md_PID md = pid \<and> md_ID md = path_id (es @ [part]) \<and> md_Name md = part \<and> md_Path md = abs_path (es @ [part])"
    using md md0 file_node_fields(1-4) [of E f "abs_path (es @ [part])" hash sz md0 md] by (auto simp: r_def split: if_splits)
  have h: "md_Hash md = hash \<and> md_Size md = sz" if "abs_path (es @ [part]) = path" "os_Stat f path = Some (File b)"
    using md that file_node_fields(5) [of E f "abs_path (es @ [part])" hash sz md0 md b] by (simp add: r_def)
  show thesis using that [OF s1 [unfolded y] s2 [unfolded z] rest] f h by blast
qed

lemma plain_take: "plain_path es \<Longrightarrow> plain_path (take k es)"
  unfolding plain_path_def by (auto dest: in_set_takeD)

lemma node_core_sel [simp]:
  "md_PID (node_core md) = md_PID md" "md_ID (node_core md) = md_ID md" "md_Name (node_core md) = md_Name md"
  "md_Path (node_core md) = md_Path md" "md_Hash (node_core md) = md_Hash md" "md_Size (node_core md) = md_Size md"
  "md_Mode (node_core md) = md_Mode md"
  by (simp_all add: node_core_def)

context fs_coordinator
begin

lemma store_parts_walk:
  assumes "en_C E = C" "plain_path es" "ids_differ es" "path = abs_path es"
  shows "inv st \<Longrightarrow> k \<le> length es \<Longrightarrow> walkable (nodes st) (kids st) es k \<Longrightarrow>
    (k = length es \<longrightarrow> 0 < k \<longrightarrow> os_Stat f path = Some (File b) \<longrightarrow> file_stored (nodes st) es hash sz) \<Longrightarrow>
    store_parts E f path hash sz (Suc i) (drop k es) (abs_path (take k es)) (path_id (take k es)) st = (st', Ok ()) \<Longrightarrow>
    inv st' \<and> walkable (nodes st') (kids st') es (length es) \<and>
      (0 < length es \<longrightarrow> os_Stat f path = Some (File b) \<longrightarrow> file_stored (nodes st') es hash sz)"
proof (induction "length es - k" arbitrary: k i st)
  case 0
  then show ?case by simp
next
  case (Suc n)
  then have k: "k < length es" by simp
  have tk: "take (Suc k) es = take k es @ [es ! k]" "drop k es = es ! k # drop (Suc k) es"
    using k by (simp_all add: take_Suc_conv_app_nth Cons_nth_drop_Suc)
  have pn: "plain_name (es ! k)" using assms(2) k by (simp add: plain_path_def)
  obtain md st1 st2 where s: "co_SetFsNode C st (path_id (take (Suc k) es)) md = (st1, Ok ())"
    "co_AddFsNodeChild C st1 (path_id (take k es)) (path_id (take (Suc k) es)) = (st2, Ok ())"
    "store_parts E f path hash sz (Suc (Suc i)) (drop (Suc k) es) (abs_path (take (Suc k) es)) (path_id (take (Suc k) es)) st2 = (st', Ok ())"
    "md_PID md = path_id (take k es)" "md_ID md = path_id (take (Suc k) es)" "md_Name md = es ! k" "md_Path md = abs_path (take (Suc k) es)"
    "abs_path (take (Suc k) es) = path \<Longrightarrow> os_Stat f path = Some (File b) \<Longrightarrow> md_Hash md = hash \<and> md_Size md = sz"
    by (rule store_parts_step [OF Suc.prems(5) [unfolded tk(2)] plain_take [OF assms(2)] pn, of b, folded tk(1), unfolded assms(1)]) blast
  have n1: "nodes st1 = (nodes st)(path_id (take (Suc k) es) \<mapsto> node_core md)" "kids st1 = kids st" "inv st1"
    using set_node [OF Suc.prems(1) s(1)] by auto
  have n2: "nodes st2 = nodes st1" "inv st2"
    "kids st2 = (kids st1)(path_id (take k es) := insert (path_id (take (Suc k) es)) (kids st1 (path_id (take k es))))"
    using add_child [OF n1(3) s(2)] by auto
  have ne: "path_id (take (Suc j) es) \<noteq> path_id (take (Suc k) es)" if "j < k" for j
    using assms(3) that k unfolding ids_differ_def by (auto dest!: inj_onD [where x = "Suc j" and y = "Suc k"])
  have "node_on_path (nodes st2) (kids st2) es j" if "j < Suc k" for j
  proof (cases "j = k")
    case True
    then show ?thesis unfolding node_on_path_def n2 n1 using s(4-7) by simp
  next
    case False
    with that have j: "j < k" by simp
    then have "node_on_path (nodes st) (kids st) es j" using Suc.prems(3) by (simp add: walkable_def)
    then show ?thesis by (rule node_on_path_cong) (use ne [OF j] in \<open>auto simp: n1 n2\<close>)
  qed
  then have w: "walkable (nodes st2) (kids st2) es (Suc k)" by (simp add: walkable_def)
  have last: "file_stored (nodes st2) es hash sz" if "Suc k = length es" "os_Stat f path = Some (File b)"
    using s(8) that assms(4) by (auto simp: file_stored_def n1 n2)
  show ?case
    by (rule Suc.hyps(1) [of "Suc k" st2 "Suc i"]) (use Suc.hyps(2) k n2 w last s(3) in auto)
qed

text \<open>After \<^verbatim>\<open>StoreContentInBlobFs\<close> has succeeded, the file is reached from the root, node by node.\<close>

lemma store_in_blobfs:
  assumes "en_C E = C" "inv st" "ids_differ (path_elems (filepath_Clean path))" "path_elems (filepath_Clean path) \<noteq> []"
    and "StoreContentInBlobFs E f st path hash sz = (st', Ok ())"
  shows "inv st' \<and> walkable (nodes st') (kids st') (path_elems (filepath_Clean path)) (length (path_elems (filepath_Clean path))) \<and>
    (os_Stat f (abs_path (path_elems (filepath_Clean path))) = Some (File b) \<longrightarrow>
       file_stored (nodes st') (path_elems (filepath_Clean path)) hash sz)"
proof -
  let ?es = "path_elems (filepath_Clean path)"
  have "store_parts E f (abs_path ?es) hash sz (Suc 0) ?es (abs_path (take 0 ?es)) (path_id (take 0 ?es)) st = (st', Ok ())"
    using assms(5) split_abs [OF path_elems_plain assms(4)]
    by (simp add: StoreContentInBlobFs_def Join_root path_id_def abs_path_Nil)
  from store_parts_walk [OF assms(1) path_elems_plain assms(3) refl, of st 0 f b hash sz 0 st'] this assms(2,4) show ?thesis
    by (simp add: walkable_def)
qed

end

end
