(* ===== verification/Blob_Fs_Laws.thy ===== *)
theory Blob_Fs_Laws
  imports Blob_Fs Server_Laws
begin

text \<open>
  The file system over any coordinator that keeps the contract of nodes and children: what its operations do to the tree, and that a
  path stored by a server is found by looking up its names one after the other.
\<close>

subsection \<open>Walking\<close>

fun fs_walk :: "('h, 'w) client_env \<Rightarrow> int \<Rightarrow> FSNode \<Rightarrow> string list \<Rightarrow> 'h BlobCacheClient \<times> 'w
    \<Rightarrow> ('h BlobCacheClient \<times> 'w) \<times> FSNode fuse_res" where
  "fs_walk E now n [] s = (s, FOk n)"
| "fs_walk E now n (name # names) s =
     (case fs_Lookup E now n name s of
        (s1, FOk n1) \<Rightarrow> fs_walk E now n1 names s1
      | (s1, r) \<Rightarrow> (s1, r))"

text \<open>A name that does not ask for caching.\<close>

definition no_percent :: "string list \<Rightarrow> bool" where
  "no_percent es \<longleftrightarrow> (\<forall>e \<in> set es. CHR ''%'' \<notin> set e)"

lemma join_with_chars: "set (join_with c es) \<subseteq> insert c (\<Union> (set ` set es))"
proof (induction es)
  case (Cons e es)
  then show ?case by (cases es) (auto simp: join_with_Cons)
qed simp

lemma no_percent_abs: "no_percent es \<Longrightarrow> CHR ''%'' \<notin> set (abs_path es)"
  using join_with_chars [of "CHR ''/''" es] by (auto simp: no_percent_def render_def Let_def split: if_splits)

lemma Lookup_plain:
  assumes "bn_Path (fn_bfsNode n) = abs_path es" "plain_path es" "plain_name e" "no_percent (es @ [e])"
  shows "fs_Lookup E now n e (c, w) =
    (let (w1, r) = inodeFromFsId (ce_C E) w (path_id (es @ [e])) in ((c, w1), r))"
  using no_percent_abs [OF assms(4)] by (simp add: fs_Lookup_def assms(1) Join_abs [OF assms(2,3)] path_id_def Let_def)

text \<open>What a node shows of the stored metadata, which does not depend on inode numbers and generations.\<close>

definition shows_node :: "FSNode \<Rightarrow> BlobFsMetadata \<Rightarrow> bool" where
  "shows_node n md \<longleftrightarrow>
     bn_Path (fn_bfsNode n) = md_Path md \<and> bn_ID (fn_bfsNode n) = md_ID md \<and> bn_PID (fn_bfsNode n) = md_PID md \<and>
     bn_Name (fn_bfsNode n) = md_Name md \<and> bn_Hash (fn_bfsNode n) = md_Hash md \<and> at_Size (bn_Attr (fn_bfsNode n)) = md_Size md \<and>
     at_Mode (bn_Attr (fn_bfsNode n)) = md_Mode md"

context fs_coordinator
begin

lemma inode_spec:
  assumes "inv w" "inodeFromFsId C w i = (w', r)"
  shows "inv w' \<and> nodes w' = nodes w \<and> kids w' = kids w \<and> (case r of FOk n \<Rightarrow> \<exists>md. nodes w i = Some md \<and> shows_node n md
     | FErr e \<Rightarrow> e = ENOENT | FPanic \<Rightarrow> False)"
proof -
  obtain w1 y where y: "co_GetFsNode C w i = (w1, y)" by fastforce
  note g = get_node [OF assms(1) y]
  show ?thesis
  proof (cases y)
    case (Ok md)
    then have "nodes w i = Some (node_core md)" using g by blast
    moreover have "shows_node \<lparr>fn_bfsNode = meta_node md, fn_attr = metaToAttr md, fn_StableMode = md_Mode md,
        fn_StableIno = md_Ino md, fn_StableGen = md_Gen md\<rparr> (node_core md)"
      by (simp add: shows_node_def meta_node_def metaToAttr_def)
    ultimately show ?thesis using assms(2) y Ok g by (auto simp: inodeFromFsId_def)
  qed (use assms(2) y g in \<open>auto simp: inodeFromFsId_def\<close>)
qed

text \<open>One step of a walk along a stored path.\<close>

lemma walk_step:
  assumes "ce_C E = C" "plain_path es" "no_percent es" "inv w" "k < length es" "walkable (nodes w) (kids w) es (length es)"
    and "bn_Path (fn_bfsNode n) = abs_path (take k es)"
  obtains w1 r1 where "inodeFromFsId C w (path_id (take (Suc k) es)) = (w1, r1)" "fs_Lookup E now n (es ! k) (c, w) = ((c, w1), r1)"
    "inv w1" "nodes w1 = nodes w" "kids w1 = kids w" "r1 = FErr ENOENT \<or>
      (\<exists>n1 md. r1 = FOk n1 \<and> nodes w (path_id (take (Suc k) es)) = Some md \<and> shows_node n1 md \<and> bn_Path (fn_bfsNode n1) = abs_path (take (Suc k) es))"
proof -
  have tk: "take (Suc k) es = take k es @ [es ! k]" using assms(5) by (simp add: take_Suc_conv_app_nth)
  have pn: "plain_name (es ! k)" using assms(2,5) by (simp add: plain_path_def)
  have np: "no_percent (take k es @ [es ! k])"
    using assms(3) unfolding no_percent_def tk [symmetric] by (auto dest: in_set_takeD)
  obtain w1 r1 where i: "inodeFromFsId C w (path_id (take (Suc k) es)) = (w1, r1)" by fastforce
  have l: "fs_Lookup E now n (es ! k) (c, w) = ((c, w1), r1)"
    using Lookup_plain [OF assms(7) plain_take [OF assms(2)] pn np, of E now c w] i by (simp add: assms(1) tk)
  note s = inode_spec [OF assms(4) i]
  have "node_on_path (nodes w) (kids w) es k" using assms(5,6) by (simp add: walkable_def)
  then have "bn_Path (fn_bfsNode n1) = abs_path (take (Suc k) es)"
    if "nodes w (path_id (take (Suc k) es)) = Some md" "shows_node n1 md" for md n1
    using that by (auto simp: node_on_path_def shows_node_def)
  with s that [OF i l] show thesis by (cases r1) auto
qed

lemma fs_walk_spec:
  assumes "ce_C E = C" "plain_path es" "no_percent es"
  shows "inv w \<Longrightarrow> k \<le> length es \<Longrightarrow> walkable (nodes w) (kids w) es (length es) \<Longrightarrow> bn_Path (fn_bfsNode n) = abs_path (take k es) \<Longrightarrow>
    fs_walk E now n (drop k es) (c, w) = ((c', w'), r) \<Longrightarrow>
    inv w' \<and> nodes w' = nodes w \<and> kids w' = kids w \<and> c' = c \<and>
      (case r of FOk n' \<Rightarrow> k < length es \<longrightarrow> (\<exists>md. nodes w (path_id es) = Some md \<and> shows_node n' md) | FErr e \<Rightarrow> e = ENOENT | FPanic \<Rightarrow> False)"
proof (induction "length es - k" arbitrary: k n w)
  case (Suc d)
  then have k: "k < length es" by simp
  have dk: "drop k es = es ! k # drop (Suc k) es" using k by (simp add: Cons_nth_drop_Suc)
  obtain w1 r1 where w1: "fs_Lookup E now n (es ! k) (c, w) = ((c, w1), r1)" "inv w1" "nodes w1 = nodes w" "kids w1 = kids w"
    and r1: "r1 = FErr ENOENT \<or> (\<exists>n1 md. r1 = FOk n1 \<and> nodes w (path_id (take (Suc k) es)) = Some md \<and> shows_node n1 md \<and>
      bn_Path (fn_bfsNode n1) = abs_path (take (Suc k) es))"
    by (rule walk_step [OF assms Suc.prems(1) k Suc.prems(3,4)]) blast
  from r1 show ?case
  proof (elim disjE exE conjE)
    fix n1 md
    assume n1: "r1 = FOk n1" "nodes w (path_id (take (Suc k) es)) = Some md" "shows_node n1 md" "bn_Path (fn_bfsNode n1) = abs_path (take (Suc k) es)"
    have rest: "fs_walk E now n1 (drop (Suc k) es) (c, w1) = ((c', w'), r)" using Suc.prems(5) w1 n1 by (simp add: dk)
    have d: "d = length es - Suc k" using Suc.hyps(2) by simp
    have wk: "walkable (nodes w1) (kids w1) es (length es)" using Suc.prems(3) w1 by simp
    note ih = Suc.hyps(1) [OF d w1(2) _ wk n1(4) rest]
    show ?thesis
    proof (cases "Suc k = length es")
      case True
      then have "r = FOk n1" "w' = w1" "c' = c" using rest by simp_all
      then show ?thesis using n1 True w1 by auto
    qed (use ih k w1 in \<open>auto split: fuse_res.splits\<close>)
  qed (use Suc.prems(5) w1 dk in auto)
qed auto

text \<open>When reading nodes that exist does not fail, the walk arrives.\<close>

lemma fs_walk_found:
  assumes "ce_C E = C" "plain_path es" "no_percent es"
    and good: "\<And>w i. inv w \<Longrightarrow> good w \<Longrightarrow> nodes w i \<noteq> None \<Longrightarrow> \<exists>w' md. co_GetFsNode C w i = (w', Ok md) \<and> good w'"
  shows "inv w \<Longrightarrow> good w \<Longrightarrow> k \<le> length es \<Longrightarrow> walkable (nodes w) (kids w) es (length es) \<Longrightarrow> bn_Path (fn_bfsNode n) = abs_path (take k es) \<Longrightarrow>
    \<exists>n'. snd (fs_walk E now n (drop k es) (c, w)) = FOk n'"
proof (induction "length es - k" arbitrary: k n w)
  case (Suc d)
  then have k: "k < length es" by simp
  have dk: "drop k es = es ! k # drop (Suc k) es" using k by (simp add: Cons_nth_drop_Suc)
  obtain w1 r1 where w1: "inodeFromFsId C w (path_id (take (Suc k) es)) = (w1, r1)" "fs_Lookup E now n (es ! k) (c, w) = ((c, w1), r1)"
    "inv w1" "nodes w1 = nodes w" "kids w1 = kids w"
    and r1: "r1 = FErr ENOENT \<or> (\<exists>n1 md. r1 = FOk n1 \<and> nodes w (path_id (take (Suc k) es)) = Some md \<and> shows_node n1 md \<and>
      bn_Path (fn_bfsNode n1) = abs_path (take (Suc k) es))"
    by (rule walk_step [OF assms(1-3) Suc.prems(1) k Suc.prems(4,5)]) blast
  have "node_on_path (nodes w) (kids w) es k" using Suc.prems(4) k by (simp add: walkable_def)
  then have "nodes w (path_id (take (Suc k) es)) \<noteq> None" by (auto simp: node_on_path_def)
  from good [OF Suc.prems(1,2) this] w1(1) have g: "good w1" "r1 \<noteq> FErr ENOENT" by (auto simp: inodeFromFsId_def)
  with r1 obtain n1 where n1: "r1 = FOk n1" "bn_Path (fn_bfsNode n1) = abs_path (take (Suc k) es)" by blast
  have d: "d = length es - Suc k" using Suc.hyps(2) by simp
  have wk: "walkable (nodes w1) (kids w1) es (length es)" using Suc.prems(4) w1 by simp
  from Suc.hyps(1) [OF d w1(3) g(1) _ wk n1(2)] k show ?case using w1(2) n1(1) by (simp add: dk)
qed auto

text \<open>The operations that change the tree.\<close>

lemma new_node_ok:
  assumes "inv w" "new_node C now n name mode w = (w', FOk n')"
  defines "p \<equiv> filepath_Join [bn_Path (fn_bfsNode n), name]"
  shows "inv w' \<and> (\<exists>md. nodes w' = (nodes w)(GenerateFsID p \<mapsto> md) \<and> shows_node n' (md\<lparr>md_PID := []\<rparr>) \<and> md_PID md = bn_ID (fn_bfsNode n) \<and>
      md_Path md = p \<and> md_Mode md = mode) \<and>
    kids w' = (kids w)(bn_ID (fn_bfsNode n) := insert (GenerateFsID p) (kids w (bn_ID (fn_bfsNode n))))"
proof -
  define md where "md = zero_BlobFsMetadata\<lparr>md_PID := bn_ID (fn_bfsNode n), md_ID := GenerateFsID p, md_Name := name, md_Path := p,
            md_Ino := 0, md_Mode := mode, md_Atime := fst now, md_Mtime := fst now, md_Ctime := fst now, md_Atimensec := snd now,
            md_Mtimensec := snd now, md_Ctimensec := snd now, md_Size := 0, md_Hash := []\<rparr>"
  obtain w1 where s: "co_SetFsNode C w (GenerateFsID p) md = (w1, Ok ())"
    "co_AddFsNodeChild C w1 (bn_ID (fn_bfsNode n)) (GenerateFsID p) = (w', Ok ())"
    and n': "n' = \<lparr>fn_bfsNode = \<lparr>bn_Path = p, bn_ID = GenerateFsID p, bn_PID = [], bn_Name = name, bn_Target = [], bn_Hash = [],
        bn_Attr = zero_attr\<lparr>at_Mode := mode\<rparr>\<rparr>, fn_attr = zero_attr, fn_StableMode = mode, fn_StableIno = 0, fn_StableGen = 0\<rparr>"
    using assms(2) unfolding new_node_def p_def [symmetric] md_def by (auto simp: Let_def split: prod.splits res.splits)
  have a: "inv w1" "kids w1 = kids w" "nodes w1 = (nodes w)(GenerateFsID p \<mapsto> node_core md)" using set_node [OF assms(1) s(1)] by auto
  have b: "inv w'" "nodes w' = nodes w1"
    "kids w' = (kids w1)(bn_ID (fn_bfsNode n) := insert (GenerateFsID p) (kids w1 (bn_ID (fn_bfsNode n))))"
    using add_child [OF a(1) s(2)] by auto
  have "shows_node n' ((node_core md)\<lparr>md_PID := []\<rparr>)" "md_PID (node_core md) = bn_ID (fn_bfsNode n)" "md_Path (node_core md) = p"
    "md_Mode (node_core md) = mode"
    by (simp_all add: n' shows_node_def md_def node_core_def zero_attr_def zero_BlobFsMetadata_def)
  with a b show ?thesis by auto
qed

lemma Unlink_ok:
  assumes "inv w" "valid (GenerateFsID (filepath_Join [bn_Path (fn_bfsNode n), name]))" "Unlink C n name w = (w', FOk ())"
  defines "i \<equiv> GenerateFsID (filepath_Join [bn_Path (fn_bfsNode n), name])"
  shows "inv w' \<and> nodes w' = (nodes w)(i := None) \<and> kids w' = (kids w)(bn_ID (fn_bfsNode n) := kids w (bn_ID (fn_bfsNode n)) - {i})"
proof -
  obtain w1 where s: "co_RemoveFsNode C w i = (w1, Ok ())" "co_RemoveFsNodeChild C w1 (bn_ID (fn_bfsNode n)) i = (w', Ok ())"
    using assms(3) unfolding Unlink_def i_def by (auto simp: Let_def split: prod.splits res.splits)
  have "inv w1" "kids w1 = kids w" "nodes w1 = (nodes w)(i := None)" using remove_node [OF assms(1,2) s(1) [unfolded i_def]] by (auto simp: i_def)
  with remove_child [OF _ s(2)] show ?thesis by auto
qed

lemma Rmdir_ok:
  assumes "inv w" "valid (GenerateFsID (filepath_Join [bn_Path (fn_bfsNode n), name]))" "Rmdir C n name w = (w', FOk ())"
  defines "i \<equiv> GenerateFsID (filepath_Join [bn_Path (fn_bfsNode n), name])"
  shows "inv w' \<and> nodes w' = (nodes w)(i := None) \<and> kids w' = (kids w)(bn_ID (fn_bfsNode n) := kids w (bn_ID (fn_bfsNode n)) - {i})"
proof -
  obtain w1 z where z: "co_GetFsNodeChildren C w i = (w1, z)" by fastforce
  have g: "inv w1" "kids w1 = kids w" "nodes w1 = nodes w" using get_children [OF assms(1) z] by auto
  have "Unlink C n name w1 = (w', FOk ())"
    using assms(3) z unfolding Rmdir_def i_def by (auto simp: Let_def split: res.splits if_splits)
  from Unlink_ok [OF g(1) assms(2) this] show ?thesis by (simp add: g i_def)
qed

lemma Rename_ok:
  assumes "inv w" "Rename C n oldName newParent newName w = (w', FOk ())"
  defines "old \<equiv> GenerateFsID (filepath_Join [bn_Path (fn_bfsNode n), oldName])"
    and "new \<equiv> GenerateFsID (filepath_Join [bn_Path (fn_bfsNode n), newName])"
  shows "\<exists>md. nodes w old = Some md \<and>
      nodes w' = (nodes w)(new \<mapsto> md\<lparr>md_Name := newName, md_Path := filepath_Join [bn_Path (fn_bfsNode n), newName]\<rparr>) \<and>
      kids w' = (kids w)(bn_ID (fn_bfsNode n) := insert new (kids w (bn_ID (fn_bfsNode n)) - {old}))"
proof -
  let ?p = "bn_ID (fn_bfsNode n)" and ?new = "filepath_Join [bn_Path (fn_bfsNode n), newName]"
  obtain w1 md w2 w3 where s: "co_GetFsNode C w old = (w1, Ok md)" "co_SetFsNode C w1 new (md\<lparr>md_Name := newName, md_Path := ?new\<rparr>) = (w2, Ok ())"
    "co_RemoveFsNodeChild C w2 ?p old = (w3, Ok ())" "co_AddFsNodeChild C w3 ?p new = (w', Ok ())"
    using assms(2) unfolding Rename_def old_def new_def by (auto simp: Let_def split: prod.splits res.splits)
  have 1: "inv w1" "kids w1 = kids w" "nodes w1 = nodes w" "nodes w old = Some (node_core md)" using get_node [OF assms(1) s(1)] by auto
  have 2: "inv w2" "kids w2 = kids w1" "nodes w2 = (nodes w1)(new \<mapsto> node_core (md\<lparr>md_Name := newName, md_Path := ?new\<rparr>))"
    using set_node [OF 1(1) s(2)] by auto
  have 3: "inv w3" "nodes w3 = nodes w2" "kids w3 = (kids w2)(?p := kids w2 ?p - {old})" using remove_child [OF 2(1) s(3)] by auto
  have 4: "nodes w' = nodes w3" "kids w' = (kids w3)(?p := insert new (kids w3 ?p))" using add_child [OF 3(1) s(4)] by auto
  have "node_core (md\<lparr>md_Name := newName, md_Path := ?new\<rparr>) = (node_core md)\<lparr>md_Name := newName, md_Path := ?new\<rparr>"
    by (simp add: node_core_def)
  with 1 2 3 4 show ?thesis by auto
qed

end

end
