(* ===== verification/Server_Theorems.thy ===== *)
theory Server_Theorems
  imports Server_Laws
begin

text \<open>
  The properties of the cache service of \<^verbatim>\<open>src/pkg/server.go\<close>, each over the storage and the coordinator it calls, with concrete
  instances as witnesses.
\<close>

subsection \<open>Content\<close>

lemma store_hash: "store E s c = (s1, Ok hash) \<Longrightarrow> hash = content_hash c \<and> cas_Add (en_R E) (sv_cas s) hash c = (sv_cas s1, Ok ())"
  by (auto simp: store_def content_hash_def Let_def split: prod.splits res.splits)

lemma store_ok:
  "snd (cas_Add (en_R E) (sv_cas s) (content_hash c) c) = Ok () \<Longrightarrow> snd (store E s c) = Ok (content_hash c)"
  by (auto simp: store_def content_hash_def Let_def split: prod.splits)

lemma chunk_dst: "getContentStreamChunkSize \<le> int (length (replicate (nat getContentStreamChunkSize) (0 :: byte)))"
  by (simp add: getContentStreamChunkSize_def)

text \<open>Stored content stays on disk, in every later state of the storage, and is read back from there.\<close>

lemma store_lasts:
  assumes run: "storage_run (en_R E) view C (sv_cas s)" and c: "int (length c) < 2 ^ 62"
    and coll: "C (content_hash c) = None \<or> C (content_hash c) = Some c"
    and st: "store E s c = (s1, Ok hash)" "\<not> cas_diskCachedUsageExceeded (sv_cas s)"
    and later: "later_run (en_R E) view (C(content_hash c \<mapsto> c)) (sv_cas s1) C2 (sv_cas s2)"
    and faults: "\<forall>p n. fs_fault (cas_fs (sv_cas s2)) p \<noteq> Some (WriteStops n)"
  shows "hash = content_hash c" "hex_name hash" "cas_good (=) (en_R E) view C2 (sv_cas s2)" "C2 hash = Some c" "disk_has (sv_cas s2) hash c"
proof -
  let ?h = "content_hash c" and ?R = "en_R E"
  show h: "hash = ?h" using store_hash [OF st(1)] by simp
  then have add: "cas_Add ?R (sv_cas s) ?h c = (sv_cas s1, Ok ())" using store_hash [OF st(1)] by auto
  have hex: "hex_name ?h" by simp
  then show "hex_name hash" using h by simp
  note step = step_add [where C = C and h = ?h and view = view, OF hex c coll add]
  have run1: "storage_run ?R view (C(?h \<mapsto> c)) (sv_cas s1)" using run_step [OF run step] .
  note l = later_runD [OF later run1]
  have f0: "\<forall>p n. fs_fault (cas_fs (sv_cas s)) p \<noteq> Some (WriteStops n)"
    using l(2) faults step_durable [OF run_sys_prefix [OF run] step] by (simp add: durable_def)
  have g0: "cas_good (=) ?R view C (sv_cas s)" using no_half_writes [OF run f0] by (simp add: sys_inv_def)
  show g2: "cas_good (=) ?R view C2 (sv_cas s2)" using no_half_writes [OF l(1) faults] by (simp add: sys_inv_def)
  show c2: "C2 hash = Some c" using l(3) h by (simp add: map_le_def)
  show "disk_has (sv_cas s2) hash c" unfolding h
    using disk_has_durable [where C = C2 and h = ?h, OF cas_goodD(1) [OF g2] l(2) c2 [unfolded h]]
      cas_whole.add_has [where C = C and h = ?h, OF g0 hex c coll st(2) add] .
qed

lemma GetContent_on_disk:
  assumes "hex_name hash" "cas_good (=) (en_R E) view C (sv_cas s)" "C hash = Some c" "disk_has (sv_cas s) hash c"
    and range: "0 \<le> off" "0 \<le> len" "off + len \<le> int (length c)"
  shows "snd (GetContent E now s \<lparr>gr_Hash = hash, gr_Offset = off, gr_Length = len\<rparr>) = Ok (True, take (nat len) (drop (nat off) c))"
proof -
  let ?dst = "replicate (nat len) (0 :: byte)"
  have len: "len \<le> int (length ?dst)" using range(2) by simp
  obtain k dst r where g: "cas_Get (en_R E) now (sv_cas s) hash off len ?dst = (k, dst, r)" by (rule prod_cases3)
  have r: "r = Ok len" using cas_whole.get_full [where C = C and h = hash, OF assms(2,1,3,4) range len g] .
  have "length dst = nat len" using good_Get(4) [OF assms(2,1) len g] by simp
  moreover have "take (nat len) dst = take (nat len) (drop (nat off) c)"
  proof (cases "0 < len")
    case True
    obtain c' where c': "C hash = Some c'" "prefix (take (nat len) dst) (drop (nat off) c')" "length (take (nat len) dst) = nat len"
      using get_okE [OF good_Get(5) [OF assms(2,1) len g r] len True] .
    then show ?thesis using assms(3) prefix_drop_eq [of "take (nat len) dst" "nat off" c] by simp
  qed simp
  ultimately show ?thesis using range(2) by (simp add: GetContent_def g r)
qed

subsection \<open>A concrete service\<close>

definition sample_env :: "(string \<Rightarrow> cache_item option, MockCoordinator, unit) server_env" where
  "sample_env = \<lparr>en_R = ref_cache, en_C = mock_coordinator (\<lambda>hs. hs), en_S3 = sample_s3 [] 0, en_connect = (\<lambda>_ _ _ _. Ok ()),
     en_order = (\<lambda>n. [0..<n]), en_attrs = (\<lambda>_. \<lparr>fa_Mode = 0x1A4, fa_Atime = (1, 2), fa_Mtime = (3, 4)\<rparr>), en_now = (\<lambda>_. (5, 6)),
     en_source = (\<lambda>_. Ok ())\<rparr>"

definition sample_service :: "(string \<Rightarrow> cache_item option, MockCoordinator, unit) CacheService" where
  "sample_service = \<lparr>sv_mode = BlobCacheServerModeCoordinator, sv_hostId = ''h'', sv_locality = ''us'', sv_privateIpAddr = ''10.0.0.1'',
     sv_publicIpAddr = [], sv_cas = sample_cas, sv_currentHost = bare_host ''h'', sv_serverConfig = cfg_Server sample_config,
     sv_globalConfig = cfg_Global sample_config, sv_coord = NewMockCoordinator, sv_s3ClientCache = Map.empty\<rparr>"

abbreviation sample_hash :: string where
  "sample_hash \<equiv> ''7192385c3c0605de55bb9476ce1d90748190ecb32a8eed7f5207b30cf6a1fe89''"

lemma sample_content_hash: "content_hash sample_content = sample_hash"
  by (simp only: content_hash_def sample_content_def sha256_digest)

definition sample_stored :: "(string \<Rightarrow> cache_item option, MockCoordinator, unit) CacheService" where
  "sample_stored = fst (store sample_env sample_service sample_content)"

lemma sample_store: "store sample_env sample_service sample_content = (sample_stored, Ok sample_hash)"
proof -
  have "snd (cas_Add ref_cache sample_cas sample_hash sample_content) = Ok ()" by code_simp
  then have "snd (store sample_env sample_service sample_content) = Ok sample_hash"
    using store_ok [of sample_env sample_service sample_content] unfolding sample_content_hash
    by (simp add: sample_env_def sample_service_def)
  then show ?thesis by (simp add: sample_stored_def prod_eq_iff)
qed

lemma sample_service_run: "storage_run (en_R sample_env) (\<lambda>c. c) Map.empty (sv_cas sample_service)"
  using sample_run by (simp add: sample_env_def sample_service_def)

lemma sample_stored_faults: "fs_fault (cas_fs (sv_cas sample_stored)) p = None"
proof -
  have "cas_Add ref_cache sample_cas sample_hash sample_content = (sv_cas sample_stored, Ok ())"
    using store_hash [OF sample_store] sample_content_hash by (simp add: sample_env_def sample_service_def)
  from step_durable [OF run_sys_prefix [OF sample_run] step_add [OF _ sample_size _ this]] show ?thesis
    using content_hash_hex [of sample_content] sample_content_hash
    by (auto simp: durable_def sample_cas_def empty_fs_def)
qed





text \<open>
  C14: How the client cuts the content into messages makes no difference: storing a stream of messages is storing their concatenation.
\<close>

theorem StoreContent_concat:
  "StoreContent E s (map Ok chunks) = store E s (concat chunks)"
proof -
  have "receive (map Ok chunks) buffer = Ok (buffer @ concat chunks)" for buffer
    by (induction chunks arbitrary: buffer) simp_all
  then show ?thesis by (simp add: StoreContent_def)
qed

subsection \<open>The file system\<close>

text \<open>
  C6: When \<^verbatim>\<open>StoreContentInBlobFs\<close> reports success on a server whose coordinator is reached over a network that may lose messages, the
  nodes of all directories of the path and of the file itself are in Redis, each under the digest of its path, with its name, its path
  and the id of its parent, and each listed among the children of its parent: the file can be walked to from the root. A regular file's
  node carries the hash and size of the stored content. The digests of the path and its directories must not collide.
\<close>

theorem stored_path_walkable:
  assumes "redis_contract D vw" "en_C E = remote_coordinator f32 cfg (local_coordinator D cd)"
    and "es = path_elems (filepath_Clean path)" "es \<noteq> []" "ids_differ es"
    and "StoreContentInBlobFs E f st path hash sz = (st', Ok ())"
  shows "walkable (local_nodes cd vw (nt_server st')) (local_kids vw (nt_server st')) es (length es) \<and>
    (os_Stat f (abs_path es) = Some (File b) \<longrightarrow> file_stored (local_nodes cd vw (nt_server st')) es hash sz)"
proof -
  have "local_inv D vw (nt_server st)" using assms(1) by (simp add: local_inv_def)
  from remote_local.store_in_blobfs [OF assms(2) this assms(5,4) [unfolded assms(3)] assms(6), of b] show ?thesis
    unfolding assms(3) by blast
qed

type_synonym sample_net = "ref_state CoordinatorClientLocal net"

definition remote_env :: "(string \<Rightarrow> cache_item option, sample_net, unit) server_env" where
  "remote_env = \<lparr>en_R = ref_cache, en_C = remote_coordinator (\<lambda>q. q) default_ServerConfig (local_coordinator ref_redis ref_codec),
     en_S3 = sample_s3 [] 0, en_connect = (\<lambda>_ _ _ _. Ok ()), en_order = (\<lambda>n. [0..<n]),
     en_attrs = (\<lambda>_. \<lparr>fa_Mode = 0x1A4, fa_Atime = (1, 2), fa_Mtime = (3, 4)\<rparr>), en_now = (\<lambda>_. (5, 6)), en_source = (\<lambda>_. Ok ())\<rparr>"

definition remote_start :: sample_net where
  "remote_start = \<lparr>nt_server = \<lparr>lc_globalConfig = cfg_Global default_config, lc_serverConfig = default_ServerConfig,
     lc_metadata = \<lparr>mt_rdb = ref_empty, mt_locks = Map.empty\<rparr>\<rparr>, nt_fates = []\<rparr>"

definition one_file :: fs where
  "one_file = \<lparr>fs_nodes = (\<lambda>p. if p = ''/a'' then Some (File sample_content) else None), fs_fault = Map.empty\<rparr>"

lemma remote_reliable:
  "\<exists>n'. co_SetFsNode (en_C remote_env) \<lparr>nt_server = s, nt_fates = []\<rparr> i md = (\<lparr>nt_server = n', nt_fates = []\<rparr>, Ok ())"
  "\<exists>n'. co_AddFsNodeChild (en_C remote_env) \<lparr>nt_server = s, nt_fates = []\<rparr> p i = (\<lparr>nt_server = n', nt_fates = []\<rparr>, Ok ())"
  by (auto simp: remote_env_def remote_ops rpc_ok_def rpc_def local_coordinator_def on_metadata_def meta_SetFsNode_def
      meta_AddFsNodeChild_def ref_redis_def ToSlice_meta Let_def)

lemma remote_stored_file:
  assumes "os_Stat f ''/a'' = Some (File b)"
  shows "\<exists>n'. StoreContentInBlobFs remote_env f \<lparr>nt_server = n, nt_fates = []\<rparr> ''/a'' h sz = (\<lparr>nt_server = n', nt_fates = []\<rparr>, Ok ())"
proof -
  have paths: "filepath_Join [''/'', filepath_Clean ''/a''] = ''/a''" "filepath_Join [''/'', ''a''] = ''/a''"
    "split_on CHR ''/'' ''/a'' = [[], ''a'']" by code_simp+
  have node: "\<exists>md'. file_node remote_env f ''/a'' h sz md = Ok md'" for md using assms by (simp add: file_node_def Let_def)
  have step: "\<exists>n'. store_parts remote_env f ''/a'' h sz (Suc 0) [''a''] ''/'' pid \<lparr>nt_server = n, nt_fates = []\<rparr> =
      (\<lparr>nt_server = n', nt_fates = []\<rparr>, Ok ())" for pid
  proof -
    obtain sec nsec where now: "en_now remote_env (Suc 0) = (sec, nsec)" by fastforce
    obtain md' where md': "file_node remote_env f ''/a'' h sz (zero_BlobFsMetadata\<lparr>md_PID := pid, md_ID := GenerateFsID ''/a'',
        md_Name := ''a'', md_Path := ''/a'', md_Ino := be_u64 (take 8 (sha256 (string_bytes ''/a''))), md_Mode := dir_mode, md_Atime := sec,
        md_Mtime := sec, md_Ctime := sec, md_Atimensec := nsec, md_Mtimensec := nsec, md_Ctimensec := nsec\<rparr>) = Ok md'"
      using node by blast
    obtain s1 where s1: "co_SetFsNode (en_C remote_env) \<lparr>nt_server = n, nt_fates = []\<rparr> (GenerateFsID ''/a'') md' =
        (\<lparr>nt_server = s1, nt_fates = []\<rparr>, Ok ())" using remote_reliable(1) by blast
    obtain s2 where s2: "co_AddFsNodeChild (en_C remote_env) \<lparr>nt_server = s1, nt_fates = []\<rparr> pid (GenerateFsID ''/a'') =
        (\<lparr>nt_server = s2, nt_fates = []\<rparr>, Ok ())" using remote_reliable(2) by blast
    show ?thesis by (simp add: paths FsID_inode now md' s1 s2 Let_def)
  qed
  show ?thesis using step [of "GenerateFsID ''/''"] by (simp add: StoreContentInBlobFs_def paths)
qed

lemma remote_stored: "\<exists>st'. StoreContentInBlobFs remote_env one_file remote_start ''/a'' ''h'' 6 = (st', Ok ())"
  using remote_stored_file [of one_file sample_content] by (force simp: remote_start_def os_Stat_def one_file_def)

theorem stored_path_walkable_witness:
  "\<exists>st'. StoreContentInBlobFs remote_env one_file remote_start ''/a'' ''h'' 6 = (st', Ok ()) \<and>
     walkable (local_nodes ref_codec ref_view (nt_server st')) (local_kids ref_view (nt_server st')) [''a''] 1 \<and>
     file_stored (local_nodes ref_codec ref_view (nt_server st')) [''a''] ''h'' 6"
proof -
  obtain st' where st': "StoreContentInBlobFs remote_env one_file remote_start ''/a'' ''h'' 6 = (st', Ok ())"
    using remote_stored by blast
  have es: "[''a''] = path_elems (filepath_Clean ''/a'')" "abs_path [''a''] = ''/a''" by code_simp+
  have "ids_differ [''a'']" by (simp add: ids_differ_def)
  moreover have "os_Stat one_file (abs_path [''a'']) = Some (File sample_content)" by (simp add: es(2) os_Stat_def one_file_def)
  ultimately show ?thesis
    using stored_path_walkable [OF ref_redis_contract _ es(1) _ _ st', of "\<lambda>q. q" default_ServerConfig ref_codec sample_content] st'
    by (simp add: remote_env_def)
qed

subsection \<open>Storing from a source under the lock\<close>

text \<open>A lock that was obtained is refused until its time to live has passed.\<close>

lemma Acquire_twice:
  assumes "redis_contract D vw" "lock_Acquire D m k ttl n = (m1, Ok ())" "lock_Acquire D m2 k ttl' n' = (m3, x)" "mt_rdb m2 = mt_rdb m1"
    and "rv_now (mview vw m3) < rv_now (mview vw m) + secs ttl"
  shows "\<exists>e. x = Err e"
proof -
  obtain r y where y: "rl_Obtain D (mt_rdb m) k (secs ttl) (if n > 0 then n else 0) = (r, y)" by fastforce
  then obtain tok where tok: "y = Ok tok" "mt_rdb m1 = r" using assms(2) by (auto simp: lock_Acquire_def split: res.splits if_splits)
  obtain v1 where v1: "tick (mview vw m) v1" "tick (vw_Obtain k tok (secs ttl) v1) (vw r)"
    using contract_Obtain [OF assms(1) y] tok(1) by (metis res.distinct(1) res.inject(1))
  have d: "rv_lock (vw r) k = alive (rv_now (vw r)) (Some (tok, rv_now v1 + secs ttl))" using tickD(6) [OF v1(2), of k] by (simp add: vw_Obtain_def)
  have "x \<noteq> Ok ()"
  proof
    assume "x = Ok ()"
    from Acquire_effect(2) [OF assms(1,3) this] obtain u where u: "tick (mview vw m2) u" "rv_lock u k = None" "rv_now u \<le> rv_now (mview vw m3)" by blast
    have "rv_now (vw r) \<le> rv_now u" "rv_lock u k = alive (rv_now u) (rv_lock (vw r) k)"
      using tickD(1) [OF u(1)] tickD(6) [OF u(1), of k] assms(4) tok(2) by simp_all
    then show False using u(2,3) d tickD(1) [OF v1(1)] assms(5) by (auto simp: alive_def split: if_splits)
  qed
  moreover have "x \<noteq> Panic" using Acquire_effect(1) [OF assms(1,3)] by simp
  ultimately show ?thesis by (cases x) auto
qed

lemma fetch_failed:
  assumes "StoreContentFromSource E s source = (s1, Ok reply)" "sr_Failed reply"
  shows "sv_coord s1 = sv_coord s"
  using assms unfolding StoreContentFromSource_def cacheSourceFromS3_def Let_def
  by (auto split: if_splits prod.splits res.splits option.splits)

lemma with_lock_failed:
  assumes "StoreContentFromSourceWithLock E 0 0 s source = (s1, Ok r)" "\<not> lr_Ok r" "\<not> lr_FailedToAcquireLock r"
  shows "co_SetStoreFromContentLock (en_C E) (sv_coord s) (sv_locality s) (src_Path source) = (sv_coord s1, Ok ())"
proof -
  obtain c x where c: "co_SetStoreFromContentLock (en_C E) (sv_coord s) (sv_locality s) (src_Path source) = (c, x)" by fastforce
  obtain s' y where y: "StoreContentFromSource E (s\<lparr>sv_coord := c\<rparr>) source = (s', y)" by fastforce
  have "x = Ok ()" using assms c by (cases x) (auto simp: StoreContentFromSourceWithLock_def Let_def)
  moreover from this obtain reply where "y = Ok reply" "sr_Failed reply" "s1 = s'"
    using assms c y by (cases y) (auto simp: StoreContentFromSourceWithLock_def Let_def split: if_splits prod.splits res.splits)
  ultimately show ?thesis using c y fetch_failed [of E _ source s' reply] by simp
qed

definition lock_env :: "(string \<Rightarrow> cache_item option, ref_state CoordinatorClientLocal, unit) server_env" where
  "lock_env = \<lparr>en_R = ref_cache, en_C = local_coordinator ref_redis ref_codec, en_S3 = sample_s3 [] 0, en_connect = (\<lambda>_ _ _ _. Ok ()),
     en_order = (\<lambda>n. [0..<n]), en_attrs = (\<lambda>_. \<lparr>fa_Mode = 0x1A4, fa_Atime = (1, 2), fa_Mtime = (3, 4)\<rparr>), en_now = (\<lambda>_. (5, 6)),
     en_source = (\<lambda>_. Ok ())\<rparr>"

definition lock_service :: "(string \<Rightarrow> cache_item option, ref_state CoordinatorClientLocal, unit) CacheService" where
  "lock_service = \<lparr>sv_mode = BlobCacheServerModeCoordinator, sv_hostId = ''h'', sv_locality = ''us'', sv_privateIpAddr = ''10.0.0.1'',
     sv_publicIpAddr = [], sv_cas = sample_cas, sv_currentHost = bare_host ''h'', sv_serverConfig = cfg_Server sample_config,
     sv_globalConfig = cfg_Global sample_config, sv_coord = nt_server remote_start, sv_s3ClientCache = Map.empty\<rparr>"

definition missing_source :: cache_source where
  "missing_source = \<lparr>src_Path = ''/none'', src_BucketName = [], src_Region = [], src_EndpointUrl = [], src_AccessKey = [], src_SecretKey = []\<rparr>"

lemma missing_source_reply:
  "\<exists>s1 r1. StoreContentFromSourceWithLock lock_env 0 0 lock_service missing_source = (s1, Ok r1) \<and> \<not> lr_Ok r1 \<and> \<not> lr_FailedToAcquireLock r1 \<and>
     sv_locality s1 = sv_locality lock_service"
  by (simp add: StoreContentFromSourceWithLock_def lock_env_def lock_service_def missing_source_def remote_start_def local_coordinator_def
      on_metadata_def meta_SetStoreFromContentLock_def lock_Acquire_def ref_redis_def ref_empty_def alive_def StoreContentFromSource_def
      cacheSourceFromLocalPath_def os_Stat_def sample_cas_def empty_fs_def Let_def)



end
