(* ===== verification/Client_Theorems.thy ===== *)
theory Client_Theorems
  imports Client_Laws
begin

text \<open>
  The properties of the client of \<^verbatim>\<open>src/pkg/client.go\<close>: its connections, its retries, and the lock order of its goroutines.
\<close>

subsection \<open>Connections\<close>

lemma monitor_inv:
  assumes "hasher_contract (ce_H E) mem" "client_inv mem c" "proper_host host" "monitorHost_tick E host (c, w) = ((c', w'), r)"
  shows "client_inv mem c'"
proof -
  have "has_conn c h \<Longrightarrow> HostId h \<noteq> Addr host" for h
    using assms(3) by (auto simp: has_conn_def proper_host_def)
  moreover have "c' = c \<or> c' = c\<lparr>cl_hostMap := hm_Remove (cl_hostMap c) host, cl_hasher := hs_Remove (ce_H E) (cl_hasher c) host,
      cl_grpcClients := (cl_grpcClients c)(Addr host := None)\<rparr>"
    using assms(4) by (auto simp: monitorHost_tick_def Let_def split: option.splits prod.splits res.splits if_splits)
  ultimately show ?thesis
    using assms(2) hasher_contractD(3) [OF assms(1), of "cl_hasher c" host]
    by (auto intro!: client_invI [OF assms(2)] simp: has_conn_def)
qed

lemma client_step_inv:
  assumes "hasher_contract (ce_H E) mem" "lists_proper (ce_C E)" "client_step E s s'" "client_inv mem (fst s)"
  shows "client_inv mem (fst s')"
  using assms(3,4)
proof (cases rule: client_step.cases)
  case (discovery order r)
  then show ?thesis
    using client_discovery_inv [OF assms(1,2), of order "fst s" "snd s" "fst s'" "snd s'" r] assms(4) by simp
next
  case (monitor host r)
  then show ?thesis using monitor_inv [OF assms(1,4), of host "snd s" "fst s'" "snd s'" r] by simp
next
  case (choose now c request c' r w)
  then show ?thesis using getGRPCClient_inv [OF assms(1)] assms(4) by auto
next
  case (cleans c w stale)
  then show ?thesis using assms(4) by (auto simp: delete_entries_def client_inv_def has_conn_def split: if_splits)
qed (auto simp: forget_inv)

lemma client_run_inv:
  assumes "hasher_contract (ce_H E) mem" "lists_proper (ce_C E)" "client_run E s"
  shows "client_inv mem (fst s)"
  using assms(3)
proof (induction rule: client_run.induct)
  case (start newRemote getenv cfg c ttl interval w)
  then show ?case
    using hasher_contractD(1) [OF assms(1)]
    by (auto simp: NewBlobCacheClient_def client_inv_def Let_def split: prod.splits res.splits)
qed (rule client_step_inv [OF assms(1,2)])


subsection \<open>A concrete client\<close>

text \<open>A hash that keeps the hosts in a list and returns the first ones.\<close>

definition list_hasher :: "BlobCacheHost list hasher" where
  "list_hasher = \<lparr>hs_New = [], hs_Add = (\<lambda>h x. if x \<in> set h then h else h @ [x]), hs_Remove = (\<lambda>h x. removeAll x h),
     hs_GetN = (\<lambda>h n k. take (nat n) h)\<rparr>"

lemma list_hasher_contract: "hasher_contract list_hasher set"
  by (auto simp: hasher_contract_def list_hasher_def dest: in_set_takeD)

text \<open>The address \<^verbatim>\<open>host2:2049\<close> has the content and \<^verbatim>\<open>host1:2049\<close> has not.\<close>

definition sample_peers :: "MockCoordinator peers" where
  "sample_peers = \<lparr>pr_Dial = (\<lambda>w _ _. (w, Ok ())), pr_GetState = (\<lambda>w _. (w, Ok (BlobCacheVersion, 1/2))),
     pr_HasContent = (\<lambda>w a h. (w, Ok (a = ''host2:2049''))),
     pr_GetContent = (\<lambda>w a req. (w, Ok (a = ''host2:2049'', if a = ''host2:2049'' then [7, 8, 9] else []))),
     pr_GetContentStream = (\<lambda>w a req. (w, if a = ''host2:2049'' then Ok ([(True, [7]), (True, [8, 9])], None)
                                         else Ok ([(True, [7])], Some ErrUnavailable))),
     pr_StoreContent = (\<lambda>w a cs. (w, Ok [])), pr_StoreContentFromSource = (\<lambda>w a s. (w, Ok (True, []))),
     pr_StoreContentFromSourceWithLock = (\<lambda>w a s. (w, Ok (True, [], False)))\<rparr>"

definition sample_client_env :: "(BlobCacheHost list, MockCoordinator) client_env" where
  "sample_client_env = \<lparr>ce_H = list_hasher, ce_P = sample_peers,
     ce_C = (mock_coordinator id)\<lparr>co_GetAvailableHosts := \<lambda>w l. (w, Ok [sample_host ''host1'' 0 0, sample_host ''host2'' 0 0])\<rparr>\<rparr>"

definition sample_client_config :: BlobCacheConfig where
  "sample_client_config = default_config\<lparr>cfg_Client := (cfg_Client default_config)\<lparr>cc_NTopHosts := 2, cc_MinRetryLengthBytes := 0,
     cc_MaxGetContentAttempts := 2\<rparr>\<rparr>"

definition sample_start :: "BlobCacheHost list BlobCacheClient" where
  "sample_start = (case NewBlobCacheClient list_hasher (\<lambda>_ _. Ok ()) (\<lambda>_. []) sample_client_config of Ok (c, _, _) \<Rightarrow> c)"

definition sample_client :: "BlobCacheHost list BlobCacheClient" where
  "sample_client = fst (fst (client_discovery sample_client_env id (sample_start, NewMockCoordinator)))"

lemma sample_client_run: "client_run sample_client_env (sample_client, NewMockCoordinator)"
proof -
  have "\<exists>c ttl interval. NewBlobCacheClient list_hasher (\<lambda>_ _. Ok ()) (\<lambda>_. []) sample_client_config = Ok (c, ttl, interval)"
    by (simp add: NewBlobCacheClient_def Let_def split: prod.splits)
  then have "client_run sample_client_env (sample_start, NewMockCoordinator)"
    by (auto simp: sample_start_def sample_client_env_def intro: client_run.start [where newRemote = "\<lambda>_ _. Ok ()"])
  then have "client_run sample_client_env (fst (client_discovery sample_client_env id (sample_start, NewMockCoordinator)))"
    by (rule client_run.step [OF _ client_step.discovery [where order = id]]) (simp_all add: prod_eq_iff)
  from client_run.step [OF this, of "(sample_client, NewMockCoordinator)"] show ?thesis
    unfolding sample_client_def by (metis client_step.world prod.collapse)
qed

lemma sample_lists_proper: "lists_proper (ce_C sample_client_env)"
  by (auto simp: lists_proper_def sample_client_env_def proper_host_def sample_host_def)

abbreviation host_one :: BlobCacheHost where "host_one \<equiv> sample_host ''host1'' 0 (1/2)"
abbreviation host_two :: BlobCacheHost where "host_two \<equiv> sample_host ''host2'' 0 (1/2)"

lemma sample_client_simps:
  "cl_hasher sample_client = [host_one, host_two]" "cl_localHostCache sample_client = Map.empty"
  "cl_grpcClients sample_client = [''host1'' \<mapsto> ''host1:2049'', ''host2'' \<mapsto> ''host2:2049'']"
  "cc_NTopHosts (cl_clientConfig sample_client) = 2" "cl_minRetryLengthBytes sample_client = 0" "cl_maxGetContentAttempts sample_client = 2"
  by (simp_all add: sample_client_def sample_start_def client_discovery_def NewBlobCacheClient_def sample_client_env_def
      sample_client_config_def discoverHosts_def discovery_rpc_def GetHostState_def sample_peers_def sample_host_def hm_Set_def
      addHost_def list_hasher_def Let_def update_fresh NewHostMap_def hm_Get_def split: prod.splits)


text \<open>
  C31: A host that its monitor finds unreachable is taken out of the host map and the hash, but its connection is not closed and requests
  for content it was last chosen for still go to it: the monitor deletes the connection under the host's address, while connections are
  filed under host ids.
\<close>

theorem removed_host_still_used:
  assumes "cl_grpcClients c (HostId host) = Some client" "Addr host \<noteq> HostId host"
    and "cl_localHostCache c hash = Some e" "lh_host e = host"
    and "monitorHost_tick E host (c, w) = ((c', w'), Ok False)"
  shows "cl_hostMap c' = hm_Remove (cl_hostMap c) host \<and> cl_hasher c' = hs_Remove (ce_H E) (cl_hasher c) host \<and>
    getGRPCClient H now c' (retrieval hash key i) = (c', Ok (client, host))"
proof -
  have "c' = c\<lparr>cl_hostMap := hm_Remove (cl_hostMap c) host, cl_hasher := hs_Remove (ce_H E) (cl_hasher c) host,
      cl_grpcClients := (cl_grpcClients c)(Addr host := None)\<rparr>"
    using assms(5) by (auto simp: monitorHost_tick_def Let_def split: option.splits prod.splits res.splits if_splits)
  then show ?thesis using assms(1-4) by (simp add: getGRPCClient_chosen chosen_def remember_def)
qed

definition routed_client :: "BlobCacheHost list BlobCacheClient" where
  "routed_client = fst (getGRPCClient list_hasher 0 sample_client (retrieval ''h'' ''k'' 0))"

lemma routed_client_eq:
  "routed_client = sample_client\<lparr>cl_localHostCache := [''h'' \<mapsto> \<lparr>lh_host = host_one, lh_timestamp = 0\<rparr>]\<rparr>"
  by (simp add: routed_client_def getGRPCClient_chosen chosen_def remember_def pick_host_def list_hasher_def sample_client_simps sample_host_def)

definition down_env :: "(BlobCacheHost list, MockCoordinator) client_env" where
  "down_env = sample_client_env\<lparr>ce_P := sample_peers\<lparr>pr_GetState := \<lambda>w _. (w, Err ErrUnavailable)\<rparr>\<rparr>"

theorem removed_host_still_used_witness:
  "\<exists>c'. monitorHost_tick down_env host_one (routed_client, NewMockCoordinator) = ((c', NewMockCoordinator), Ok False) \<and>
     cl_hasher c' = [host_two] \<and> getGRPCClient list_hasher 1 c' (retrieval ''h'' ''k'' 0) = (c', Ok (''host1:2049'', host_one))"
proof -
  obtain c' where m: "monitorHost_tick down_env host_one (routed_client, NewMockCoordinator) = ((c', NewMockCoordinator), Ok False)"
    by (simp add: monitorHost_tick_def down_env_def routed_client_eq sample_client_simps sample_host_def)
  have h: "cl_grpcClients routed_client (HostId host_one) = Some ''host1:2049''" "Addr host_one \<noteq> HostId host_one"
    "cl_localHostCache routed_client ''h'' = Some \<lparr>lh_host = host_one, lh_timestamp = 0\<rparr>"
    "lh_host \<lparr>lh_host = host_one, lh_timestamp = 0\<rparr> = host_one"
    by (simp_all add: routed_client_eq sample_client_simps sample_host_def)
  have "hs_Remove (ce_H down_env) (cl_hasher routed_client) host_one = [host_two]"
    by (simp add: down_env_def sample_client_env_def list_hasher_def routed_client_eq sample_client_simps sample_host_def)
  with removed_host_still_used [OF h m, of list_hasher 1 "''k''" 0] m show ?thesis by auto
qed

subsection \<open>Requests\<close>

lemma cached_choice:
  assumes "getGRPCClient H now c (retrieval hash key i) = (c1, Ok (addr, host))"
  shows "getGRPCClient H now' c1 (retrieval hash key' j) = (c1, Ok (addr, host))"
proof -
  have "chosen H c (retrieval hash key i) = Ok (Some host)" "c1 = remember now c (retrieval hash key i) host"
    "cl_grpcClients c (HostId host) = Some addr"
    using assms by (auto simp: getGRPCClient_chosen split: res.splits option.splits)
  then show ?thesis
    by (cases "cl_localHostCache c hash") (auto simp: getGRPCClient_chosen remember_def chosen_def)
qed

text \<open>
  C32: \<^verbatim>\<open>IsCachedNearby\<close> asks one host only. The host chosen for the first index is remembered for the hash, and every later index asks it
  again: when that host does not have the content the answer is no, whatever the other hosts have.
\<close>

theorem cached_nearby_asks_one_host:
  assumes "getGRPCClient (ce_H E) (now 0) c (retrieval hash key 0) = (c1, Ok (addr, host))"
    and "\<And>w. snd (pr_HasContent (ce_P E) w addr hash) = Ok False"
  shows "snd (IsCachedNearby E now hash key (c, w)) = Ok False"
proof -
  have again: "snd (cached_nearby E now hash key i n (c1, w)) = Ok False" for i n w
  proof (induction n arbitrary: i w)
    case (Suc n)
    obtain w1 where "pr_HasContent (ce_P E) w addr hash = (w1, Ok False)" using assms(2) [of w] by (metis prod.collapse)
    then show ?case using Suc cached_choice [OF assms(1), of "now i" key "int i"] by simp
  qed simp
  obtain w1 where "pr_HasContent (ce_P E) w addr hash = (w1, Ok False)" using assms(2) [of w] by (metis prod.collapse)
  then show ?thesis
    using again assms(1) by (cases "nat (cc_NTopHosts (cl_clientConfig c))") (simp_all add: IsCachedNearby_def)
qed

theorem cached_nearby_asks_one_host_witness:
  "snd (IsCachedNearby sample_client_env (\<lambda>_. 0) ''h'' ''k'' (sample_client, NewMockCoordinator)) = Ok False \<and>
   snd (pr_HasContent sample_peers NewMockCoordinator ''host2:2049'' ''h'') = Ok True"
proof -
  have "getGRPCClient (ce_H sample_client_env) 0 sample_client (retrieval ''h'' ''k'' 0) = (routed_client, Ok (''host1:2049'', host_one))"
    by (simp add: routed_client_def getGRPCClient_chosen chosen_def remember_def pick_host_def sample_client_env_def list_hasher_def
        sample_client_simps sample_host_def)
  from cached_nearby_asks_one_host [OF this, of NewMockCoordinator] show ?thesis
    by (simp add: sample_client_env_def sample_peers_def)
qed



text \<open>
  C33: A stream that breaks off is started again from its beginning on the next host: the caller receives what had arrived and then the whole
  content again. So after a retry the bytes received are in general not the requested range, and no error is reported.
\<close>

theorem stream_retry_repeats:
  assumes "hs_GetN (ce_H E) (cl_hasher c) (cc_NTopHosts (cl_clientConfig c)) (or_key key hash) = h1 # h2 # hosts"
    and "cl_grpcClients c (HostId h1) = Some a1" "cl_grpcClients c (HostId h2) = Some a2"
    and "cl_localHostCache c hash = None" "2 \<le> max_attempts c len"
    and "pr_GetContentStream (ce_P E) w a1 \<lparr>gr_Hash = hash, gr_Offset = off, gr_Length = len\<rparr> = (w1, Ok (map (Pair True) begun, Some e))"
    and "pr_GetContentStream (ce_P E) w1 a2 \<lparr>gr_Hash = hash, gr_Offset = off, gr_Length = len\<rparr> = (w2, Ok (map (Pair True) whole, None))"
  shows "snd (client_GetContentStream E now hash off len key (c, w)) = Ok (begun @ whole)"
proof -
  have recv: "recv_stream (map (Pair True) cs) x = (cs, x = None)" for cs x by (induction cs) simp_all
  obtain n where n: "max_attempts c len = Suc (Suc n)"
    using assms(5) by (metis Suc_le_D Suc_le_mono numeral_2_eq_2)
  have one: "getGRPCClient (ce_H E) t c (retrieval hash (or_key key hash) 0) = (remember t c (retrieval hash (or_key key hash) 0) h1, Ok (a1, h1))"
    and two: "getGRPCClient (ce_H E) t c (retrieval hash (or_key key hash) 1) = (remember t c (retrieval hash (or_key key hash) 1) h2, Ok (a2, h2))" for t
    using assms(1-4) by (simp_all add: getGRPCClient_chosen chosen_def pick_host_def min_def)
  have again_c: "forget hash (remember t c (retrieval hash (or_key key hash) 0) h1) = c" for t
    using assms(4) by (simp add: remember_def fun_upd_idem)
  show ?thesis
    using assms(6,7) one [of "now 0"] two [of "now (Suc 0)"] again_c [of "now 0"]
    by (simp add: client_GetContentStream_def n recv)
qed

theorem stream_retry_repeats_witness:
  "snd (client_GetContentStream sample_client_env (\<lambda>_. 0) ''h'' 0 3 ''k'' (sample_client, NewMockCoordinator)) = Ok [[7], [7], [8, 9]]"
proof -
  have hosts: "hs_GetN (ce_H sample_client_env) (cl_hasher sample_client) (cc_NTopHosts (cl_clientConfig sample_client)) (or_key ''k'' ''h'') =
      [host_one, host_two]"
    by (simp add: sample_client_env_def list_hasher_def sample_client_simps)
  have "snd (client_GetContentStream sample_client_env (\<lambda>_. 0) ''h'' 0 3 ''k'' (sample_client, NewMockCoordinator)) = Ok ([[7]] @ [[7], [8, 9]])"
    by (rule stream_retry_repeats [where w = NewMockCoordinator and ?w1.0 = NewMockCoordinator and ?w2.0 = NewMockCoordinator and
          ?a1.0 = "''host1:2049''" and ?a2.0 = "''host2:2049''" and e = ErrUnavailable, OF hosts])
      (auto simp: sample_client_simps sample_host_def max_attempts_def sample_client_env_def sample_peers_def)
  then show ?thesis by simp
qed

end
