(* ===== verification/Blob_Fs_Theorems.thy ===== *)
theory Blob_Fs_Theorems
  imports Blob_Fs_Laws Server_Theorems Client_Theorems
begin

text \<open>
  The properties of the file system of \<^verbatim>\<open>src/pkg/blobfs_node.go\<close>, over the coordinator a mounted client uses: the remote one, in front of
  the local coordinator of a server and its Redis.
\<close>

subsection \<open>Files stored by a server\<close>

text \<open>Redis answers every read of a hash.\<close>

definition reads_succeed :: "'r redis \<Rightarrow> bool" where
  "reads_succeed D \<longleftrightarrow> (\<forall>r k. \<exists>ps. snd (rd_HGetAll D r k) = Ok ps)"

lemma local_get_found:
  assumes "redis_contract D vw" "reads_succeed D" "local_nodes cd vw s i \<noteq> None"
  shows "\<exists>s' md. co_GetFsNode (local_coordinator D cd) s i = (s', Ok md)"
proof -
  obtain m' x where g: "meta_GetFsNode D cd (lc_metadata s) i = (m', x)" by fastforce
  have "x \<noteq> Err (ErrNodeNotFound i)" using GetFsNode_law(5) [OF assms(1) g, of i] assms(3) by (auto simp: local_nodes_def)
  moreover obtain ps where "snd (rd_HGetAll D (mt_rdb (lc_metadata s)) (MetadataFsNode i)) = Ok ps"
    using assms(2) by (auto simp: reads_succeed_def)
  ultimately have "\<exists>md. x = Ok md" using g by (auto simp: meta_GetFsNode_def split: prod.splits if_splits)
  then show ?thesis using g by (auto simp: local_coordinator_def on_metadata_def)
qed

lemma remote_get_found:
  assumes "redis_contract D vw" "reads_succeed D" "nt_fates n = []" "local_nodes cd vw (nt_server n) i \<noteq> None"
  shows "\<exists>n' md. co_GetFsNode (remote_coordinator f32 cfg (local_coordinator D cd)) n i = (n', Ok md) \<and> nt_fates n' = []"
proof -
  obtain s' md where "co_GetFsNode (local_coordinator D cd) (nt_server n) i = (s', Ok md)"
    using local_get_found [OF assms(1,2,4)] by blast
  then show ?thesis
    by (simp add: remote_coordinator_def rem_GetFsNode_def rpc_def srv_GetFsNode_def assms(3))
qed

text \<open>
  C34: A file that a server has stored is found in the file system. After \<^verbatim>\<open>StoreContentInBlobFs\<close> has succeeded, looking up the names of
  the path one after the other from the root, over a network that may lose messages, never panics and gives either an inode with the hash,
  size, path and name of the stored file or the error that there is no such file; and when no message is lost and Redis answers, it
  gives the inode.
\<close>

theorem stored_file_looked_up:
  assumes contract: "redis_contract D vw" and store: "en_C SE = remote_coordinator f32 cfg (local_coordinator D cd)"
    "StoreContentInBlobFs SE f st path hash sz = (st', Ok ())" "os_Stat f (abs_path es) = Some (File b)"
    and es: "es = path_elems (filepath_Clean path)" "es \<noteq> []" "ids_differ es" "no_percent es"
    and client: "ce_C E = remote_coordinator f32 cfg (local_coordinator D cd)" "nt_server w = nt_server st'"
    and root: "bn_Path (fn_bfsNode node0) = ''/''"
    and walk: "fs_walk E now node0 es (c, w) = ((c', w'), r)"
  shows "(case r of
      FOk n \<Rightarrow> bn_Hash (fn_bfsNode n) = hash \<and> at_Size (bn_Attr (fn_bfsNode n)) = sz \<and> bn_Path (fn_bfsNode n) = abs_path es \<and>
        bn_Name (fn_bfsNode n) = last es
    | FErr e \<Rightarrow> e = ENOENT
    | FPanic \<Rightarrow> False) \<and>
    (nt_fates w = [] \<and> reads_succeed D \<longrightarrow> (\<exists>n. r = FOk n))"
proof -
  let ?nodes = "\<lambda>n. local_nodes cd vw (nt_server n)" and ?kids = "\<lambda>n. local_kids vw (nt_server n)"
  have inv: "local_inv D vw (nt_server n)" for n using contract by (simp add: local_inv_def)
  have plain: "plain_path es" unfolding es(1) by (rule path_elems_plain)
  have "walkable (?nodes st') (?kids st') es (length es) \<and> file_stored (?nodes st') es hash sz"
    using remote_local.store_in_blobfs [OF store(1) inv es(3,2) [unfolded es(1)] store(2), of b] store(3) unfolding es(1) by blast
  then have wk: "walkable (?nodes w) (?kids w) es (length es)" and fs: "file_stored (?nodes w) es hash sz" using client(2) by simp_all
  have p: "bn_Path (fn_bfsNode node0) = abs_path (take 0 es)" using root by (simp add: abs_path_Nil)
  have walk0: "fs_walk E now node0 (drop 0 es) (c, w) = ((c', w'), r)" using walk by simp
  note res = remote_local.fs_walk_spec [OF client(1) plain es(4) inv le0 wk p walk0]
  have k: "Suc (length es - 1) = length es" using es(2) by simp
  have "node_on_path (?nodes w) (?kids w) es (length es - 1)" using wk es(2) by (simp add: walkable_def)
  then have on: "\<exists>md. ?nodes w (path_id es) = Some md \<and> md_Name md = last es \<and> md_Path md = abs_path es"
    unfolding node_on_path_def k by (auto simp: last_conv_nth [OF es(2)])
  have "case r of
      FOk n \<Rightarrow> bn_Hash (fn_bfsNode n) = hash \<and> at_Size (bn_Attr (fn_bfsNode n)) = sz \<and> bn_Path (fn_bfsNode n) = abs_path es \<and>
        bn_Name (fn_bfsNode n) = last es
    | FErr e \<Rightarrow> e = ENOENT | FPanic \<Rightarrow> False"
    using res on fs es(2) by (auto simp: file_stored_def shows_node_def split: fuse_res.splits)
  moreover have "\<exists>n. r = FOk n" if "nt_fates w = []" "reads_succeed D"
    using remote_local.fs_walk_found [OF client(1) plain es(4), where good = "\<lambda>n. nt_fates n = []",
        OF remote_get_found [OF contract that(2)] inv that(1) le0 wk p, of now c] walk by simp
  ultimately show ?thesis by blast
qed

definition fs_peers :: "sample_net peers" where
  "fs_peers = \<lparr>pr_Dial = (\<lambda>w _ _. (w, Ok ())), pr_GetState = (\<lambda>w _. (w, Ok (BlobCacheVersion, 0))), pr_HasContent = (\<lambda>w _ _. (w, Ok False)),
     pr_GetContent = (\<lambda>w _ _. (w, Ok (False, []))), pr_GetContentStream = (\<lambda>w _ _. (w, Ok ([], None))), pr_StoreContent = (\<lambda>w _ _. (w, Ok [])),
     pr_StoreContentFromSource = (\<lambda>w _ _. (w, Ok (True, []))), pr_StoreContentFromSourceWithLock = (\<lambda>w _ _. (w, Ok (True, [], False)))\<rparr>"

definition fs_env :: "(BlobCacheHost list, sample_net) client_env" where
  "fs_env = \<lparr>ce_H = list_hasher, ce_P = fs_peers, ce_C = remote_coordinator (\<lambda>q. q) default_ServerConfig (local_coordinator ref_redis ref_codec)\<rparr>"

theorem stored_file_looked_up_witness:
  "\<exists>st' n. StoreContentInBlobFs remote_env one_file remote_start ''/a'' ''h'' 6 = (st', Ok ()) \<and>
     snd (fs_walk fs_env 0 (root_node root_meta) [''a''] (sample_start, \<lparr>nt_server = nt_server st', nt_fates = []\<rparr>)) = FOk n \<and>
     bn_Hash (fn_bfsNode n) = ''h'' \<and> at_Size (bn_Attr (fn_bfsNode n)) = 6 \<and> bn_Path (fn_bfsNode n) = ''/a''"
proof -
  obtain st' where st': "StoreContentInBlobFs remote_env one_file remote_start ''/a'' ''h'' 6 = (st', Ok ())"
    using remote_stored by blast
  let ?w = "\<lparr>nt_server = nt_server st', nt_fates = []\<rparr>"
  obtain c' w' r where walk: "fs_walk fs_env 0 (root_node root_meta) [''a''] (sample_start, ?w) = ((c', w'), r)" by (metis prod.collapse)
  have es: "[''a''] = path_elems (filepath_Clean ''/a'')" "abs_path [''a''] = ''/a''" by code_simp+
  have coord: "en_C remote_env = remote_coordinator (\<lambda>q. q) default_ServerConfig (local_coordinator ref_redis ref_codec)"
    "ce_C fs_env = remote_coordinator (\<lambda>q. q) default_ServerConfig (local_coordinator ref_redis ref_codec)"
    by (simp_all add: remote_env_def fs_env_def)
  have f: "os_Stat one_file (abs_path [''a'']) = Some (File sample_content)" by (simp add: es(2) os_Stat_def one_file_def)
  have names: "[''a''] \<noteq> []" "ids_differ [''a'']" "no_percent [''a'']" by (simp_all add: ids_differ_def no_percent_def)
  have root: "bn_Path (fn_bfsNode (root_node root_meta)) = ''/''" by (simp add: root_node_def root_meta_def Let_def)
  have "reads_succeed ref_redis" by (simp add: reads_succeed_def ref_redis_def)
  then show ?thesis
    using stored_file_looked_up [OF ref_redis_contract coord(1) st' f es(1) names coord(2) _ root walk] st' walk es(2) by auto
qed

subsection \<open>Reading\<close>


subsection \<open>Changing the tree\<close>

text \<open>
  C36: Making a directory and removing it again, when both succeed, leaves the tree as it was: every node and every list of children, whatever
  messages are lost in between.
\<close>

theorem mkdir_rmdir_roundtrip:
  assumes "redis_contract D vw" "C = remote_coordinator f32 cfg (local_coordinator D cd)"
    and "Mkdir C now n name mode w = (w1, FOk n1)" "Rmdir C n name w1 = (w2, FOk ())"
    and "local_nodes cd vw (nt_server w) (GenerateFsID (filepath_Join [bn_Path (fn_bfsNode n), name])) = None"
    and "GenerateFsID (filepath_Join [bn_Path (fn_bfsNode n), name]) \<notin> local_kids vw (nt_server w) (bn_ID (fn_bfsNode n))"
  shows "local_nodes cd vw (nt_server w2) = local_nodes cd vw (nt_server w) \<and> local_kids vw (nt_server w2) = local_kids vw (nt_server w)"
proof -
  let ?i = "GenerateFsID (filepath_Join [bn_Path (fn_bfsNode n), name])"
  have inv: "local_inv D vw (nt_server w)" using assms(1) by (simp add: local_inv_def)
  note m = remote_local.new_node_ok [OF inv assms(3) [unfolded Mkdir_def assms(2)]]
  note r = remote_local.Rmdir_ok [OF _ FsID_proper assms(4) [unfolded assms(2)]]
  from m r show ?thesis using assms(5,6) by (auto simp: fun_eq_iff)
qed

text \<open>A directory of the sample coordinator, whose calls all succeed.\<close>

abbreviation sample_coordinator :: "sample_net coordinator" where
  "sample_coordinator \<equiv> remote_coordinator (\<lambda>q. q) default_ServerConfig (local_coordinator ref_redis ref_codec)"

definition sample_dir :: FSNode where
  "sample_dir = root_node (root_meta\<lparr>md_ID := ''r''\<rparr>)"

lemma sample_calls:
  "nt_fates w = [] \<Longrightarrow> \<exists>w'. co_SetFsNode sample_coordinator w i md = (w', Ok ()) \<and> nt_fates w' = []"
  "nt_fates w = [] \<Longrightarrow> \<exists>w'. co_AddFsNodeChild sample_coordinator w p i = (w', Ok ()) \<and> nt_fates w' = []"
  "nt_fates w = [] \<Longrightarrow> \<exists>w'. co_RemoveFsNodeChild sample_coordinator w p i = (w', Ok ()) \<and> nt_fates w' = []"
  "nt_fates w = [] \<Longrightarrow> \<exists>w'. co_RemoveFsNode sample_coordinator w i = (w', Ok ()) \<and> nt_fates w' = []"
  by (auto simp: remote_ops rpc_ok_def rpc_def local_coordinator_def on_metadata_def meta_SetFsNode_def meta_AddFsNodeChild_def
      meta_RemoveFsNode_def meta_RemoveFsNodeChild_def ref_redis_def ToSlice_meta Let_def)

lemma sample_mkdir:
  assumes "nt_fates w = []"
  shows "\<exists>w' n'. Mkdir sample_coordinator now n name mode w = (w', FOk n') \<and> nt_fates w' = []"
proof -
  let ?i = "GenerateFsID (filepath_Join [bn_Path (fn_bfsNode n), name])"
  define md where "md = zero_BlobFsMetadata\<lparr>md_PID := bn_ID (fn_bfsNode n), md_ID := ?i, md_Name := name,
    md_Path := filepath_Join [bn_Path (fn_bfsNode n), name], md_Ino := 0, md_Mode := S_IFDIR OR mode, md_Atime := fst now, md_Mtime := fst now,
    md_Ctime := fst now, md_Atimensec := snd now, md_Mtimensec := snd now, md_Ctimensec := snd now, md_Size := 0, md_Hash := []\<rparr>"
  obtain w1 where w1: "co_SetFsNode sample_coordinator w ?i md = (w1, Ok ())" "nt_fates w1 = []" using sample_calls(1) [OF assms] by blast
  obtain w2 where w2: "co_AddFsNodeChild sample_coordinator w1 (bn_ID (fn_bfsNode n)) ?i = (w2, Ok ())" "nt_fates w2 = []"
    using sample_calls(2) [OF w1(2)] by blast
  show ?thesis using w1 w2 unfolding md_def by (simp add: Mkdir_def new_node_def Let_def case_prod_unfold)
qed

lemma get_nodes_no_error: "snd (get_nodes D cd m is) \<noteq> Err e"
proof (induction "is" arbitrary: m)
  case (Cons i "is")
  then show ?case by (auto split: prod.splits res.splits) (metis snd_conv)+
qed simp

lemma sample_children:
  assumes "nt_fates w = []" "local_kids ref_view (nt_server w) i = {}"
  shows "\<exists>w'. co_GetFsNodeChildren sample_coordinator w i = (w', Ok []) \<and> nt_fates w' = []"
proof -
  have inv: "local_inv ref_redis ref_view s" for s using ref_redis_contract by (simp add: local_inv_def)
  obtain w' z where g: "co_GetFsNodeChildren sample_coordinator w i = (w', z)" by fastforce
  obtain s' z' where l: "co_GetFsNodeChildren (local_coordinator ref_redis ref_codec) (nt_server w) i = (s', z')" by fastforce
  obtain r ids where "rd_SMembers ref_redis (mt_rdb (lc_metadata (nt_server w))) (MetadataFsNodeChildren i) = (r, Ok ids)"
    by (simp add: ref_redis_def)
  then have "z' \<noteq> Err e" for e
    using l get_nodes_no_error [of ref_redis] by (auto simp: local_coordinator_def on_metadata_def meta_GetFsNodeChildren_def split: prod.splits)
  moreover have "z' \<noteq> Panic" using local.get_children [OF inv l] by simp
  ultimately obtain mds where "z' = Ok mds" by (cases z') auto
  then have "z = Ok (map rem_child_node (map meta_ToProto mds))" "nt_fates w' = []"
    using g l assms(1) by (auto simp: remote_coordinator_def rem_GetFsNodeChildren_def rpc_def srv_GetFsNodeChildren_def)
  moreover have "mds = []" using local.get_children [OF inv l] \<open>z' = Ok mds\<close> assms(2) by (cases mds) auto
  ultimately show ?thesis using g by simp
qed

lemma start_reliable: "nt_fates remote_start = []"
  by (simp add: remote_start_def)

lemma sample_empty:
  "local_nodes ref_codec ref_view (nt_server remote_start) i = None" "local_kids ref_view (nt_server remote_start) i = {}"
  by (simp_all add: local_nodes_def local_kids_def remote_start_def fs_node_def fs_kids_def ref_view_def ref_empty_def)

theorem mkdir_rmdir_roundtrip_witness:
  "\<exists>w1 n1 w2. Mkdir sample_coordinator (1, 2) sample_dir ''d'' 0x1ED remote_start = (w1, FOk n1) \<and>
     Rmdir sample_coordinator sample_dir ''d'' w1 = (w2, FOk ()) \<and>
     local_nodes ref_codec ref_view (nt_server w2) = (\<lambda>_. None) \<and> local_kids ref_view (nt_server w2) = (\<lambda>_. {})"
proof -
  let ?i = "GenerateFsID (filepath_Join [bn_Path (fn_bfsNode sample_dir), ''d''])"
  obtain w1 n1 where m: "Mkdir sample_coordinator (1, 2) sample_dir ''d'' 0x1ED remote_start = (w1, FOk n1)" "nt_fates w1 = []"
    using sample_mkdir [OF start_reliable] by blast
  have inv: "local_inv ref_redis ref_view s" for s using ref_redis_contract by (simp add: local_inv_def)
  have "length ?i \<noteq> length (bn_ID (fn_bfsNode sample_dir))" by (simp add: FsID_length) (simp add: sample_dir_def root_node_def Let_def)
  then have "?i \<noteq> bn_ID (fn_bfsNode sample_dir)" by metis
  then have kids: "local_kids ref_view (nt_server w1) ?i = {}"
    using remote_local.new_node_ok [OF inv m(1) [unfolded Mkdir_def]] sample_empty by auto
  obtain w2 where g: "co_GetFsNodeChildren sample_coordinator w1 ?i = (w2, Ok [])" "nt_fates w2 = []"
    using sample_children [OF m(2) kids] by blast
  obtain w3 where u: "co_RemoveFsNode sample_coordinator w2 ?i = (w3, Ok ())" "nt_fates w3 = []" using sample_calls(4) [OF g(2)] by blast
  obtain w4 where v: "co_RemoveFsNodeChild sample_coordinator w3 (bn_ID (fn_bfsNode sample_dir)) ?i = (w4, Ok ())"
    using sample_calls(3) [OF u(2)] by blast
  have r: "Rmdir sample_coordinator sample_dir ''d'' w1 = (w4, FOk ())" using g u v by (simp add: Rmdir_def Unlink_def Let_def)
  show ?thesis using mkdir_rmdir_roundtrip [OF ref_redis_contract refl m(1) r] m r sample_empty by (auto simp: fun_eq_iff)
qed

text \<open>
  C37: A successful rename stores a copy of the node under the new path and lists it, instead of the old one, in the same directory, whichever
  directory was asked for; no other node changes. So the copy still carries the id of the old path, and the node of the old path is not
  removed: it still resolves.
\<close>

theorem rename_keeps_old_node:
  assumes "redis_contract D vw" "C = remote_coordinator f32 cfg (local_coordinator D cd)"
    and "Rename C n oldName newParent newName w = (w', FOk ())"
    and "old = GenerateFsID (filepath_Join [bn_Path (fn_bfsNode n), oldName])" "new = GenerateFsID (filepath_Join [bn_Path (fn_bfsNode n), newName])"
  shows "\<exists>md. local_nodes cd vw (nt_server w) old = Some md \<and>
    local_nodes cd vw (nt_server w') =
      (local_nodes cd vw (nt_server w))(new \<mapsto> md\<lparr>md_Name := newName, md_Path := filepath_Join [bn_Path (fn_bfsNode n), newName]\<rparr>) \<and>
    local_kids vw (nt_server w') =
      (local_kids vw (nt_server w))(bn_ID (fn_bfsNode n) := insert new (local_kids vw (nt_server w) (bn_ID (fn_bfsNode n)) - {old})) \<and>
    (old \<noteq> new \<longrightarrow> local_nodes cd vw (nt_server w') old = Some md)"
proof -
  have inv: "local_inv D vw (nt_server w)" using assms(1) by (simp add: local_inv_def)
  from remote_local.Rename_ok [OF inv assms(3) [unfolded assms(2)]] show ?thesis
    unfolding assms(4) [symmetric] assms(5) [symmetric] by auto
qed

theorem rename_keeps_old_node_witness:
  "\<exists>w1 n1 w2 md. Mkdir sample_coordinator (1, 2) sample_dir ''d'' 0x1ED remote_start = (w1, FOk n1) \<and>
     Rename sample_coordinator sample_dir ''d'' sample_dir ''e'' w1 = (w2, FOk ()) \<and>
     local_nodes ref_codec ref_view (nt_server w2) (GenerateFsID ''/e'') = Some (md\<lparr>md_Name := ''e'', md_Path := ''/e''\<rparr>)"
proof -
  have paths: "bn_Path (fn_bfsNode sample_dir) = ''/''" "filepath_Join [''/'', ''d''] = ''/d''" "filepath_Join [''/'', ''e''] = ''/e''"
    by (simp_all add: sample_dir_def root_node_def root_meta_def Let_def) code_simp+
  obtain w1 n1 where m: "Mkdir sample_coordinator (1, 2) sample_dir ''d'' 0x1ED remote_start = (w1, FOk n1)" "nt_fates w1 = []"
    using sample_mkdir [OF start_reliable] by blast
  have inv: "local_inv ref_redis ref_view s" for s using ref_redis_contract by (simp add: local_inv_def)
  have "reads_succeed ref_redis" by (simp add: reads_succeed_def ref_redis_def)
  moreover have "local_nodes ref_codec ref_view (nt_server w1) (GenerateFsID ''/d'') \<noteq> None"
    using remote_local.new_node_ok [OF inv m(1) [unfolded Mkdir_def]] by (auto simp: paths)
  ultimately obtain w2 md where g: "co_GetFsNode sample_coordinator w1 (GenerateFsID ''/d'') = (w2, Ok md)" "nt_fates w2 = []"
    using remote_get_found [OF ref_redis_contract _ m(2)] by blast
  obtain w3 where 3: "co_SetFsNode sample_coordinator w2 (GenerateFsID ''/e'') (md\<lparr>md_Name := ''e'', md_Path := ''/e''\<rparr>) = (w3, Ok ())"
    "nt_fates w3 = []" using sample_calls(1) [OF g(2)] by blast
  obtain w4 where 4: "co_RemoveFsNodeChild sample_coordinator w3 (bn_ID (fn_bfsNode sample_dir)) (GenerateFsID ''/d'') = (w4, Ok ())"
    "nt_fates w4 = []" using sample_calls(3) [OF 3(2)] by blast
  obtain w5 where 5: "co_AddFsNodeChild sample_coordinator w4 (bn_ID (fn_bfsNode sample_dir)) (GenerateFsID ''/e'') = (w5, Ok ())"
    using sample_calls(2) [OF 4(2)] by blast
  have r: "Rename sample_coordinator sample_dir ''d'' sample_dir ''e'' w1 = (w5, FOk ())"
    by (simp add: Rename_def paths g(1) 3(1) 4(1) 5 Let_def)
  show ?thesis using rename_keeps_old_node [OF ref_redis_contract refl r refl refl] m(1) r by (auto simp: paths)
qed

end
