(* ===== verification/Cluster.thy ===== *)
theory Cluster
  imports Blob_Fs_Theorems
begin

text \<open>
  The parts put together: clients whose requests are answered by the handlers of cache servers, with one coordinator behind the clients
  and the servers. Every request travels over the network of \<^verbatim>\<open>Coordinator\<close>, which may lose it or its answer; a handler that panics ends
  its server.
\<close>

subsection \<open>Servers and requests\<close>

record ('c, 's, 'k) cluster =
  cw_servers :: "string \<Rightarrow> ('c, 's, 'k) CacheService option"
  cw_coord :: 's

definition on_server :: "(('c, 's, 'k) CacheService \<Rightarrow> ('c, 's, 'k) CacheService \<times> 'p res) \<Rightarrow> ('c, 's, 'k) cluster \<Rightarrow> string
    \<Rightarrow> ('c, 's, 'k) cluster \<times> 'p res" where
  "on_server handler W addr =
     (case cw_servers W addr of
        None \<Rightarrow> (W, Err ErrUnavailable)
      | Some s \<Rightarrow>
          (case handler (s\<lparr>sv_coord := cw_coord W\<rparr>) of
             (s', Panic) \<Rightarrow> (\<lparr>cw_servers = (cw_servers W)(addr := None), cw_coord = sv_coord s'\<rparr>, Err ErrUnavailable)
           | (s', r) \<Rightarrow> (\<lparr>cw_servers = (cw_servers W)(addr \<mapsto> s'), cw_coord = sv_coord s'\<rparr>, r)))"

abbreviation request :: "(('c, 's, 'k) CacheService \<Rightarrow> ('c, 's, 'k) CacheService \<times> 'p res) \<Rightarrow> ('c, 's, 'k) cluster net \<Rightarrow> string
    \<Rightarrow> ('c, 's, 'k) cluster net \<times> 'p res" where
  "request handler w addr \<equiv> rpc (on_server handler) w addr"

text \<open>
  How the answers of the handlers look to a client: an error a handler returns replaces its response, and a stream that ends with a
  status other than ok ends with an error.
\<close>

fun source_answer :: "'s \<times> source_reply res \<Rightarrow> 's \<times> (bool \<times> string) res" where
  "source_answer (s, Ok reply) =
     (s, if sr_Failed reply then Err (case sr_Error reply of Some e \<Rightarrow> e | None \<Rightarrow> ErrUnavailable) else Ok (sr_Ok reply, sr_Hash reply))"
| "source_answer (s, Err e) = (s, Err e)"
| "source_answer (s, Panic) = (s, Panic)"

fun lock_answer :: "'s \<times> lock_reply res \<Rightarrow> 's \<times> (bool \<times> string \<times> bool) res" where
  "lock_answer (s, Ok reply) = (s, Ok (lr_Ok reply, lr_Hash reply, lr_FailedToAcquireLock reply))"
| "lock_answer (s, Err e) = (s, Err e)"
| "lock_answer (s, Panic) = (s, Panic)"

fun stream_answer :: "'s \<times> bytes list \<times> stream_status \<Rightarrow> 's \<times> ((bool \<times> bytes) list \<times> goerr option) res" where
  "stream_answer (s, sent, StreamOk) = (s, Ok (map (Pair True) sent, None))"
| "stream_answer (s, sent, StreamPanic) = (s, Panic)"
| "stream_answer (s, sent, _) = (s, Ok (map (Pair True) sent, Some ErrContentNotFound))"

definition cluster_peers :: "('c, 's, 'k) server_env \<Rightarrow> (nat \<Rightarrow> int) \<Rightarrow> (rat \<Rightarrow> rat) \<Rightarrow> rat \<Rightarrow> ('c, 's, 'k) cluster net peers" where
  "cluster_peers SE clock f32 alloc = \<lparr>
     pr_Dial = (\<lambda>w addr opts. (w, Ok ())),
     pr_GetState = (\<lambda>w addr. request (\<lambda>s. (s, case GetState f32 alloc s of (version, _, usage) \<Rightarrow> Ok (version, usage))) w addr),
     pr_HasContent = (\<lambda>w addr hash. request (\<lambda>s. let (s', b) = HasContent SE s hash in (s', Ok b)) w addr),
     pr_GetContent = (\<lambda>w addr req. request (\<lambda>s. GetContent SE (clock 0) s req) w addr),
     pr_GetContentStream = (\<lambda>w addr req. request (\<lambda>s. stream_answer (GetContentStream SE clock (\<lambda>_. True) s req)) w addr),
     pr_StoreContent = (\<lambda>w addr chunks. request (\<lambda>s. StoreContent SE s (map Ok chunks)) w addr),
     pr_StoreContentFromSource = (\<lambda>w addr source. request (\<lambda>s. source_answer (StoreContentFromSource SE s source)) w addr),
     pr_StoreContentFromSourceWithLock =
       (\<lambda>w addr source. request (\<lambda>s. lock_answer (StoreContentFromSourceWithLock SE 0 0 s source)) w addr)\<rparr>"

subsection \<open>The coordinator behind the clients\<close>

definition on_coord :: "('s \<Rightarrow> 's \<times> 'p) \<Rightarrow> ('c, 's, 'k) cluster net \<Rightarrow> ('c, 's, 'k) cluster net \<times> 'p" where
  "on_coord f w = (let (s, x) = f (cw_coord (nt_server w)) in (w\<lparr>nt_server := (nt_server w)\<lparr>cw_coord := s\<rparr>\<rparr>, x))"

definition cluster_coordinator :: "'s coordinator \<Rightarrow> ('c, 's, 'k) cluster net coordinator" where
  "cluster_coordinator C = \<lparr>
     co_AddHostToIndex = (\<lambda>w locality host. on_coord (\<lambda>s. co_AddHostToIndex C s locality host) w),
     co_SetHostKeepAlive = (\<lambda>w locality host. on_coord (\<lambda>s. co_SetHostKeepAlive C s locality host) w),
     co_GetAvailableHosts = (\<lambda>w locality. on_coord (\<lambda>s. co_GetAvailableHosts C s locality) w),
     co_GetRegionConfig = (\<lambda>w locality. on_coord (\<lambda>s. co_GetRegionConfig C s locality) w),
     co_SetClientLock = (\<lambda>w hash host. on_coord (\<lambda>s. co_SetClientLock C s hash host) w),
     co_RemoveClientLock = (\<lambda>w hash host. on_coord (\<lambda>s. co_RemoveClientLock C s hash host) w),
     co_SetStoreFromContentLock = (\<lambda>w locality path. on_coord (\<lambda>s. co_SetStoreFromContentLock C s locality path) w),
     co_RemoveStoreFromContentLock = (\<lambda>w locality path. on_coord (\<lambda>s. co_RemoveStoreFromContentLock C s locality path) w),
     co_RefreshStoreFromContentLock = (\<lambda>w locality path. on_coord (\<lambda>s. co_RefreshStoreFromContentLock C s locality path) w),
     co_SetFsNode = (\<lambda>w i md. on_coord (\<lambda>s. co_SetFsNode C s i md) w),
     co_GetFsNode = (\<lambda>w i. on_coord (\<lambda>s. co_GetFsNode C s i) w),
     co_RemoveFsNode = (\<lambda>w i. on_coord (\<lambda>s. co_RemoveFsNode C s i) w),
     co_RemoveFsNodeChild = (\<lambda>w p i. on_coord (\<lambda>s. co_RemoveFsNodeChild C s p i) w),
     co_GetFsNodeChildren = (\<lambda>w i. on_coord (\<lambda>s. co_GetFsNodeChildren C s i) w),
     co_AddFsNodeChild = (\<lambda>w p i. on_coord (\<lambda>s. co_AddFsNodeChild C s p i) w)\<rparr>"

text \<open>The calls of a client to the coordinator leave the servers alone.\<close>

lemma on_coordE:
  assumes "on_coord f w = (w', x)"
  obtains s where "f (cw_coord (nt_server w)) = (s, x)" "cw_coord (nt_server w') = s" "cw_servers (nt_server w') = cw_servers (nt_server w)"
    "nt_fates w' = nt_fates w"
  using assms by (auto simp: on_coord_def split: prod.splits)

context fs_coordinator
begin

lemma cluster_contract:
  "fs_coordinator (cluster_coordinator C)
     (\<lambda>w. inv (cw_coord (nt_server w)) \<and> cw_servers (nt_server w) = S \<and> nt_fates w = fs) valid
     (\<lambda>w. nodes (cw_coord (nt_server w))) (\<lambda>w. kids (cw_coord (nt_server w)))"
proof (unfold_locales, goal_cases)
  case (1 w i md w' x)
  then show ?case using set_node [of "cw_coord (nt_server w)" i md] by (auto simp: cluster_coordinator_def elim!: on_coordE)
next
  case (2 w i w' y)
  then show ?case using get_node [of "cw_coord (nt_server w)" i] by (auto simp: cluster_coordinator_def elim!: on_coordE)
next
  case (3 w i w' x)
  then show ?case using remove_node [of "cw_coord (nt_server w)" i] by (auto simp: cluster_coordinator_def elim!: on_coordE)
next
  case (4 w p i w' x)
  then show ?case using add_child [of "cw_coord (nt_server w)" p i] by (auto simp: cluster_coordinator_def elim!: on_coordE)
next
  case (5 w p i w' x)
  then show ?case using remove_child [of "cw_coord (nt_server w)" p i] by (auto simp: cluster_coordinator_def elim!: on_coordE)
next
  case (6 w i w' z)
  then show ?case using get_children [of "cw_coord (nt_server w)" i] by (auto simp: cluster_coordinator_def elim!: on_coordE)
qed

end

interpretation cluster_remote: fs_coordinator "cluster_coordinator (remote_coordinator f32 cfg (local_coordinator D cd))"
    "\<lambda>w. local_inv D vw (nt_server (cw_coord (nt_server w))) \<and> cw_servers (nt_server w) = S \<and> nt_fates w = fs" proper_id
    "\<lambda>w. local_nodes cd vw (nt_server (cw_coord (nt_server w)))" "\<lambda>w. local_kids vw (nt_server (cw_coord (nt_server w)))"
    for f32 cfg and D :: "'r redis" and cd vw S fs
  by (rule remote_local.cluster_contract)

subsection \<open>What a request does\<close>

lemma request_ok:
  assumes "request handler w addr = (w', Ok v)"
  obtains s s' where "cw_servers (nt_server w) addr = Some s" "handler (s\<lparr>sv_coord := cw_coord (nt_server w)\<rparr>) = (s', Ok v)"
    "cw_servers (nt_server w') addr = Some s'" "cw_coord (nt_server w') = sv_coord s'"
proof -
  obtain W' where W': "on_server handler (nt_server w) addr = (W', Ok v)" "nt_server w' = W'"
    using assms by (auto simp: rpc_def split: list.splits fate.splits prod.splits if_splits)
  show thesis using W'(1) unfolding W'(2) [symmetric]
    by (auto simp: on_server_def split: option.splits prod.splits res.splits intro!: that) (auto simp: W'(2))
qed

lemma request_delivered:
  assumes "nt_fates w = []" "cw_servers (nt_server w) addr = Some s" "snd (handler (s\<lparr>sv_coord := cw_coord (nt_server w)\<rparr>)) = Ok v"
  shows "snd (request handler w addr) = Ok v"
  using assms by (auto simp: rpc_def on_server_def split: prod.splits)

text \<open>Adding content to the storage may write files, but what was a file stays one.\<close>

lemma WriteFile_file:
  "os_WriteFile f q x = (f', ok) \<Longrightarrow> \<exists>b. fs_nodes f p = Some (File b) \<Longrightarrow> \<exists>b. fs_nodes f' p = Some (File b)"
  by (auto simp: os_WriteFile_def split: if_splits option.splits io_fault.splits)

lemma add_chunks_file:
  "add_chunks R h c q s off ks = (s', r) \<Longrightarrow> \<exists>b. fs_nodes (cas_fs s) p = Some (File b) \<Longrightarrow> \<exists>b. fs_nodes (cas_fs s') p = Some (File b)"
proof (induction "nat (int (length c) - off)" arbitrary: s off ks rule: less_induct)
  case less
  define key nx e where "key = chunk_key h (off sdiv page s)" and "nx = wrap64 (off + page s)"
    and "e = (if nx > int (length c) then int (length c) else nx)"
  obtain f1 ok where f1: "(if cas_diskCachedUsageExceeded s then (cas_fs s, True)
      else os_WriteFile (cas_fs s) (filepath_Join [q, key]) (take (nat (e - off)) (drop (nat off) c))) = (f1, ok)" by fastforce
  have k: "\<exists>b. fs_nodes f1 p = Some (File b)" using less.prems(2) f1 WriteFile_file [of "cas_fs s"] by (auto split: if_splits)
  have rest: "\<exists>b. fs_nodes (cas_fs s') p = Some (File b)" if "add_chunks R h c q (s\<lparr>cas_fs := f1, cas_cache := x\<rparr>) nx ks' = (s', r)" "off < e" for x ks'
    using that less.hyps [of nx "s\<lparr>cas_fs := f1, cas_cache := x\<rparr>" ks'] k by (simp add: e_def split: if_splits)
  show ?case
    using less.prems k unfolding add_chunks.simps [of R h c q s off ks] Let_def key_def [symmetric] nx_def [symmetric] e_def [symmetric] f1
    by (auto split: if_splits prod.splits intro: rest)
qed

lemma store_file:
  assumes "store SE s c = (s1, r)" "os_Stat (cas_fs (sv_cas s)) p = Some (File b)"
  shows "\<exists>b. os_Stat (cas_fs (sv_cas s1)) p = Some (File b)" "sv_coord s1 = sv_coord s"
proof -
  obtain k x where k: "cas_Add (en_R SE) (sv_cas s) (content_hash c) c = (k, x)" by fastforce
  then have s1: "s1 = upd_cas s k" using assms(1) by (auto simp: store_def content_hash_def Let_def split: res.splits)
  then show "sv_coord s1 = sv_coord s" by simp
  show "\<exists>b. os_Stat (cas_fs (sv_cas s1)) p = Some (File b)"
  proof -
    obtain f1 ok where f1: "(if cas_diskCachedUsageExceeded (sv_cas s) then (cas_fs (sv_cas s), True)
        else os_MkdirAll (cas_fs (sv_cas s)) (filepath_Join [cas_diskCacheDir (sv_cas s), content_hash c])) = (f1, ok)" by fastforce
    have m: "\<exists>b. fs_nodes f1 p = Some (File b)"
      using f1 assms(2) mkdirs_preserves_files [of "cas_fs (sv_cas s)"] by (auto simp: os_Stat_def os_MkdirAll_def split: if_splits)
    obtain k2 r2 where a: "add_chunks (en_R SE) (content_hash c) c (filepath_Join [cas_diskCacheDir (sv_cas s), content_hash c])
        ((sv_cas s)\<lparr>cas_fs := f1\<rparr>) 0 [] = (k2, r2)" by fastforce
    have "\<exists>b. fs_nodes (cas_fs k2) p = Some (File b)" using add_chunks_file [OF a] m by simp
    moreover have "cas_fs k = f1 \<or> cas_fs k = cas_fs k2"
      using k unfolding cas_Add_def Let_def f1 prod.case a by (cases ok; cases r2) (auto split: prod.splits if_splits)
    ultimately show ?thesis using m s1 by (auto simp: os_Stat_def)
  qed
qed

lemma source_stored:
  assumes "StoreContentFromSource SE s source = (s1, Ok reply)" "sr_Ok reply" "src_BucketName source = []"
  obtains b s0 c where "os_ReadFile (cas_fs (sv_cas s)) (filepath_Join [''/'', src_Path source]) = Some b" "store SE s b = (s0, Ok (sr_Hash reply))"
    "StoreContentInBlobFs SE (cas_fs (sv_cas s0)) (sv_coord s0) (filepath_Join [''/'', src_Path source]) (sr_Hash reply) (of_nat (length b)) = (c, Ok ())"
    "s1 = s0\<lparr>sv_coord := c\<rparr>" "\<not> sr_Failed reply"
proof -
  let ?p = "filepath_Join [''/'', src_Path source]"
  obtain b where b: "os_ReadFile (cas_fs (sv_cas s)) ?p = Some b" "cacheSourceFromLocalPath (cas_fs (sv_cas s)) ?p = Ok b"
    using assms unfolding StoreContentFromSource_def cacheSourceFromLocalPath_def Let_def by (auto split: option.splits)
  obtain s0 x where s0: "store SE s b = (s0, x)" by fastforce
  obtain hash where hash: "x = Ok hash" using assms b(2) s0 by (cases x) (auto simp: StoreContentFromSource_def Let_def)
  obtain c y where c: "StoreContentInBlobFs SE (cas_fs (sv_cas s0)) (sv_coord s0) ?p hash (of_nat (length b)) = (c, y)" by fastforce
  have "y = Ok () \<and> s1 = s0\<lparr>sv_coord := c\<rparr> \<and> reply = \<lparr>sr_Ok = True, sr_Hash = hash, sr_Error = None, sr_Failed = False\<rparr>"
    using assms b(2) s0 hash c by (cases y) (auto simp: StoreContentFromSource_def Let_def)
  then show thesis using that [OF b(1), of s0 c] s0 hash c by simp
qed

lemma path_elems_Join: "path_elems q \<noteq> [] \<Longrightarrow> path_elems (filepath_Clean (filepath_Join [''/'', q])) = path_elems q"
proof -
  let ?es = "path_elems q"
  assume "?es \<noteq> []"
  then have r: "rooted (abs_path ?es)" "elements (abs_path ?es) = ?es"
    using rooted_render elements_render plain_normal [OF path_elems_plain] by blast+
  have "elements (''//'' @ abs_path ?es) = elements (abs_path ?es)"
    using r(1) by (simp add: elements_def rooted_def clean_step_def split: list.splits)
  then show ?thesis using r by (simp add: Join_root filepath_Clean_def path_elems_def)
qed

subsection \<open>From the source to the reader\<close>

text \<open>The first attempt of a read goes to the chosen host.\<close>

lemma read_first:
  assumes "chosen (ce_H E) c (retrieval hash key 0) = Ok (Some host)" "cl_grpcClients c (HostId host) = Some addr" "0 < max_attempts c len"
    and "snd (pr_GetContent (ce_P E) w addr \<lparr>gr_Hash = hash, gr_Offset = off, gr_Length = len\<rparr>) = Ok (True, content)" "key \<noteq> []"
  shows "snd (client_GetContent E now hash off len key (c, w)) = Ok content"
proof -
  obtain n where n: "max_attempts c len = Suc n" using assms(3) by (cases "max_attempts c len") simp_all
  obtain c1 where "getGRPCClient (ce_H E) (now 0) c (retrieval hash key 0) = (c1, Ok (addr, host))"
    using assms(1,2) by (simp add: getGRPCClient_chosen)
  then show ?thesis
    using assms(4,5) n by (auto simp: client_GetContent_def or_key_def split: prod.splits)
qed

lemma fuse_store_ok:
  assumes "StoreContentFromFUSE E now path key False (c, w) = ((c1, w1), Ok hash)" "ce_P E = cluster_peers SE clock g alloc"
    and "chosen (ce_H E) c (storage path (or_key key path)) = Ok (Some host)" "cl_grpcClients c (HostId host) = Some addr"
  obtains s s1 reply where "cw_servers (nt_server w) addr = Some s"
    "StoreContentFromSource SE (s\<lparr>sv_coord := cw_coord (nt_server w)\<rparr>) (fuse_source path) = (s1, Ok reply)" "sr_Ok reply" "sr_Hash reply = hash"
    "cw_servers (nt_server w1) addr = Some s1" "cw_coord (nt_server w1) = sv_coord s1"
proof -
  have "request (\<lambda>s. source_answer (StoreContentFromSource SE s (fuse_source path))) w addr = (w1, Ok (True, hash))"
    using assms by (auto simp: StoreContentFromFUSE_def store_from_def request_store_def getGRPCClient_chosen cluster_peers_def Let_def
        split: prod.splits res.splits if_splits)
  then obtain s s1 where s: "cw_servers (nt_server w) addr = Some s"
    "source_answer (StoreContentFromSource SE (s\<lparr>sv_coord := cw_coord (nt_server w)\<rparr>) (fuse_source path)) = (s1, Ok (True, hash))"
    "cw_servers (nt_server w1) addr = Some s1" "cw_coord (nt_server w1) = sv_coord s1" by (rule request_ok)
  show thesis
    using s(2) that [OF s(1) _ _ _ s(3,4)]
    by (cases "StoreContentFromSource SE (s\<lparr>sv_coord := cw_coord (nt_server w)\<rparr>) (fuse_source path)" rule: source_answer.cases)
      (auto split: if_splits)
qed

text \<open>What a successful request to cache a source file leaves behind: the content on the disk of the server, and the path in the tree.\<close>

lemma fuse_store_effect:
  assumes "redis_contract D vw" "C = remote_coordinator f32 cfg (local_coordinator D cd)" "en_C SE = C" "ce_P E = cluster_peers SE clock g alloc"
    and "es = path_elems path" "es \<noteq> []" "ids_differ es"
    and "chosen (ce_H E) c (storage path (or_key key path)) = Ok (Some host)" "cl_grpcClients c (HostId host) = Some addr"
      "cw_servers (nt_server w) addr = Some s" "os_ReadFile (cas_fs (sv_cas s)) (abs_path es) = Some b"
    and "StoreContentFromFUSE E now path key False (c, w) = ((c1, w1), Ok hash)" "cw_servers (nt_server w1) addr = Some s1"
  shows "\<exists>s0. store SE (s\<lparr>sv_coord := cw_coord (nt_server w)\<rparr>) b = (s0, Ok hash) \<and> sv_cas s0 = sv_cas s1"
    and "walkable (local_nodes cd vw (nt_server (cw_coord (nt_server w1)))) (local_kids vw (nt_server (cw_coord (nt_server w1)))) es (length es) \<and>
      file_stored (local_nodes cd vw (nt_server (cw_coord (nt_server w1)))) es hash (of_nat (length b))"
proof -
  let ?s = "s\<lparr>sv_coord := cw_coord (nt_server w)\<rparr>" and ?p = "filepath_Join [''/'', path]"
  obtain s' s1' reply where r: "cw_servers (nt_server w) addr = Some s'"
    "StoreContentFromSource SE (s'\<lparr>sv_coord := cw_coord (nt_server w)\<rparr>) (fuse_source path) = (s1', Ok reply)" "sr_Ok reply" "sr_Hash reply = hash"
    "cw_servers (nt_server w1) addr = Some s1'" "cw_coord (nt_server w1) = sv_coord s1'"
    by (rule fuse_store_ok [OF assms(12,4,8,9)])
  have s: "s' = s" "s1' = s1" using r(1,5) assms(10,13) by simp_all
  have p: "src_Path (fuse_source path) = path" "src_BucketName (fuse_source path) = []" "?p = abs_path es"
    by (simp_all add: fuse_source_def Join_root assms(5))
  obtain b' s0 k where st: "os_ReadFile (cas_fs (sv_cas ?s)) ?p = Some b'" "store SE ?s b' = (s0, Ok hash)"
    "StoreContentInBlobFs SE (cas_fs (sv_cas s0)) (sv_coord s0) ?p hash (of_nat (length b')) = (k, Ok ())" "s1 = s0\<lparr>sv_coord := k\<rparr>"
    by (rule source_stored [OF r(2,3) p(2), unfolded s p(1) r(4)])
  have b': "b' = b" using st(1) assms(11) p(3) by simp
  show "\<exists>s0. store SE ?s b = (s0, Ok hash) \<and> sv_cas s0 = sv_cas s1" using st(2,4) b' by auto
  have "os_Stat (cas_fs (sv_cas ?s)) ?p = Some (File b)"
    using st(1) b' by (auto simp: os_ReadFile_def os_Stat_def split: option.splits fs_node.splits if_splits)
  from store_file(1) [OF st(2) this] obtain b2 where b2: "os_Stat (cas_fs (sv_cas s0)) ?p = Some (File b2)" by blast
  have es: "path_elems (filepath_Clean ?p) = es" using path_elems_Join [of path] assms(5,6) by simp
  have inv: "local_inv D vw (nt_server (sv_coord s0))" using assms(1) by (simp add: local_inv_def)
  have "cw_coord (nt_server w1) = k" using r(6) s(2) st(4) by simp
  then show "walkable (local_nodes cd vw (nt_server (cw_coord (nt_server w1)))) (local_kids vw (nt_server (cw_coord (nt_server w1)))) es (length es) \<and>
      file_stored (local_nodes cd vw (nt_server (cw_coord (nt_server w1)))) es hash (of_nat (length b))"
    using remote_local.store_in_blobfs [OF assms(3) [unfolded assms(2)] inv, of ?p, unfolded es, OF assms(7,6) st(3), of b2] b2 b' p(3) by simp
qed

text \<open>A stored path is found by a client of the cluster whose messages arrive, and looking it up changes neither the client nor the servers.\<close>

lemma cluster_walk:
  assumes "redis_contract D vw" "reads_succeed D" "ce_C E = cluster_coordinator (remote_coordinator f32 cfg (local_coordinator D cd))"
    and "plain_path es" "es \<noteq> []" "no_percent es" "bn_Path (fn_bfsNode node0) = ''/''" "nt_fates (cw_coord (nt_server w)) = []"
    and "walkable (local_nodes cd vw (nt_server (cw_coord (nt_server w)))) (local_kids vw (nt_server (cw_coord (nt_server w)))) es (length es)"
    and "file_stored (local_nodes cd vw (nt_server (cw_coord (nt_server w)))) es hash sz"
  obtains n w' where "fs_walk E t node0 es (c, w) = ((c, w'), FOk n)" "bn_Path (fn_bfsNode n) = abs_path es" "bn_Hash (fn_bfsNode n) = hash"
    "at_Size (bn_Attr (fn_bfsNode n)) = sz" "cw_servers (nt_server w') = cw_servers (nt_server w)" "nt_fates w' = nt_fates w"
proof -
  let ?S = "cw_servers (nt_server w)" and ?fs = "nt_fates w" and ?nodes = "local_nodes cd vw (nt_server (cw_coord (nt_server w)))"
  have inv: "local_inv D vw m" for m using assms(1) by (simp add: local_inv_def)
  have p: "bn_Path (fn_bfsNode node0) = abs_path (take 0 es)" using assms(7) by (simp add: abs_path_Nil)
  have good: "\<exists>x' md. co_GetFsNode (cluster_coordinator (remote_coordinator f32 cfg (local_coordinator D cd))) x i = (x', Ok md) \<and>
      nt_fates (cw_coord (nt_server x')) = []"
    if "nt_fates (cw_coord (nt_server x)) = []" "local_nodes cd vw (nt_server (cw_coord (nt_server x))) i \<noteq> None" for x i
    using remote_get_found [OF assms(1,2) that, of f32 cfg] by (auto simp: cluster_coordinator_def on_coord_def)
  obtain c' w' r where walk: "fs_walk E t node0 (drop 0 es) (c, w) = ((c', w'), r)" by (metis prod.collapse)
  have spec: "(local_inv D vw (nt_server (cw_coord (nt_server w'))) \<and> cw_servers (nt_server w') = ?S \<and> nt_fates w' = ?fs) \<and> c' = c \<and>
      (case r of FOk n' \<Rightarrow> \<exists>md. ?nodes (path_id es) = Some md \<and> shows_node n' md | FErr e \<Rightarrow> e = ENOENT | FPanic \<Rightarrow> False)"
    using cluster_remote.fs_walk_spec [where S = ?S and fs = ?fs, OF assms(3,4,6) _ le0 assms(9) p walk] inv assms(5)
    by (auto split: fuse_res.splits)
  have "\<exists>n. r = FOk n"
    using cluster_remote.fs_walk_found [where S = ?S and fs = ?fs and good = "\<lambda>x. nt_fates (cw_coord (nt_server x)) = []",
        OF assms(3,4,6) good _ assms(8) le0 assms(9) p, of t c] inv walk by simp
  then obtain n md where n: "r = FOk n" "?nodes (path_id es) = Some md" "shows_node n md" using spec by auto
  have k: "Suc (length es - 1) = length es" using assms(5) by simp
  have "node_on_path ?nodes (local_kids vw (nt_server (cw_coord (nt_server w)))) es (length es - 1)"
    using assms(5,9) by (simp add: walkable_def)
  then have "md_Path md = abs_path es" unfolding node_on_path_def k using n(2) by auto
  then show thesis using that [of w' n] walk spec n assms(10) by (simp add: shows_node_def file_stored_def)
qed

subsection \<open>A concrete cluster\<close>

text \<open>One server, with a source file of six bytes on its disk, and the sample coordinator.\<close>

definition file_cas :: "(string \<Rightarrow> cache_item option) cas" where
  "file_cas = sample_cas\<lparr>cas_fs := one_file\<rparr>"

definition file_service :: "(string \<Rightarrow> cache_item option, sample_net, unit) CacheService" where
  "file_service = \<lparr>sv_mode = BlobCacheServerModeSlave, sv_hostId = ''host1'', sv_locality = ''us'', sv_privateIpAddr = ''10.0.0.1'',
     sv_publicIpAddr = [], sv_cas = file_cas, sv_currentHost = bare_host ''host1'', sv_serverConfig = cfg_Server sample_config,
     sv_globalConfig = cfg_Global sample_config, sv_coord = remote_start, sv_s3ClientCache = Map.empty\<rparr>"

type_synonym sample_cluster = "(string \<Rightarrow> cache_item option, sample_net, unit) cluster"

definition file_cluster :: "sample_cluster net" where
  "file_cluster = \<lparr>nt_server = \<lparr>cw_servers = [''host1:2049'' \<mapsto> file_service], cw_coord = remote_start\<rparr>, nt_fates = []\<rparr>"

definition file_env :: "(BlobCacheHost list, sample_cluster net) client_env" where
  "file_env = \<lparr>ce_H = list_hasher, ce_P = cluster_peers remote_env (\<lambda>_. 0) (\<lambda>q. q) 0,
     ce_C = cluster_coordinator (remote_coordinator (\<lambda>q. q) default_ServerConfig (local_coordinator ref_redis ref_codec))\<rparr>"

lemma file_run: "storage_run ref_cache (\<lambda>c. c) Map.empty file_cas"
proof (rule run_start [OF ref_contract])
  show "NewContentAddressableStorage (\<lambda>_ _. Ok Map.empty) 1000 one_file sample_config = Ok file_cas"
    by (simp add: NewContentAddressableStorage_def sample_config_def sample_cas_def file_cas_def Let_def wrap64_def)
  have d: "rooted ''/d''" "elements ''/d'' = [''d'']" by code_simp+
  have "CHR ''/'' \<in> set (tl (chunk_path ''/d'' h i))" if "hex_name h" for h i
    using that by (simp add: chunk_path_render d render_def Let_def)
  moreover have "CHR ''/'' \<notin> set (tl ''/a'')" by simp
  ultimately have "chunk_path ''/d'' h i \<noteq> ''/a''" if "hex_name h" for h i using that by metis
  then show "fresh_disk one_file (sc_DiskCacheDir (cfg_Server sample_config))"
    by (simp add: fresh_disk_def one_file_def sample_config_def)
qed (simp_all add: sample_config_def file_cas_def sample_cas_def)

lemma file_stored_ok: "\<exists>s1. store remote_env (file_service\<lparr>sv_coord := remote_start\<rparr>) sample_content = (s1, Ok sample_hash)"
proof -
  have "snd (cas_Add ref_cache file_cas sample_hash sample_content) = Ok ()" by code_simp
  then show ?thesis
    using store_ok [of remote_env "file_service\<lparr>sv_coord := remote_start\<rparr>" sample_content] unfolding sample_content_hash
    by (auto simp: remote_env_def file_service_def prod_eq_iff)
qed

lemma file_cached:
  "\<exists>w1 s1. StoreContentFromFUSE file_env 0 ''/a'' [] False (sample_client, file_cluster) = ((sample_client, w1), Ok sample_hash) \<and>
     cw_servers (nt_server w1) ''host1:2049'' = Some s1 \<and> nt_fates w1 = [] \<and> nt_fates (cw_coord (nt_server w1)) = []"
proof -
  let ?s = "file_service\<lparr>sv_coord := remote_start\<rparr>"
  have p: "filepath_Join [''/'', ''/a''] = ''/a''" by code_simp
  have f: "os_Stat (cas_fs (sv_cas ?s)) ''/a'' = Some (File sample_content)" "os_ReadFile (cas_fs (sv_cas ?s)) ''/a'' = Some sample_content"
    by (simp_all add: file_service_def file_cas_def one_file_def os_Stat_def os_ReadFile_def)
  obtain s0 where s0: "store remote_env ?s sample_content = (s0, Ok sample_hash)" using file_stored_ok by blast
  obtain b2 where b2: "os_Stat (cas_fs (sv_cas s0)) ''/a'' = Some (File b2)" using store_file(1) [OF s0 f(1)] by blast
  have "sv_coord s0 = remote_start" using store_file(2) [OF s0 f(1)] by simp
  then obtain n' where n': "StoreContentInBlobFs remote_env (cas_fs (sv_cas s0)) (sv_coord s0) ''/a'' sample_hash (of_nat (length sample_content)) =
      (\<lparr>nt_server = n', nt_fates = []\<rparr>, Ok ())"
    using remote_stored_file [OF b2, of "nt_server remote_start" sample_hash] by (force simp: remote_start_def)
  have "StoreContentFromSource remote_env ?s (fuse_source ''/a'') = (s0\<lparr>sv_coord := \<lparr>nt_server = n', nt_fates = []\<rparr>\<rparr>,
      Ok \<lparr>sr_Ok = True, sr_Hash = sample_hash, sr_Error = None, sr_Failed = False\<rparr>)"
    using f by (simp add: StoreContentFromSource_def fuse_source_def p cacheSourceFromLocalPath_def s0 n' Let_def)
  then show ?thesis
    by (simp add: StoreContentFromFUSE_def store_from_def request_store_def getGRPCClient_chosen chosen_def remember_def pick_host_def
        file_env_def list_hasher_def sample_client_simps sample_host_def cluster_peers_def rpc_def on_server_def file_cluster_def)
qed

lemma file_faults:
  assumes "StoreContentFromFUSE file_env 0 ''/a'' [] False (sample_client, file_cluster) = ((sample_client, w1), Ok sample_hash)"
    and "cw_servers (nt_server w1) ''host1:2049'' = Some s1"
  shows "fs_fault (cas_fs (sv_cas s1)) p = None"
proof -
  have c: "chosen (ce_H file_env) sample_client (storage ''/a'' (or_key [] ''/a'')) = Ok (Some host_one)"
    "cl_grpcClients sample_client (HostId host_one) = Some ''host1:2049''"
    by (simp_all add: chosen_def pick_host_def file_env_def list_hasher_def sample_client_simps sample_host_def)
  have p: "src_BucketName (fuse_source ''/a'') = []" "filepath_Join [''/'', src_Path (fuse_source ''/a'')] = ''/a''"
    by (simp add: fuse_source_def, simp add: fuse_source_def, code_simp)
  have E: "ce_P file_env = cluster_peers remote_env (\<lambda>_. 0) (\<lambda>q. q) 0" by (simp add: file_env_def)
  obtain s s1' reply where r: "cw_servers (nt_server file_cluster) ''host1:2049'' = Some s"
    "StoreContentFromSource remote_env (s\<lparr>sv_coord := cw_coord (nt_server file_cluster)\<rparr>) (fuse_source ''/a'') = (s1', Ok reply)" "sr_Ok reply"
    "cw_servers (nt_server w1) ''host1:2049'' = Some s1'" by (rule fuse_store_ok [OF assms(1) E c])
  obtain b s0 k where st: "os_ReadFile (cas_fs (sv_cas (s\<lparr>sv_coord := cw_coord (nt_server file_cluster)\<rparr>))) ''/a'' = Some b"
    "store remote_env (s\<lparr>sv_coord := cw_coord (nt_server file_cluster)\<rparr>) b = (s0, Ok (sr_Hash reply))" "s1' = s0\<lparr>sv_coord := k\<rparr>"
    by (rule source_stored [OF r(2,3) p(1), unfolded p(2)])
  have s: "sv_cas s = file_cas" using r(1) by (auto simp: file_cluster_def file_service_def)
  have b: "b = sample_content" using st(1) s by (simp add: file_cas_def one_file_def os_ReadFile_def)
  have "cas_Add ref_cache file_cas (content_hash sample_content) sample_content = (sv_cas s0, Ok ())"
    using store_hash [OF st(2)] b s by (auto simp: remote_env_def)
  from step_durable [OF run_sys_prefix [OF file_run] step_add [OF _ sample_size _ this]] have "durable file_cas (sv_cas s0)" by simp
  then show ?thesis using st(3) r(4) assms(2) by (simp add: durable_def file_cas_def one_file_def)
qed

end
