(* ===== verification/Fs_Tree.thy ===== *)
theory Fs_Tree
  imports Blob_Fs_Theorems
begin

text \<open>
  The typing of the tree of the file system: every node is filed under the digest of the path it carries. It is kept by everything that
  writes nodes, the server's \<^verbatim>\<open>StoreContentInBlobFs\<close> and the operations of a mounted file system, also when they fail half-way.
\<close>

subsection \<open>Well-keyed trees\<close>

definition well_keyed :: "(string \<Rightarrow> BlobFsMetadata option) \<Rightarrow> bool" where
  "well_keyed nodes \<longleftrightarrow> (\<forall>i md. nodes i = Some md \<longrightarrow> i = GenerateFsID (md_Path md))"

definition keyed :: "('s \<Rightarrow> bool) \<Rightarrow> ('s \<Rightarrow> string \<Rightarrow> BlobFsMetadata option) \<Rightarrow> 's \<Rightarrow> bool" where
  "keyed good nodes s \<longleftrightarrow> good s \<and> well_keyed (nodes s)"

inductive tree_step :: "('c, 's, 'k) server_env \<Rightarrow> 's \<Rightarrow> 's \<Rightarrow> bool" for E where
  stores: "StoreContentInBlobFs E f s path hash sz = (s', x) \<Longrightarrow> tree_step E s s'"
| mounts: "NewFileSystem (en_C E) s = (s', y) \<Longrightarrow> tree_step E s s'"
| creates: "Create (en_C E) now n name mode s = (s', z) \<Longrightarrow> tree_step E s s'"
| makes: "Mkdir (en_C E) now n name mode s = (s', z) \<Longrightarrow> tree_step E s s'"
| unlinks: "Unlink (en_C E) n name s = (s', u) \<Longrightarrow> tree_step E s s'"
| removes: "Rmdir (en_C E) n name s = (s', u) \<Longrightarrow> tree_step E s s'"
| renames: "Rename (en_C E) n oldName newParent newName s = (s', u) \<Longrightarrow> tree_step E s s'"
| looks_up: "inodeFromFsId (en_C E) s i = (s', z) \<Longrightarrow> tree_step E s s'"
| lists: "Readdir (en_C E) n s = (s', v) \<Longrightarrow> tree_step E s s'"

inductive_cases tree_stepE: "tree_step E s s'"

context fs_coordinator
begin

lemma keyed_set: "keyed inv nodes s \<Longrightarrow> co_SetFsNode C s (GenerateFsID (md_Path md)) md = (s', x) \<Longrightarrow> keyed inv nodes s'"
  using set_node [of s "GenerateFsID (md_Path md)" md s' x] by (auto simp: keyed_def well_keyed_def split: if_splits)

lemma keyed_get: "keyed inv nodes s \<Longrightarrow> co_GetFsNode C s i = (s', y) \<Longrightarrow> keyed inv nodes s'"
  using get_node [of s i s' y] by (simp add: keyed_def)

lemma keyed_remove: "keyed inv nodes s \<Longrightarrow> valid i \<Longrightarrow> co_RemoveFsNode C s i = (s', x) \<Longrightarrow> keyed inv nodes s'"
  using remove_node [of s i s' x] by (auto simp: keyed_def well_keyed_def split: if_splits)

lemma keyed_add_child: "keyed inv nodes s \<Longrightarrow> co_AddFsNodeChild C s p i = (s', x) \<Longrightarrow> keyed inv nodes s'"
  using add_child [of s p i s' x] by (simp add: keyed_def)

lemma keyed_remove_child: "keyed inv nodes s \<Longrightarrow> co_RemoveFsNodeChild C s p i = (s', x) \<Longrightarrow> keyed inv nodes s'"
  using remove_child [of s p i s' x] by (simp add: keyed_def)

lemma keyed_children: "keyed inv nodes s \<Longrightarrow> co_GetFsNodeChildren C s i = (s', z) \<Longrightarrow> keyed inv nodes s'"
  using get_children [of s i s' z] by (simp add: keyed_def)

lemma keyed_new_node:
  assumes "keyed inv nodes s" "new_node C now n name mode s = (s', z)"
  shows "keyed inv nodes s'"
proof -
  define p where "p = filepath_Join [bn_Path (fn_bfsNode n), name]"
  define md where "md = zero_BlobFsMetadata\<lparr>md_PID := bn_ID (fn_bfsNode n), md_ID := GenerateFsID p, md_Name := name, md_Path := p,
            md_Ino := 0, md_Mode := mode, md_Atime := fst now, md_Mtime := fst now, md_Ctime := fst now, md_Atimensec := snd now,
            md_Mtimensec := snd now, md_Ctimensec := snd now, md_Size := 0, md_Hash := []\<rparr>"
  obtain s1 x where 1: "co_SetFsNode C s (GenerateFsID p) md = (s1, x)" by fastforce
  obtain s2 y where 2: "co_AddFsNodeChild C s1 (bn_ID (fn_bfsNode n)) (GenerateFsID p) = (s2, y)" by fastforce
  have "keyed inv nodes s1" using keyed_set [OF assms(1), of md] 1 by (simp add: md_def)
  moreover from this have "keyed inv nodes s2" using keyed_add_child 2 by blast
  moreover have "s' = s1 \<or> s' = s2"
    using assms(2) 1 2 unfolding new_node_def Let_def p_def [symmetric] md_def
    by (cases x; cases y) (auto simp: case_prod_unfold)
  ultimately show ?thesis by auto
qed

lemma keyed_unlink:
  assumes "\<And>p. valid (GenerateFsID p)" "keyed inv nodes s" "Unlink C n name s = (s', u)"
  shows "keyed inv nodes s'"
proof -
  let ?i = "GenerateFsID (filepath_Join [bn_Path (fn_bfsNode n), name])"
  obtain s1 x where 1: "co_RemoveFsNode C s ?i = (s1, x)" by fastforce
  obtain s2 y where 2: "co_RemoveFsNodeChild C s1 (bn_ID (fn_bfsNode n)) ?i = (s2, y)" by fastforce
  have "keyed inv nodes s1" using keyed_remove [OF assms(2,1) 1] .
  moreover from this have "keyed inv nodes s2" using keyed_remove_child 2 by blast
  moreover have "s' = s1 \<or> s' = s2" using assms(3) 1 2 by (cases x; cases y) (simp_all add: Unlink_def Let_def)
  ultimately show ?thesis by auto
qed

lemma keyed_rmdir:
  assumes "\<And>p. valid (GenerateFsID p)" "keyed inv nodes s" "Rmdir C n name s = (s', u)"
  shows "keyed inv nodes s'"
proof -
  obtain s1 x where 1: "co_GetFsNodeChildren C s (GenerateFsID (filepath_Join [bn_Path (fn_bfsNode n), name])) = (s1, x)" by fastforce
  have k: "keyed inv nodes s1" using keyed_children [OF assms(2) 1] .
  have "s' = s1 \<or> Unlink C n name s1 = (s', u)" using assms(3) 1 by (cases x) (auto simp: Rmdir_def Let_def split: if_splits)
  then show ?thesis using k keyed_unlink [OF assms(1) k] by auto
qed

lemma keyed_rename:
  assumes "keyed inv nodes s" "Rename C n oldName newParent newName s = (s', u)"
  shows "keyed inv nodes s'"
proof -
  let ?new = "filepath_Join [bn_Path (fn_bfsNode n), newName]" and ?old = "GenerateFsID (filepath_Join [bn_Path (fn_bfsNode n), oldName])"
  let ?p = "bn_ID (fn_bfsNode n)"
  obtain s1 x where 1: "co_GetFsNode C s ?old = (s1, x)" by fastforce
  have k1: "keyed inv nodes s1" using keyed_get [OF assms(1) 1] .
  show ?thesis
  proof (cases x)
    case (Ok md)
    obtain s2 y where 2: "co_SetFsNode C s1 (GenerateFsID ?new) (md\<lparr>md_Name := newName, md_Path := ?new\<rparr>) = (s2, y)" by fastforce
    obtain s3 z where 3: "co_RemoveFsNodeChild C s2 ?p ?old = (s3, z)" by fastforce
    obtain s4 v where 4: "co_AddFsNodeChild C s3 ?p (GenerateFsID ?new) = (s4, v)" by fastforce
    have k2: "keyed inv nodes s2" using keyed_set [OF k1, of "md\<lparr>md_Name := newName, md_Path := ?new\<rparr>"] 2 by simp
    have k3: "keyed inv nodes s3" using keyed_remove_child [OF k2 3] .
    have k4: "keyed inv nodes s4" using keyed_add_child [OF k3 4] .
    have "s' \<in> {s2, s3, s4}" using assms(2) 1 2 3 4 Ok by (cases y; cases z; cases v) (simp_all add: Rename_def Let_def)
    then show ?thesis using k2 k3 k4 by auto
  qed (use assms(2) 1 k1 in \<open>auto simp: Rename_def Let_def\<close>)
qed

lemma keyed_mount:
  assumes "keyed inv nodes s" "NewFileSystem C s = (s', y)"
  shows "keyed inv nodes s'"
proof -
  have r: "md_Path root_meta = ''/''" by (simp add: root_meta_def)
  obtain s1 x where 1: "co_GetFsNode C s (GenerateFsID ''/'') = (s1, x)" by fastforce
  obtain s2 z where 2: "co_SetFsNode C s1 (GenerateFsID ''/'') root_meta = (s2, z)" by fastforce
  have k1: "keyed inv nodes s1" using keyed_get [OF assms(1) 1] .
  have k2: "keyed inv nodes s2" using keyed_set [OF k1, of root_meta] 2 r by simp
  have "s' = s1 \<or> s' = s2" using assms(2) 1 2 by (cases x; cases z) (auto simp: NewFileSystem_def)
  then show ?thesis using k1 k2 by auto
qed

text \<open>One part of a stored path: its node is written under the digest of its path.\<close>

lemma keyed_store_parts:
  assumes "en_C E = C"
  shows "keyed inv nodes s \<Longrightarrow> store_parts E f path hash sz i parts cur pid s = (s', x) \<Longrightarrow> keyed inv nodes s'"
proof (induction parts arbitrary: i cur pid s)
  case (Cons part parts)
  show ?case
  proof (cases "i = 0 \<and> part = []")
    case True
    then show ?thesis using Cons by simp
  next
    case False
    define q where "q = (if cur = ''/'' then filepath_Join [''/'', part] else filepath_Join [cur, part])"
    obtain sec nsec where now: "en_now E i = (sec, nsec)" by fastforce
    define md0 where "md0 = zero_BlobFsMetadata\<lparr>md_PID := pid, md_ID := GenerateFsID q, md_Name := part, md_Path := q,
      md_Ino := be_u64 (take 8 (sha256 (string_bytes q))), md_Mode := dir_mode, md_Atime := sec, md_Mtime := sec,
      md_Ctime := sec, md_Atimensec := nsec, md_Mtimensec := nsec, md_Ctimensec := nsec\<rparr>"
    define r where "r = (if q = path then file_node E f q hash sz md0 else Ok md0)"
    have unf: "store_parts E f path hash sz i (part # parts) cur pid s =
      (case r of Err e \<Rightarrow> (s, Err e) | Panic \<Rightarrow> (s, Panic)
       | Ok md \<Rightarrow> (case co_SetFsNode C s (GenerateFsID q) md of
           (s1, Err e) \<Rightarrow> (s1, Err e) | (s1, Panic) \<Rightarrow> (s1, Panic)
         | (s1, Ok _) \<Rightarrow> (case co_AddFsNodeChild C s1 pid (GenerateFsID q) of
             (s2, Err e) \<Rightarrow> (s2, Err e) | (s2, Panic) \<Rightarrow> (s2, Panic)
           | (s2, Ok _) \<Rightarrow> store_parts E f path hash sz (Suc i) parts q (GenerateFsID q) s2)))"
      unfolding store_parts.simps if_not_P [OF False] q_def [symmetric] Let_def FsID_inode now prod.case res.case md0_def [symmetric]
        r_def [symmetric] assms by (rule refl)
    show ?thesis
    proof (cases r)
      case (Ok md)
      have p: "md_Path md = q" using Ok file_node_fields(4) [of E f q hash sz md0 md] by (auto simp: r_def md0_def split: if_splits)
      obtain s1 y where 1: "co_SetFsNode C s (GenerateFsID q) md = (s1, y)" by fastforce
      obtain s2 z where 2: "co_AddFsNodeChild C s1 pid (GenerateFsID q) = (s2, z)" by fastforce
      have k1: "keyed inv nodes s1" using keyed_set [OF Cons.prems(1), of md] 1 p by simp
      have k2: "keyed inv nodes s2" using keyed_add_child [OF k1 2] .
      have "s' = s1 \<or> s' = s2 \<or> store_parts E f path hash sz (Suc i) parts q (GenerateFsID q) s2 = (s', x)"
        using Cons.prems(2) unfolding unf by (cases y; cases z) (simp_all add: Ok 1 2)
      then show ?thesis using k1 k2 Cons.IH [OF k2] by auto
    qed (use Cons.prems unf in auto)
  qed
qed simp

lemma keyed_step:
  assumes "en_C E = C" "\<And>p. valid (GenerateFsID p)" "keyed inv nodes s" "tree_step E s s'"
  shows "keyed inv nodes s'"
  using assms(4)
proof cases
  case (stores f path hash sz x)
  then show ?thesis using keyed_store_parts [OF assms(1,3)] by (simp add: StoreContentInBlobFs_def Let_def)
next
  case (looks_up i z)
  obtain s1 y where "co_GetFsNode C s i = (s1, y)" by fastforce
  then show ?thesis using looks_up keyed_get [OF assms(3), of i s1 y] by (cases y) (auto simp: inodeFromFsId_def assms(1))
next
  case (lists n v)
  obtain s1 y where "co_GetFsNodeChildren C s (GenerateFsID (bn_Path (fn_bfsNode n))) = (s1, y)" by fastforce
  then show ?thesis using lists keyed_children [OF assms(3)] by (cases y) (auto simp: Readdir_def assms(1))
next
  case (mounts y)
  then show ?thesis using keyed_mount [OF assms(3)] by (simp add: assms(1))
next
  case (creates now n name mode z)
  then show ?thesis using keyed_new_node [OF assms(3)] by (simp add: assms(1) Create_def)
next
  case (makes now n name mode z)
  then show ?thesis using keyed_new_node [OF assms(3)] by (simp add: assms(1) Mkdir_def)
next
  case (unlinks n name u)
  then show ?thesis using keyed_unlink [OF assms(2,3)] by (simp add: assms(1))
next
  case (removes n name u)
  then show ?thesis using keyed_rmdir [OF assms(2,3)] by (simp add: assms(1))
next
  case (renames n oldName newParent newName u)
  then show ?thesis using keyed_rename [OF assms(3)] by (simp add: assms(1))
qed

lemma keyed_run:
  assumes "(tree_step E)\<^sup>*\<^sup>* s s'" "en_C E = C" "\<And>p. valid (GenerateFsID p)" "keyed inv nodes s"
  shows "keyed inv nodes s'"
  using assms(1) by (induction rule: rtranclp_induct) (fact assms(4), rule keyed_step [OF assms(2,3)])

end

subsection \<open>The tree in Redis\<close>

text \<open>
  C5: The tree is well typed. However servers store paths and clients change the file system, over a network that loses messages, and
  also when operations fail half-way: if the tree in Redis was well keyed, it stays so. Every node is found under the digest
  of the path it carries, and every key is a string of 64 characters from which the inode number can be computed.
\<close>

theorem tree_well_typed:
  assumes "redis_contract D vw" "en_C E = remote_coordinator f32 cfg (local_coordinator D cd)"
    and "well_keyed (local_nodes cd vw (nt_server s))" "(tree_step E)\<^sup>*\<^sup>* s s'"
  shows "\<forall>i md. local_nodes cd vw (nt_server s') i = Some md \<longrightarrow>
    i = GenerateFsID (md_Path md) \<and> length i = 64 \<and> (\<exists>ino. SHA1StringToUint64 i = Ok ino)"
proof -
  have "keyed (\<lambda>n. local_inv D vw (nt_server n)) (\<lambda>n. local_nodes cd vw (nt_server n)) s"
    using assms(1,3) by (simp add: keyed_def local_inv_def)
  from remote_local.keyed_run [OF assms(4,2) FsID_proper this] have "well_keyed (local_nodes cd vw (nt_server s'))"
    by (simp add: keyed_def)
  then have "i = GenerateFsID (md_Path md)" if "local_nodes cd vw (nt_server s') i = Some md" for i md
    using that unfolding well_keyed_def by blast
  then show ?thesis using FsID_inode FsID_length by metis
qed

theorem tree_well_typed_witness:
  "\<exists>st' md. StoreContentInBlobFs remote_env one_file remote_start ''/a'' ''h'' 6 = (st', Ok ()) \<and>
     local_nodes ref_codec ref_view (nt_server st') (GenerateFsID ''/a'') = Some md \<and> GenerateFsID ''/a'' = GenerateFsID (md_Path md)"
proof -
  obtain st' where st': "StoreContentInBlobFs remote_env one_file remote_start ''/a'' ''h'' 6 = (st', Ok ())" using remote_stored by blast
  have es: "[''a''] = path_elems (filepath_Clean ''/a'')" "abs_path [''a''] = ''/a''" by code_simp+
  have E: "en_C remote_env = remote_coordinator (\<lambda>q. q) default_ServerConfig (local_coordinator ref_redis ref_codec)"
    by (simp add: remote_env_def)
  have inv: "local_inv ref_redis ref_view (nt_server remote_start)" using ref_redis_contract by (simp add: local_inv_def)
  have "ids_differ [''a'']" by (simp add: ids_differ_def)
  then have "walkable (local_nodes ref_codec ref_view (nt_server st')) (local_kids ref_view (nt_server st')) [''a''] 1"
    using remote_local.store_in_blobfs [OF E inv, of "''/a''", folded es(1), OF _ _ st'] by simp
  then obtain md where md: "local_nodes ref_codec ref_view (nt_server st') (GenerateFsID ''/a'') = Some md"
    by (auto simp: walkable_def node_on_path_def path_id_def es(2))
  have "well_keyed (local_nodes ref_codec ref_view (nt_server remote_start))" by (simp add: well_keyed_def sample_empty)
  moreover have "(tree_step remote_env)\<^sup>*\<^sup>* remote_start st'" using tree_step.stores [OF st'] by (rule r_into_rtranclp)
  ultimately show ?thesis using tree_well_typed [OF ref_redis_contract E] st' md by blast
qed

end
