(* ===== verification/Pubsub.thy ===== *)
theory Pubsub
  imports Redis_Client "HOL-Library.Sublist"
begin

text \<open>
  Publishing and subscribing in \<^verbatim>\<open>src/pkg/redis.go\<close>: which commands are used, and the goroutines of \<^verbatim>\<open>PSubscribe\<close>, that
  announce their subscription on a channel with room for one announcement and then forward messages over an unbuffered channel.
\<close>

subsection \<open>Commands\<close>

datatype pubsub_command = PUBLISH string | SPUBLISH string | SUBSCRIBE "string list" | SSUBSCRIBE "string list" | PSUBSCRIBE "string list"

definition Publish :: "'o redis_client \<Rightarrow> string \<Rightarrow> pubsub_command" where
  "Publish r channel = (if is_cluster_client r then SPUBLISH channel else PUBLISH channel)"

definition Subscribe_command :: "'o redis_client \<Rightarrow> string list \<Rightarrow> pubsub_command" where
  "Subscribe_command r channels = (if is_cluster_client r then SSUBSCRIBE channels else SUBSCRIBE channels)"

text \<open>One subscription on a single client, one for each of the masters of a cluster.\<close>

definition PSubscribe_commands :: "'o redis_client \<Rightarrow> nat \<Rightarrow> string list \<Rightarrow> pubsub_command list" where
  "PSubscribe_commands r masters channels = replicate (if is_cluster_client r then masters else 1) (PSUBSCRIBE channels)"

text \<open>Which publications Redis passes on to which subscriptions; \<open>match\<close> is the matching of glob patterns.\<close>

fun passes_on :: "(string \<Rightarrow> string \<Rightarrow> bool) \<Rightarrow> pubsub_command \<Rightarrow> pubsub_command \<Rightarrow> bool" where
  "passes_on match (PUBLISH c) (SUBSCRIBE cs) = (c \<in> set cs)"
| "passes_on match (PUBLISH c) (PSUBSCRIBE ps) = list_ex (\<lambda>p. match p c) ps"
| "passes_on match (SPUBLISH c) (SSUBSCRIBE cs) = (c \<in> set cs)"
| "passes_on match _ _ = False"

lemma subscribe_gets_published: "c \<in> set cs \<Longrightarrow> passes_on match (Publish r c) (Subscribe_command r cs)"
  by (simp add: Publish_def Subscribe_command_def)

lemma pattern_misses_cluster: "is_cluster_client r \<Longrightarrow> cmd \<in> set (PSubscribe_commands r n ps) \<Longrightarrow> \<not> passes_on match (Publish r c) cmd"
  by (auto simp: Publish_def PSubscribe_commands_def)

subsection \<open>The goroutines\<close>

text \<open>
  A run of \<^verbatim>\<open>handleChannelSubs\<close> for each subscription: it announces itself, waits for messages, hands a message over, reports that
  its channel was closed, or has ended. \<open>su_inbox\<close> is what its channel still delivers before it is closed.
\<close>

datatype sub_phase = Announcing | Receiving | Sending string | Reporting | Finished

record sub_state =
  su_phase :: "nat \<Rightarrow> sub_phase"
  su_inbox :: "nat \<Rightarrow> string list"
  su_onSubscribe :: nat
  su_returned :: bool
  su_closed :: bool
  su_panicked :: bool
  su_out :: "(nat \<times> string) list"
  su_errs :: "goerr list"

definition sub_init :: "(nat \<Rightarrow> string list) \<Rightarrow> sub_state" where
  "sub_init inboxes = \<lparr>su_phase = (\<lambda>_. Announcing), su_inbox = inboxes, su_onSubscribe = 0, su_returned = False, su_closed = False,
     su_panicked = False, su_out = [], su_errs = []\<rparr>"

definition ErrChannelClosed :: goerr where "ErrChannelClosed = ErrMsg ''redis: channel closed''"

text \<open>
  The steps with \<open>n\<close> subscriptions. \<open>announces\<close> needs room in the channel \<^verbatim>\<open>onSubscribe\<close>, which holds one value; \<open>returns\<close> is the one receive from it in
  \<^verbatim>\<open>PSubscribe\<close>, after which the caller may read messages and errors, and close the channels.
\<close>

inductive sub_step :: "nat \<Rightarrow> sub_state \<Rightarrow> sub_state \<Rightarrow> bool" for n where
  announces: "i < n \<Longrightarrow> su_phase s i = Announcing \<Longrightarrow> su_onSubscribe s < 1 \<Longrightarrow>
    sub_step n s (s\<lparr>su_phase := (su_phase s)(i := Receiving), su_onSubscribe := su_onSubscribe s + 1\<rparr>)"
| returns: "\<not> su_returned s \<Longrightarrow> 0 < su_onSubscribe s \<Longrightarrow> sub_step n s (s\<lparr>su_returned := True, su_onSubscribe := su_onSubscribe s - 1\<rparr>)"
| receives: "i < n \<Longrightarrow> su_phase s i = Receiving \<Longrightarrow> su_inbox s i = m # ms \<Longrightarrow>
    sub_step n s (s\<lparr>su_phase := (su_phase s)(i := Sending m), su_inbox := (su_inbox s)(i := ms)\<rparr>)"
| ends: "i < n \<Longrightarrow> su_phase s i = Receiving \<Longrightarrow> su_inbox s i = [] \<Longrightarrow> sub_step n s (s\<lparr>su_phase := (su_phase s)(i := Reporting)\<rparr>)"
| cancelled: "i < n \<Longrightarrow> su_phase s i = Receiving \<Longrightarrow> sub_step n s (s\<lparr>su_phase := (su_phase s)(i := Finished)\<rparr>)"
| delivers: "i < n \<Longrightarrow> su_phase s i = Sending m \<Longrightarrow> su_returned s \<Longrightarrow> \<not> su_closed s \<Longrightarrow>
    sub_step n s (s\<lparr>su_phase := (su_phase s)(i := Receiving), su_out := su_out s @ [(i, m)]\<rparr>)"
| reports: "i < n \<Longrightarrow> su_phase s i = Reporting \<Longrightarrow> su_returned s \<Longrightarrow> \<not> su_closed s \<Longrightarrow>
    sub_step n s (s\<lparr>su_phase := (su_phase s)(i := Finished), su_errs := su_errs s @ [ErrChannelClosed]\<rparr>)"
| closes: "su_returned s \<Longrightarrow> \<not> su_closed s \<Longrightarrow> sub_step n s (s\<lparr>su_closed := True\<rparr>)"
| panics: "i < n \<Longrightarrow> su_phase s i = Sending m \<or> su_phase s i = Reporting \<Longrightarrow> su_closed s \<Longrightarrow> sub_step n s (s\<lparr>su_panicked := True\<rparr>)"

inductive_cases sub_stepE: "sub_step n s s'"

definition from_master :: "nat \<Rightarrow> (nat \<times> string) list \<Rightarrow> string list" where
  "from_master i out = map snd (filter (\<lambda>x. fst x = i) out)"

lemma from_master_simps [simp]:
  "from_master i [] = []" "from_master i (out @ [(j, m)]) = (if j = i then from_master i out @ [m] else from_master i out)"
  by (simp_all add: from_master_def)

definition in_hand :: "sub_phase \<Rightarrow> string list" where
  "in_hand p = (case p of Sending m \<Rightarrow> [m] | _ \<Rightarrow> [])"

definition speaking :: "nat \<Rightarrow> sub_state \<Rightarrow> nat set" where
  "speaking n s = {i. i < n \<and> su_phase s i \<noteq> Announcing}"

text \<open>
  Every announcement was received by \<^verbatim>\<open>PSubscribe\<close> or lies in the channel; what was handed over, what is in hand and what is still to come are
  the messages of the subscription in order.
\<close>

definition sub_inv :: "nat \<Rightarrow> (nat \<Rightarrow> string list) \<Rightarrow> sub_state \<Rightarrow> bool" where
  "sub_inv n inboxes s \<longleftrightarrow>
     card (speaking n s) = su_onSubscribe s + (if su_returned s then 1 else 0) \<and> su_onSubscribe s \<le> 1 \<and>
     (\<forall>i. from_master i (su_out s) @ in_hand (su_phase s i) @ su_inbox s i = inboxes i) \<and>
     (\<forall>i. su_phase s i = Announcing \<longrightarrow> from_master i (su_out s) = [])"

lemma sub_inv_init: "sub_inv n inboxes (sub_init inboxes)"
  by (simp add: sub_inv_def sub_init_def speaking_def in_hand_def)

lemma sub_inv_step:
  assumes "sub_step n s s'" "sub_inv n inboxes s"
  shows "sub_inv n inboxes s'"
proof -
  have parts: "from_master i (su_out s) @ in_hand (su_phase s i) @ su_inbox s i = inboxes i" for i using assms(2) by (simp add: sub_inv_def)
  from assms(1) show ?thesis
  proof cases
    case (announces i)
    have "speaking n s' = insert i (speaking n s)" "i \<notin> speaking n s" using announces by (auto simp: speaking_def)
    moreover have "finite (speaking n s)" by (simp add: speaking_def)
    ultimately show ?thesis using assms(2) announces parts [of i] by (auto simp: sub_inv_def in_hand_def)
  next
    case returns
    then have "speaking n s' = speaking n s" by (simp add: speaking_def)
    then show ?thesis using assms(2) returns by (auto simp: sub_inv_def)
  next
    case (receives i m ms)
    then have "speaking n s' = speaking n s" by (auto simp: speaking_def)
    then show ?thesis using assms(2) receives parts [of i] by (auto simp: sub_inv_def in_hand_def)
  next
    case (ends i)
    then have "speaking n s' = speaking n s" by (auto simp: speaking_def)
    then show ?thesis using assms(2) ends parts [of i] by (auto simp: sub_inv_def in_hand_def)
  next
    case (cancelled i)
    then have "speaking n s' = speaking n s" by (auto simp: speaking_def)
    then show ?thesis using assms(2) cancelled parts [of i] by (auto simp: sub_inv_def in_hand_def)
  next
    case (delivers i m)
    then have "speaking n s' = speaking n s" by (auto simp: speaking_def)
    then show ?thesis using assms(2) delivers parts [of i] by (auto simp: sub_inv_def in_hand_def)
  next
    case (reports i)
    then have "speaking n s' = speaking n s" by (auto simp: speaking_def)
    then show ?thesis using assms(2) reports parts [of i] by (auto simp: sub_inv_def in_hand_def)
  next
    case closes
    then show ?thesis using assms(2) by (simp add: sub_inv_def speaking_def)
  next
    case (panics i m)
    then show ?thesis using assms(2) by (simp add: sub_inv_def speaking_def)
  qed
qed

lemma sub_inv_run: "(sub_step n)\<^sup>*\<^sup>* (sub_init inboxes) s \<Longrightarrow> sub_inv n inboxes s"
  by (induction rule: rtranclp_induct) (auto intro: sub_inv_init sub_inv_step)

text \<open>
  C40: With a subscription on each of \<open>n\<close> masters, the messages of each master are handed over in their order and none is invented; but in no
  state have more than two masters got past announcing their subscription, and of a master that has not, nothing is ever handed over. So on
  a cluster of three or more masters all messages of all but two of them are lost to the caller.
\<close>

theorem psubscribe_two_masters:
  assumes "(sub_step n)\<^sup>*\<^sup>* (sub_init inboxes) s"
  shows "card {i. i < n \<and> su_phase s i \<noteq> Announcing} \<le> 2 \<and> n \<le> 2 + card {i. i < n \<and> from_master i (su_out s) = []} \<and>
    (\<forall>i. prefix (from_master i (su_out s)) (inboxes i))"
proof -
  note inv = sub_inv_run [OF assms]
  have two: "card (speaking n s) \<le> 2" using inv by (auto simp: sub_inv_def split: if_splits)
  have "from_master i (su_out s) = []" if "su_phase s i = Announcing" for i using inv that by (simp add: sub_inv_def)
  then have sub: "{..<n} - speaking n s \<subseteq> {i. i < n \<and> from_master i (su_out s) = []}" by (auto simp: speaking_def)
  have fin: "finite (speaking n s)" "speaking n s \<subseteq> {..<n}" by (auto simp: speaking_def)
  have "n - 2 \<le> card ({..<n} - speaking n s)" using two card_Diff_subset [OF fin] by simp
  also have "\<dots> \<le> card {i. i < n \<and> from_master i (su_out s) = []}" by (rule card_mono [OF _ sub]) simp
  finally have "n \<le> 2 + card {i. i < n \<and> from_master i (su_out s) = []}" by linarith
  moreover have "\<forall>i. prefix (from_master i (su_out s)) (inboxes i)" using inv by (metis prefixI sub_inv_def)
  ultimately show ?thesis using two by (simp add: speaking_def)
qed

theorem psubscribe_two_masters_witness:
  "\<exists>s. (sub_step 3)\<^sup>*\<^sup>* (sub_init (\<lambda>i. [''m''])) s \<and> su_out s = [(0, ''m'')] \<and> card {i. i < 3 \<and> su_phase s i \<noteq> Announcing} \<le> 2"
proof -
  let ?s0 = "sub_init (\<lambda>i. [''m''])"
  have 1: "sub_step 3 ?s0 (?s0\<lparr>su_phase := (su_phase ?s0)(0 := Receiving), su_onSubscribe := su_onSubscribe ?s0 + 1\<rparr>)" (is "sub_step 3 _ ?s1")
    by (rule announces) (simp_all add: sub_init_def)
  have 2: "sub_step 3 ?s1 (?s1\<lparr>su_returned := True, su_onSubscribe := su_onSubscribe ?s1 - 1\<rparr>)" (is "sub_step 3 _ ?s2")
    by (rule returns) (simp_all add: sub_init_def)
  have 3: "sub_step 3 ?s2 (?s2\<lparr>su_phase := (su_phase ?s2)(0 := Sending ''m''), su_inbox := (su_inbox ?s2)(0 := [])\<rparr>)" (is "sub_step 3 _ ?s3")
    by (rule receives) (simp_all add: sub_init_def)
  have 4: "sub_step 3 ?s3 (?s3\<lparr>su_phase := (su_phase ?s3)(0 := Receiving), su_out := su_out ?s3 @ [(0, ''m'')]\<rparr>)" (is "sub_step 3 _ ?s4")
    by (rule delivers) (simp_all add: sub_init_def)
  have run: "(sub_step 3)\<^sup>*\<^sup>* ?s0 ?s4" using 1 2 3 4 by (meson rtranclp.intros)
  moreover have "su_out ?s4 = [(0, ''m'')]" by (simp add: sub_init_def)
  ultimately show ?thesis using psubscribe_two_masters [OF run] by blast
qed

text \<open>After the caller has closed the channels, the next message panics.\<close>

lemma message_after_close_panics:
  assumes "i < n" "su_phase s i = Receiving" "su_inbox s i = m # ms" "su_closed s"
  shows "\<exists>s'. (sub_step n)\<^sup>*\<^sup>* s s' \<and> su_panicked s'"
proof -
  let ?s1 = "s\<lparr>su_phase := (su_phase s)(i := Sending m), su_inbox := (su_inbox s)(i := ms)\<rparr>"
  have "sub_step n s ?s1" using receives [OF assms(1-3)] .
  moreover have "sub_step n ?s1 (?s1\<lparr>su_panicked := True\<rparr>)" by (rule panics [OF assms(1), where m = m]) (use assms(4) in simp_all)
  ultimately have "(sub_step n)\<^sup>*\<^sup>* s (?s1\<lparr>su_panicked := True\<rparr>)" by (meson rtranclp.intros)
  then show ?thesis by (metis select_convs(6) surjective update_convs(6))
qed

end
