(* ===== verification/Sources.thy ===== *)
theory Sources
  imports Go_Os Blob_Types
begin

text \<open>
  The sources of \<^verbatim>\<open>src/pkg/source.go\<close>, \<^verbatim>\<open>src/pkg/source_juicefs.go\<close> and \<^verbatim>\<open>src/pkg/source_mountpoint.go\<close>: the commands that are run to format,
  mount and unmount a file system, and the wait for the mount. The commands themselves are programs of the operating system; what they
  do is a parameter. A fatal log message ends the process and is modelled as a panic.
\<close>

subsection \<open>Commands\<close>

text \<open>A command is its argument list and its environment, which is inherited when it is not set.\<close>

record command =
  cm_Args :: "string list"
  cm_Env :: "string list option"

definition exec_Command :: "string list \<Rightarrow> command" where
  "exec_Command args = \<lparr>cm_Args = args, cm_Env = None\<rparr>"

text \<open>\<^verbatim>\<open>append(cmd.Env, ...)\<close> starts from the empty list when the environment was not set.\<close>

definition append_env :: "string list \<Rightarrow> command \<Rightarrow> command" where
  "append_env vars cmd = cmd\<lparr>cm_Env := Some ((case cm_Env cmd of None \<Rightarrow> [] | Some e \<Rightarrow> e) @ vars)\<rparr>"

definition append_args :: "string list \<Rightarrow> command \<Rightarrow> command" where
  "append_args args cmd = cmd\<lparr>cm_Args := cm_Args cmd @ args\<rparr>"

subsection \<open>JuiceFS\<close>

definition juiceFsMountTimeout :: int where "juiceFsMountTimeout = 30 * 1000000000"

text \<open>A number in an option, with the default for numbers that are not positive.\<close>

definition or_default :: "int \<Rightarrow> string \<Rightarrow> string" where
  "or_default n d = (if n \<le> 0 then d else itoa n)"

definition juicefs_mount_command :: "JuiceFSConfig \<Rightarrow> string \<Rightarrow> command" where
  "juicefs_mount_command cfg localPath =
     (let cacheSize = itoa (jf_CacheSize cfg);
          prefetch = or_default (jf_Prefetch cfg) ''1'';
          bufferSize = or_default (jf_BufferSize cfg) ''300''
      in exec_Command [''juicefs'', ''mount'', jf_RedisURI cfg, localPath, ''-d'', ''--bucket'', jf_Bucket cfg, ''--cache-size'', cacheSize,
           ''--prefetch'', prefetch, ''--buffer-size'', bufferSize, ''--no-bgjob'', ''--no-usage-report''])"

definition juicefs_format_command :: "JuiceFSConfig \<Rightarrow> string \<Rightarrow> command" where
  "juicefs_format_command cfg fsName =
     (let blockSize = or_default (jf_BlockSize cfg) ''4096'';
          cmd = exec_Command [''juicefs'', ''format'', ''--storage'', ''s3'', ''--bucket'', jf_Bucket cfg, ''--block-size'', blockSize,
            jf_RedisURI cfg, fsName, ''--no-update'']
      in if jf_AccessKey cfg \<noteq> [] \<or> jf_SecretKey cfg \<noteq> []
         then append_args [''--access-key'', jf_AccessKey cfg, ''--secret-key'', jf_SecretKey cfg] cmd else cmd)"

definition juicefs_umount_command :: "string \<Rightarrow> command" where
  "juicefs_umount_command localPath = exec_Command [''juicefs'', ''umount'', ''--force'', localPath]"

text \<open>The mount point is up when the inode of its root is the one of a mounted file system.\<close>

definition isMounted :: "(string \<Rightarrow> u64 option) \<Rightarrow> string \<Rightarrow> bool" where
  "isMounted stat mountPoint = (case stat mountPoint of None \<Rightarrow> False | Some ino \<Rightarrow> ino = 1)"

text \<open>
  What the waiting goroutine sees in its rounds: the timeout, a tick with the inodes of that moment, or the end of the process because the
  mount command in the background has failed.
\<close>

datatype mount_event = TimedOut | Tick "string \<Rightarrow> u64 option" | MountFailed

partial_function (option) wait_mounted :: "(nat \<Rightarrow> mount_event) \<Rightarrow> string \<Rightarrow> nat \<Rightarrow> bool res option" where
  "wait_mounted events localPath k =
     (case events k of
        TimedOut \<Rightarrow> Some (Ok False)
      | MountFailed \<Rightarrow> Some Panic
      | Tick stat \<Rightarrow> if isMounted stat localPath then Some (Ok True) else wait_mounted events localPath (Suc k))"

text \<open>The commands run, in order, and the result.\<close>

definition juicefs_Mount :: "(nat \<Rightarrow> mount_event) \<Rightarrow> JuiceFSConfig \<Rightarrow> string \<Rightarrow> (command list \<times> unit res) option" where
  "juicefs_Mount events cfg localPath =
     map_option (\<lambda>r. ([juicefs_mount_command cfg localPath],
         case r of Ok True \<Rightarrow> Ok () | Ok False \<Rightarrow> Err (ErrMsg ''failed to mount JuiceFS filesystem'') | Err e \<Rightarrow> Err e | Panic \<Rightarrow> Panic))
       (wait_mounted events localPath 0)"

definition juicefs_Format :: "(command \<Rightarrow> bool) \<Rightarrow> JuiceFSConfig \<Rightarrow> string \<Rightarrow> command list \<times> unit res" where
  "juicefs_Format run cfg fsName =
     (let cmd = juicefs_format_command cfg fsName
      in ([cmd], if run cmd then Ok () else Err (ErrMsg ''error executing juicefs format'')))"

definition juicefs_Unmount :: "(command \<Rightarrow> bool) \<Rightarrow> string \<Rightarrow> command list \<times> unit res" where
  "juicefs_Unmount run localPath =
     (let cmd = juicefs_umount_command localPath
      in ([cmd], if run cmd then Ok () else Err (ErrMsg ''error executing juicefs umount'')))"

subsection \<open>Mountpoint\<close>

definition mountpoint_command :: "MountPointConfig \<Rightarrow> string \<Rightarrow> command" where
  "mountpoint_command cfg localPath =
     (let cmd = exec_Command [''mount-s3'', mp_BucketName cfg, localPath, ''--region'', mp_Region cfg, ''--endpoint-url'', mp_EndpointURL cfg,
            ''--read-only''];
          cmd = (if mp_ForcePathStyle cfg then append_args [''--force-path-style''] cmd else cmd)
      in if mp_AccessKey cfg \<noteq> [] \<or> mp_SecretKey cfg \<noteq> []
         then append_env [''AWS_ACCESS_KEY_ID='' @ mp_AccessKey cfg, ''AWS_SECRET_ACCESS_KEY='' @ mp_SecretKey cfg] cmd else cmd)"

definition mountpoint_Unmount :: "(command \<Rightarrow> bool) \<Rightarrow> string \<Rightarrow> command list \<times> unit res" where
  "mountpoint_Unmount run localPath =
     (let cmd = exec_Command [''umount'', localPath]
      in ([cmd], if run cmd then Ok () else Err (ErrMsg ''error executing mount-s3 umount'')))"

text \<open>The mount command is started in the background; nothing waits for it.\<close>

definition mountpoint_Mount :: "(command \<Rightarrow> bool) \<Rightarrow> MountPointConfig \<Rightarrow> fs \<Rightarrow> string \<Rightarrow> fs \<times> command list \<times> unit res" where
  "mountpoint_Mount run cfg f localPath =
     (let (cmds, _) = mountpoint_Unmount run localPath;
          (f1, _) = os_MkdirAll f localPath
      in (f1, cmds @ [mountpoint_command cfg localPath], Ok ()))"

definition mountpoint_Format :: "string \<Rightarrow> unit res" where
  "mountpoint_Format fsName = Ok ()"

subsection \<open>Choosing a source\<close>

definition NewSource :: "(command \<Rightarrow> bool) \<Rightarrow> (nat \<Rightarrow> mount_event) \<Rightarrow> fs \<Rightarrow> SourceConfig \<Rightarrow> (fs \<times> command list \<times> unit res) option" where
  "NewSource run events f config =
     (if so_Mode config = SourceModeJuiceFS then
        (case juicefs_Format run (so_JuiceFS config) (so_FilesystemName config) of
           (cmds, Ok _) \<Rightarrow>
             (case juicefs_Mount events (so_JuiceFS config) (so_FilesystemPath config) of
                None \<Rightarrow> None
              | Some (cmds2, r) \<Rightarrow> Some (f, cmds @ cmds2, case r of Ok _ \<Rightarrow> Ok () | _ \<Rightarrow> Panic))
         | (cmds, _) \<Rightarrow> Some (f, cmds, Panic))
      else if so_Mode config = SourceModeMountPoint then
        (case mountpoint_Mount run (so_MountPoint config) f (so_FilesystemPath config) of
           (f1, cmds, r) \<Rightarrow> Some (f1, cmds, case r of Ok _ \<Rightarrow> Ok () | _ \<Rightarrow> Panic))
      else Some (f, [], Err (ErrMsg ''invalid storage mode'')))"

subsection \<open>Waiting for the mount\<close>

text \<open>A round that ends the wait, and what it makes of it.\<close>

definition decides :: "string \<Rightarrow> mount_event \<Rightarrow> bool res option" where
  "decides localPath ev =
     (case ev of TimedOut \<Rightarrow> Some (Ok False) | MountFailed \<Rightarrow> Some Panic
      | Tick stat \<Rightarrow> if isMounted stat localPath then Some (Ok True) else None)"

lemma wait_unfold:
  "wait_mounted events localPath k =
     (case decides localPath (events k) of Some r \<Rightarrow> Some r | None \<Rightarrow> wait_mounted events localPath (Suc k))"
  by (subst wait_mounted.simps) (simp add: decides_def split: mount_event.splits)

lemma wait_first:
  assumes "decides localPath (events (k + n)) = Some r" "\<And>j. j < n \<Longrightarrow> decides localPath (events (k + j)) = None"
  shows "wait_mounted events localPath k = Some r"
  using assms
proof (induction n arbitrary: k)
  case 0
  then show ?case by (subst wait_unfold) simp
next
  case (Suc n)
  have "wait_mounted events localPath (Suc k) = Some r"
    using Suc.IH [of "Suc k"] Suc.prems(1) Suc.prems(2) [of "Suc _"] by simp
  then show ?case using Suc.prems(2) [of 0] by (subst wait_unfold) simp
qed

text \<open>The first round that decides, if there is one.\<close>

lemma first_decision:
  assumes "decides localPath (events k) \<noteq> None"
  obtains n r where "decides localPath (events n) = Some r" "\<forall>j < n. decides localPath (events j) = None"
    "wait_mounted events localPath 0 = Some r"
proof -
  define n where "n = (LEAST n. decides localPath (events n) \<noteq> None)"
  have "decides localPath (events n) \<noteq> None" unfolding n_def by (rule LeastI [of _ k]) (fact assms)
  moreover have "decides localPath (events j) = None" if "j < n" for j using not_less_Least that unfolding n_def by blast
  ultimately show thesis using that [of n] wait_first [of localPath events 0 n] by auto
qed



end
