(* ===== verification/Logger.thy ===== *)
theory Logger
  imports Go_Prelude
begin

text \<open>
  The logger of \<^verbatim>\<open>src/pkg/logger.go\<close>: its creation, which calls emit an event with which fields, and what calls on a logger that
  was never created do. Writing the event is left to the logging package.
\<close>

subsection \<open>Creation\<close>

datatype log_level = DebugLevel | InfoLevel | WarnLevel | ErrorLevel | FatalLevel

definition level_rank :: "log_level \<Rightarrow> nat" where
  "level_rank l = (case l of DebugLevel \<Rightarrow> 0 | InfoLevel \<Rightarrow> 1 | WarnLevel \<Rightarrow> 2 | ErrorLevel \<Rightarrow> 3 | FatalLevel \<Rightarrow> 4)"

record logger =
  lg_level :: log_level
  lg_console :: bool
  lg_debug :: bool

text \<open>The global \<^verbatim>\<open>Logger\<close> is \<open>None\<close> until the first \<^verbatim>\<open>InitLogger\<close>, and later calls change nothing (\<^verbatim>\<open>once\<close>).\<close>

definition InitLogger :: "bool \<Rightarrow> bool \<Rightarrow> logger option \<Rightarrow> logger option" where
  "InitLogger debugMode prettyLogs l =
     (case l of
        Some _ \<Rightarrow> l
      | None \<Rightarrow> Some \<lparr>lg_level = (if debugMode then DebugLevel else InfoLevel), lg_console = prettyLogs, lg_debug = debugMode\<rparr>)"

definition GetLogger :: "logger option \<Rightarrow> logger res" where
  "GetLogger l = (case l of None \<Rightarrow> Panic | Some lg \<Rightarrow> Ok lg)"

subsection \<open>Events\<close>

text \<open>The values passed as fields: strings, which may be keys, and others.\<close>

datatype any = AString string | AValue string

record log_event =
  le_level :: log_level
  le_fields :: "(string \<times> any) list"
  le_msg :: string

text \<open>The fields in pairs. A key that is no string is skipped with its value, and so is a key without a value.\<close>

fun addFields :: "any list \<Rightarrow> (string \<times> any) list" where
  "addFields (AString key # v # args) = (key, v) # addFields args"
| "addFields (AValue _ # v # args) = addFields args"
| "addFields _ = []"

text \<open>What a call does: an event is emitted or not, and a fatal event ends the process; on a missing logger the call panics.\<close>

datatype log_outcome = Logged "log_event option" | Exits log_event | LogPanic

definition log_emit :: "logger \<Rightarrow> log_level \<Rightarrow> (string \<times> any) list \<Rightarrow> string \<Rightarrow> log_outcome" where
  "log_emit l level args msg =
     (let ev = \<lparr>le_level = level, le_fields = args, le_msg = msg\<rparr>
      in if level = FatalLevel then Exits ev
         else if level_rank (lg_level l) \<le> level_rank level then Logged (Some ev) else Logged None)"

definition log_Debug :: "logger option \<Rightarrow> string \<Rightarrow> any list \<Rightarrow> log_outcome" where
  "log_Debug l msg args =
     (case l of None \<Rightarrow> LogPanic | Some lg \<Rightarrow> if lg_debug lg then log_emit lg DebugLevel (addFields args) msg else Logged None)"

definition log_Debugf :: "logger option \<Rightarrow> string \<Rightarrow> log_outcome" where
  "log_Debugf l msg = (case l of None \<Rightarrow> LogPanic | Some lg \<Rightarrow> if lg_debug lg then log_emit lg DebugLevel [] msg else Logged None)"

definition log_Info :: "logger option \<Rightarrow> string \<Rightarrow> any list \<Rightarrow> log_outcome" where
  "log_Info l msg args = (case l of None \<Rightarrow> LogPanic | Some lg \<Rightarrow> log_emit lg InfoLevel (addFields args) msg)"

definition log_Infof :: "logger option \<Rightarrow> string \<Rightarrow> log_outcome" where
  "log_Infof l msg = (case l of None \<Rightarrow> LogPanic | Some lg \<Rightarrow> log_emit lg InfoLevel [] msg)"

definition log_Warn :: "logger option \<Rightarrow> string \<Rightarrow> any list \<Rightarrow> log_outcome" where
  "log_Warn l msg args = (case l of None \<Rightarrow> LogPanic | Some lg \<Rightarrow> log_emit lg WarnLevel (addFields args) msg)"

definition log_Warnf :: "logger option \<Rightarrow> string \<Rightarrow> log_outcome" where
  "log_Warnf l msg = (case l of None \<Rightarrow> LogPanic | Some lg \<Rightarrow> log_emit lg WarnLevel [] msg)"

definition log_Error :: "logger option \<Rightarrow> string \<Rightarrow> any list \<Rightarrow> log_outcome" where
  "log_Error l msg args = (case l of None \<Rightarrow> LogPanic | Some lg \<Rightarrow> log_emit lg ErrorLevel (addFields args) msg)"

text \<open>The only method that accepts a missing logger.\<close>

definition log_Errorf :: "logger option \<Rightarrow> string \<Rightarrow> log_outcome" where
  "log_Errorf l msg = (case l of None \<Rightarrow> Logged None | Some lg \<Rightarrow> log_emit lg ErrorLevel [] msg)"

definition log_Fatal :: "logger option \<Rightarrow> string \<Rightarrow> any list \<Rightarrow> log_outcome" where
  "log_Fatal l msg args = (case l of None \<Rightarrow> LogPanic | Some lg \<Rightarrow> log_emit lg FatalLevel (addFields args) msg)"

definition log_Fatalf :: "logger option \<Rightarrow> string \<Rightarrow> log_outcome" where
  "log_Fatalf l msg = (case l of None \<Rightarrow> LogPanic | Some lg \<Rightarrow> log_emit lg FatalLevel [] msg)"

subsection \<open>What is logged\<close>

lemmas log_defs = log_Debug_def log_Debugf_def log_Info_def log_Infof_def log_Warn_def log_Warnf_def log_Error_def log_Errorf_def
  log_Fatal_def log_Fatalf_def

text \<open>Once the logger is created no call panics, and only the fatal ones end the process.\<close>

lemma logger_created:
  assumes "l = InitLogger d p l0"
  shows "log_Debug l msg args \<in> range Logged" "log_Debugf l msg \<in> range Logged" "log_Info l msg args \<in> range Logged" "log_Infof l msg \<in> range Logged"
    "log_Warn l msg args \<in> range Logged" "log_Warnf l msg \<in> range Logged" "log_Error l msg args \<in> range Logged" "log_Errorf l msg \<in> range Logged"
    "log_Fatal l msg args \<in> range Exits" "log_Fatalf l msg \<in> range Exits"
  unfolding assms by (auto simp: log_defs log_emit_def InitLogger_def Let_def split: option.splits)

text \<open>A logger that was created shows debug events exactly when the first call asked for them, and never loses any other.\<close>

lemma InitLogger_once: "InitLogger d' p' (InitLogger d p l) = InitLogger d p l"
  by (simp add: InitLogger_def split: option.splits)

lemma InitLogger_debug:
  "log_Debugf (InitLogger d p None) msg = Logged (if d then Some \<lparr>le_level = DebugLevel, le_fields = [], le_msg = msg\<rparr> else None)"
  by (simp add: InitLogger_def log_Debugf_def log_emit_def level_rank_def Let_def)

lemma InitLogger_info:
  "log_Info (InitLogger d p None) msg args = Logged (Some \<lparr>le_level = InfoLevel, le_fields = addFields args, le_msg = msg\<rparr>)"
  by (simp add: InitLogger_def log_Info_def log_emit_def level_rank_def Let_def)

text \<open>Well-formed fields are logged as given.\<close>

lemma addFields_pairs: "addFields (concat (map (\<lambda>(k, v). [AString k, v]) kvs)) = kvs"
  by (induction kvs) auto

lemma addFields_length: "length (addFields args) \<le> length args div 2"
  by (induction args rule: addFields.induct) auto

end
