(* ===== verification/Startup.thy ===== *)
theory Startup
  imports Blob_Fs Sources Logger
begin

text \<open>
  Starting and stopping the processes: the program of \<^verbatim>\<open>src/cmd/main.go\<close>, the listening part of the server, the file system a client mounts,
  the push options of \<^verbatim>\<open>src/pkg/metrics.go\<close> and small helpers of the files they use.
\<close>

subsection \<open>Metrics\<close>

text \<open>Standard base64 (RFC 4648) as \<^verbatim>\<open>encoding/base64\<close> has it: three bytes give four characters, the rest is padded.\<close>

definition base64_char :: "nat \<Rightarrow> char" where
  "base64_char n = ''ABCDEFGHIJKLMNOPQRSTUVWXYZabcdefghijklmnopqrstuvwxyz0123456789+/'' ! n"

fun base64_groups :: "nat list \<Rightarrow> string" where
  "base64_groups (a # b # c # bs) =
     [base64_char (a div 4), base64_char (a mod 4 * 16 + b div 16), base64_char (b mod 16 * 4 + c div 64), base64_char (c mod 64)] @ base64_groups bs"
| "base64_groups [a, b] = [base64_char (a div 4), base64_char (a mod 4 * 16 + b div 16), base64_char (b mod 16 * 4), CHR ''='']"
| "base64_groups [a] = [base64_char (a div 4), base64_char (a mod 4 * 16), CHR ''='', CHR ''='']"
| "base64_groups [] = []"

definition base64_EncodeToString :: "string \<Rightarrow> string" where
  "base64_EncodeToString s = base64_groups (map of_char s)"

record push_options =
  po_URL :: string
  po_Interval :: int
  po_Headers :: "string list"
  po_ExtraLabels :: string
  po_ProcessMetrics :: bool

text \<open>The push is set up only when a URL is configured.\<close>

definition metrics_push :: "BlobCacheMetricsConfig \<Rightarrow> BlobCacheHost \<Rightarrow> string \<Rightarrow> push_options option" where
  "metrics_push config currentHost locality =
     (if mc_URL config \<noteq> [] then
        (let credentials = base64_EncodeToString (mc_Username config @ '':'' @ mc_Password config)
         in Some \<lparr>po_URL = mc_URL config, po_Interval = wrap64 (mc_PushIntervalS config * 1000000000),
              po_Headers = [''Authorization: Basic '' @ credentials],
              po_ExtraLabels = ''host=\"'' @ HostId currentHost @ ''\",locality=\"'' @ locality @ ''\"'', po_ProcessMetrics = True\<rparr>)
      else None)"

text \<open>\<^verbatim>\<open>initMetrics\<close>: only the first call creates the metrics; every caller gets those.\<close>

definition initMetrics :: "BlobCacheMetricsConfig \<Rightarrow> BlobCacheHost \<Rightarrow> string \<Rightarrow> (BlobcacheMetrics \<times> push_options option) option
    \<Rightarrow> BlobcacheMetrics \<times> push_options option" where
  "initMetrics config currentHost locality globalMetrics =
     (case globalMetrics of Some m \<Rightarrow> m | None \<Rightarrow> (createMetrics, metrics_push config currentHost locality))"

subsection \<open>The server process\<close>

text \<open>\<^verbatim>\<open>GetPublicIpAddr\<close>: \<open>body\<close> is the answer of the web service.\<close>

definition GetPublicIpAddr :: "string res \<Rightarrow> string res" where
  "GetPublicIpAddr body = (case body of Ok ip \<Rightarrow> Ok (strings_TrimSpace ip) | Err e \<Rightarrow> Err e | Panic \<Rightarrow> Panic)"

datatype server_event = Listens string | Serves grpc_options | StopsGracefully | ClosesCache

text \<open>\<^verbatim>\<open>StartServer\<close> returns after a termination signal.\<close>

definition StartServer :: "(string \<Rightarrow> bool) \<Rightarrow> int \<Rightarrow> nat \<Rightarrow> ('c, 's, 'k) CacheService \<Rightarrow> server_event list \<times> unit res" where
  "StartServer listen numCPU port s =
     (let addr = '':'' @ show_nat port
      in if \<not> listen addr then ([], Err (ErrMsg ''listen''))
         else ([Listens addr, Serves (StartServer_options numCPU (sv_globalConfig s)), StopsGracefully, ClosesCache], Ok ()))"

text \<open>\<^verbatim>\<open>main\<close>; a fatal message ends the process (\<open>Panic\<close>), and the result of \<^verbatim>\<open>StartServer\<close> is dropped.\<close>

definition program_main :: "'k ConfigManager res \<Rightarrow> ('k \<Rightarrow> string \<Rightarrow> BlobCacheConfig res) \<Rightarrow> (string \<Rightarrow> string)
    \<Rightarrow> (BlobCacheConfig \<Rightarrow> string \<Rightarrow> ('c, 's, 'm) CacheService res) \<Rightarrow> (string \<Rightarrow> bool) \<Rightarrow> int \<Rightarrow> logger option
    \<Rightarrow> logger option \<times> server_event list \<times> unit res" where
  "program_main configManager unmarshal getenv newService listen numCPU l =
     (case configManager of
        Ok cm \<Rightarrow>
          (case GetConfig unmarshal cm of
             Ok cfg \<Rightarrow>
               (let l1 = InitLogger (gc_DebugMode (cfg_Global cfg)) (gc_PrettyLogs (cfg_Global cfg)) l;
                    locality = GetLocality getenv (cfg_Global cfg)
                in case newService cfg locality of
                     Ok s \<Rightarrow> (l1, fst (StartServer listen numCPU (gc_ServerPort (cfg_Global cfg)) s), Ok ())
                   | _ \<Rightarrow> (l1, [], Panic))
           | _ \<Rightarrow> (l, [], Panic))
      | _ \<Rightarrow> (l, [], Panic))"

subsection \<open>The client process\<close>

text \<open>
  The last part of \<^verbatim>\<open>NewBlobCacheClient\<close>: mounting the file system when it is enabled. The result has the root node of the mounted file
  system. Setting the read-ahead may fail without consequence.
\<close>

definition mount_client :: "(string \<Rightarrow> string option) \<Rightarrow> (string \<Rightarrow> bool) \<Rightarrow> (FSNode \<Rightarrow> string \<Rightarrow> mount_options \<Rightarrow> unit res)
    \<Rightarrow> mount_info list option \<Rightarrow> (string list \<Rightarrow> bool) \<Rightarrow> 'w coordinator \<Rightarrow> 'h BlobCacheClient \<Rightarrow> fs \<Rightarrow> 'w
    \<Rightarrow> fs \<times> 'w \<times> FSNode option res \<times> unit res option" where
  "mount_client findmnt fusermount newServer mounts run C bc f w =
     (if bf_Enabled (cc_BlobFs (cl_clientConfig bc)) then
        (case Mount findmnt fusermount newServer C (cc_BlobFs (cl_clientConfig bc)) f w of
           (f1, w1, Err e) \<Rightarrow> (f1, w1, Err e, None)
         | (f1, w1, Panic) \<Rightarrow> (f1, w1, Panic, None)
         | (f1, w1, Ok rootNode) \<Rightarrow>
             (f1, w1, Ok (Some rootNode), Some (updateReadAheadKB mounts run (bf_MountPoint (cc_BlobFs (cl_clientConfig bc))) readAheadKB)))
      else (f, w, Ok None, None))"

text \<open>\<^verbatim>\<open>Cleanup\<close>: whether the file system is unmounted.\<close>

definition client_Cleanup :: "'h BlobCacheClient \<Rightarrow> FSNode option \<Rightarrow> bool \<times> unit res" where
  "client_Cleanup c blobfsServer = (bf_Enabled (cc_BlobFs (cl_clientConfig c)) \<and> blobfsServer \<noteq> None, Ok ())"

definition grpcAuthInterceptor :: "string \<Rightarrow> (string \<times> string) list \<Rightarrow> (string \<times> string) list" where
  "grpcAuthInterceptor token outgoing = outgoing @ [(''authorization'', ''Bearer '' @ token)]"

definition bfs_Root :: "FSNode option \<Rightarrow> FSNode res" where
  "bfs_Root r = (case r of None \<Rightarrow> Err (ErrMsg ''root not initialized'') | Some n \<Rightarrow> Ok n)"

definition forceUnmount :: "(command \<Rightarrow> bool) \<Rightarrow> string \<Rightarrow> unit res" where
  "forceUnmount run mountPoint =
     (if run (exec_Command [''fusermount'', ''-uz'', mountPoint]) then Ok () else Err (ErrMsg ''fusermount''))"

subsection \<open>Base64\<close>

text \<open>The credentials in the header can be decoded: different credentials give different headers.\<close>

lemma base64_char_pad: "n < 64 \<Longrightarrow> base64_char n \<noteq> CHR ''=''"
proof -
  have "\<forall>n \<in> set [0..<64]. base64_char n \<noteq> CHR ''=''" by code_simp
  then show "n < 64 \<Longrightarrow> base64_char n \<noteq> CHR ''=''" by simp
qed

definition base64_value :: "char \<Rightarrow> nat" where
  "base64_value c = length (takeWhile (\<lambda>x. x \<noteq> c) ''ABCDEFGHIJKLMNOPQRSTUVWXYZabcdefghijklmnopqrstuvwxyz0123456789+/'')"

lemma base64_value_char: "n < 64 \<Longrightarrow> base64_value (base64_char n) = n"
proof -
  have "\<forall>n \<in> set [0..<64]. base64_value (base64_char n) = n" by code_simp
  then show "n < 64 \<Longrightarrow> base64_value (base64_char n) = n" by simp
qed

fun base64_ungroup :: "string \<Rightarrow> nat list" where
  "base64_ungroup (p # q # r # s # cs) =
     (let a = base64_value p * 4 + base64_value q div 16;
          b = base64_value q mod 16 * 16 + base64_value r div 4;
          c = base64_value r mod 4 * 64 + base64_value s
      in if r = CHR ''='' then [a] else if s = CHR ''='' then [a, b] else a # b # c # base64_ungroup cs)"
| "base64_ungroup _ = []"

lemma base64_roundtrip: "list_all (\<lambda>b. b < 256) bs \<Longrightarrow> base64_ungroup (base64_groups bs) = bs"
proof (induction bs rule: base64_groups.induct)
  case (1 a b c bs)
  have lt: "a div 4 < 64" "a mod 4 * 16 + b div 16 < 64" "b mod 16 * 4 + c div 64 < 64" "c mod 64 < 64" using 1(2) by auto
  have eq: "a div 4 * 4 + (a mod 4 * 16 + b div 16) div 16 = a" "(a mod 4 * 16 + b div 16) mod 16 * 16 + (b mod 16 * 4 + c div 64) div 4 = b"
    "(b mod 16 * 4 + c div 64) mod 4 * 64 + c mod 64 = c" using 1(2) by auto
  show ?case using 1 base64_char_pad [OF lt(3)] base64_char_pad [OF lt(4)]
    unfolding base64_groups.simps append.simps base64_ungroup.simps Let_def base64_value_char [OF lt(1)] base64_value_char [OF lt(2)]
      base64_value_char [OF lt(3)] base64_value_char [OF lt(4)] eq by simp
next
  case (2 a b)
  have lt: "a div 4 < 64" "a mod 4 * 16 + b div 16 < 64" "b mod 16 * 4 < 64" using 2 by auto
  have eq: "a div 4 * 4 + (a mod 4 * 16 + b div 16) div 16 = a" "(a mod 4 * 16 + b div 16) mod 16 * 16 + (b mod 16 * 4) div 4 = b"
    using 2 by auto
  show ?case using base64_char_pad [OF lt(3)]
    unfolding base64_groups.simps base64_ungroup.simps Let_def base64_value_char [OF lt(1)] base64_value_char [OF lt(2)]
      base64_value_char [OF lt(3)] eq by simp
next
  case (3 a)
  have lt: "a div 4 < 64" "a mod 4 * 16 < 64" using 3 by auto
  have eq: "a div 4 * 4 + (a mod 4 * 16) div 16 = a" using 3 by auto
  show ?case
    unfolding base64_groups.simps base64_ungroup.simps Let_def base64_value_char [OF lt(1)] base64_value_char [OF lt(2)] eq by simp
qed simp

end
